(* ===== verification/Prelude.thy ===== *)
theory Prelude
  imports Complex_Main "HOL-Library.AList" "HOL-Library.Sublist"
begin

text \<open>
  Shared vocabulary of the development: JavaScript strings, decimal printing, rounding,
  the insertion-ordered \<^verbatim>\<open>Set\<close> and \<^verbatim>\<open>Map\<close> of the language, capped queues, and the
  two container interfaces every component uses (a set of names, a keyed store).

  A JavaScript string is a \<^typ>\<open>string\<close> of bytes (UTF-8 for the few non-ASCII symbols of the
  user interface).  A JavaScript number is a \<^typ>\<open>nat\<close> or \<^typ>\<open>int\<close> where the code
  only counts, and a \<^typ>\<open>real\<close> where it measures (coordinates, milliseconds): the rounding
  of double arithmetic is modelled only where it reaches a printed digit (theory Format).
\<close>

section \<open>Collections of rewrite rules\<close>

named_theorems world_simps \<open>how one operation of the page changes one field of the state\<close>
named_theorems string_simps \<open>evaluation of string operations on literals\<close>

section \<open>Strings\<close>

definition to_lower_char :: "char \<Rightarrow> char" where
  "to_lower_char c =
     (let n = (of_char c :: nat) in if 65 \<le> n \<and> n \<le> 90 then char_of (n + 32) else c)"

definition to_lower :: "string \<Rightarrow> string" where
  "to_lower s = map to_lower_char s"

fun contains_str :: "'a list \<Rightarrow> 'a list \<Rightarrow> bool" where
  "contains_str [] q = (q = [])"
| "contains_str (x # xs) q = (prefix q (x # xs) \<or> contains_str xs q)"

definition is_space :: "char \<Rightarrow> bool" where
  "is_space c = ((of_char c :: nat) \<in> {9, 10, 11, 12, 13, 32})"

definition trim :: "string \<Rightarrow> string" where
  "trim s = rev (dropWhile is_space (rev (dropWhile is_space s)))"

fun split_on :: "'a \<Rightarrow> 'a list \<Rightarrow> 'a list list" where
  "split_on c [] = [[]]"
| "split_on c (x # xs) =
     (if x = c then [] # split_on c xs
      else (case split_on c xs of [] \<Rightarrow> [[x]] | y # ys \<Rightarrow> (x # y) # ys))"

fun join :: "'a list \<Rightarrow> 'a list list \<Rightarrow> 'a list" where
  "join sep [] = []"
| "join sep [x] = x"
| "join sep (x # y # ys) = x @ sep @ join sep (y # ys)"

definition or_else :: "string \<Rightarrow> string \<Rightarrow> string" where
  "or_else a b = (if a = [] then b else a)"

definition is_digit :: "char \<Rightarrow> bool" where
  "is_digit c = (48 \<le> (of_char c :: nat) \<and> (of_char c :: nat) \<le> 57)"

definition newline :: string where
  "newline = [char_of (10 :: nat)]"

lemma contains_sublist [simp]: "contains_str xs q \<longleftrightarrow> sublist q xs"
  by (induction xs) (auto simp: sublist_Cons_right)

lemma split_on_nonempty [simp]: "split_on c xs \<noteq> []"
  by (induction xs) (auto split: list.splits)

lemma split_on_fresh: "c \<notin> set xs \<Longrightarrow> split_on c xs = [xs]"
  by (induction xs) auto

lemma split_on_append: "c \<notin> set xs \<Longrightarrow> split_on c (xs @ c # ys) = xs # split_on c ys"
  by (induction xs) auto

lemma split_on_join:
  assumes "ys \<noteq> []" and "\<forall>y \<in> set ys. c \<notin> set y"
  shows "split_on c (join [c] ys) = ys"
  using assms
  by (induction "[c]" ys rule: join.induct) (auto simp: split_on_append split_on_fresh)

lemma join_inj:
  assumes "\<forall>y \<in> set xs. c \<notin> set y" and "\<forall>y \<in> set ys. c \<notin> set y"
    and "xs \<noteq> []" and "ys \<noteq> []" and "join [c] xs = join [c] ys"
  shows "xs = ys"
  using assms by (metis split_on_join)

lemma length_to_lower [simp]: "length (to_lower s) = length s"
  by (simp add: to_lower_def)

section \<open>Decimal numbers\<close>

definition digit :: "nat \<Rightarrow> char" where
  "digit n = char_of (48 + n)"

fun show_nat :: "nat \<Rightarrow> string" where
  "show_nat n = (if n < 10 then [digit n] else show_nat (n div 10) @ [digit (n mod 10)])"

declare show_nat.simps [simp del]

definition show_int :: "int \<Rightarrow> string" where
  "show_int i = (if i < 0 then ''-'' @ show_nat (nat (- i)) else show_nat (nat i))"

definition read_digit :: "char \<Rightarrow> nat" where
  "read_digit c = of_char c - 48"

definition read_nat :: "string \<Rightarrow> nat" where
  "read_nat s = foldl (\<lambda>n c. 10 * n + read_digit c) 0 s"

lemma read_digit_digit [simp]: "n < 10 \<Longrightarrow> read_digit (digit n) = n"
  by (simp add: read_digit_def digit_def)

lemma is_digit_digit [simp]: "n < 10 \<Longrightarrow> is_digit (digit n)"
  by (simp add: is_digit_def digit_def)

lemma read_show_nat [simp]: "read_nat (show_nat n) = n"
proof (induction n rule: show_nat.induct)
  case (1 n)
  show ?case
  proof (cases "n < 10")
    case True
    then show ?thesis by (subst show_nat.simps) (simp add: read_nat_def)
  next
    case False
    then have "read_nat (show_nat (n div 10)) = n div 10" by (rule "1.IH")
    then show ?thesis using False by (subst show_nat.simps) (simp add: read_nat_def)
  qed
qed

lemma show_nat_digits: "\<forall>c \<in> set (show_nat n). is_digit c"
proof (induction n rule: show_nat.induct)
  case (1 n)
  then show ?case by (cases "n < 10") (subst show_nat.simps, simp)+
qed

lemma show_nat_nonempty [simp]: "show_nat n \<noteq> []"
  by (subst show_nat.simps) simp

lemma show_nat_inj [simp]: "show_nat m = show_nat n \<longleftrightarrow> m = n"
  by (metis read_show_nat)

text \<open>\<^verbatim>\<open>padStart(2, '0')\<close> and its kin.\<close>

definition pad_start :: "nat \<Rightarrow> char \<Rightarrow> string \<Rightarrow> string" where
  "pad_start w c s = replicate (w - length s) c @ s"

definition pad_end :: "nat \<Rightarrow> char \<Rightarrow> string \<Rightarrow> string" where
  "pad_end w c s = s @ replicate (w - length s) c"

section \<open>Numbers\<close>

definition clampr :: "real \<Rightarrow> real \<Rightarrow> real \<Rightarrow> real" where
  "clampr lo hi v = max lo (min hi v)"

lemma clampr_bounds: "lo \<le> hi \<Longrightarrow> lo \<le> clampr lo hi v \<and> clampr lo hi v \<le> hi"
  by (auto simp: clampr_def)

section \<open>Names: the language's insertion-ordered Set\<close>

definition set_add :: "'a \<Rightarrow> 'a list \<Rightarrow> 'a list" where
  "set_add x s = (if x \<in> set s then s else s @ [x])"

definition set_del :: "'a \<Rightarrow> 'a list \<Rightarrow> 'a list" where
  "set_del x s = filter (\<lambda>y. y \<noteq> x) s"

text \<open>What a client of a JavaScript \<^verbatim>\<open>Set\<close> relies on.\<close>

locale name_set =
  fixes add :: "'a \<Rightarrow> 's \<Rightarrow> 's"
    and del :: "'a \<Rightarrow> 's \<Rightarrow> 's"
    and elems :: "'s \<Rightarrow> 'a list"
  assumes elems_add: "set (elems (add x s)) = insert x (set (elems s))"
    and elems_del: "set (elems (del x s)) = set (elems s) - {x}"
    and distinct_add: "distinct (elems s) \<Longrightarrow> distinct (elems (add x s))"
    and distinct_del: "distinct (elems s) \<Longrightarrow> distinct (elems (del x s))"
begin

lemma add_all: "set (elems (fold (\<lambda>v. add (f v)) vs s)) = set (elems s) \<union> f ` set vs"
  by (induction vs arbitrary: s) (auto simp: elems_add)

lemma distinct_add_all: "distinct (elems s) \<Longrightarrow> distinct (elems (fold (\<lambda>v. add (f v)) vs s))"
  by (induction vs arbitrary: s) (auto simp: distinct_add)

lemma del_add: "x \<notin> set (elems s) \<Longrightarrow> set (elems (del x (add x s))) = set (elems s)"
  by (simp add: elems_add elems_del)

lemma card_elems: "distinct (elems s) \<Longrightarrow> length (elems s) = card (set (elems s))"
  by (simp add: distinct_card)

end

interpretation js_set: name_set set_add set_del "\<lambda>s. s"
  by unfold_locales (auto simp: set_add_def set_del_def)

lemma set_set_add [simp]: "set (set_add x s) = insert x (set s)"
  by (rule js_set.elems_add)

lemma set_set_del [simp]: "set (set_del x s) = set s - {x}"
  by (rule js_set.elems_del)

lemma distinct_set_add [intro]: "distinct s \<Longrightarrow> distinct (set_add x s)"
  by (rule js_set.distinct_add)

lemma distinct_set_del [intro]: "distinct s \<Longrightarrow> distinct (set_del x s)"
  by (rule js_set.distinct_del)

section \<open>Keyed stores: Map and DataSet\<close>

text \<open>
  \<^verbatim>\<open>Map\<close> objects are association lists in insertion order (\<^const>\<open>AList.update\<close>
  keeps the place of a key that is already there, as \<^verbatim>\<open>Map.prototype.set\<close> does).
  The interface below is shared with \<^verbatim>\<open>vis.DataSet\<close>, whose \<^verbatim>\<open>update\<close> merges
  the new item into the stored one: \<open>merge\<close> says what a write leaves.
\<close>

locale keyed_store =
  fixes get :: "'s \<Rightarrow> 'k \<Rightarrow> 'v option"
    and put :: "'k \<Rightarrow> 'v \<Rightarrow> 's \<Rightarrow> 's"
    and del :: "'k \<Rightarrow> 's \<Rightarrow> 's"
    and keys :: "'s \<Rightarrow> 'k list"
    and merge :: "'v option \<Rightarrow> 'v \<Rightarrow> 'v"
  assumes get_put: "get (put k v s) k' = (if k' = k then Some (merge (get s k) v) else get s k')"
    and get_del: "get (del k s) k' = (if k' = k then None else get s k')"
    and keys_get: "k \<in> set (keys s) \<longleftrightarrow> get s k \<noteq> None"
begin

lemma keys_put: "set (keys (put k v s)) = insert k (set (keys s))"
  by (auto simp: keys_get get_put split: if_splits)

lemma keys_del: "set (keys (del k s)) = set (keys s) - {k}"
  by (auto simp: keys_get get_del split: if_splits)

lemma keys_put_all:
  "set (keys (fold (\<lambda>v. put (kf v) v) vs s)) = set (keys s) \<union> kf ` set vs"
  by (induction vs arbitrary: s) (auto simp: keys_put)

lemma keys_del_all: "set (keys (fold del ks s)) = set (keys s) - set ks"
  by (induction ks arbitrary: s) (auto simp: keys_del)

lemma get_del_all: "get (fold del ks s) k = (if k \<in> set ks then None else get s k)"
  by (induction ks arbitrary: s) (auto simp: get_del)

lemma get_put_all_other:
  "k \<notin> kf ` set vs \<Longrightarrow> get (fold (\<lambda>v. put (kf v) v) vs s) k = get s k"
  by (induction vs arbitrary: s) (auto simp: get_put)

lemma get_put_all_unique:
  assumes "distinct (map kf vs)" and "v \<in> set vs"
  shows "get (fold (\<lambda>v. put (kf v) v) vs s) (kf v) = Some (merge (get s (kf v)) v)"
  using assms
proof (induction vs arbitrary: s)
  case Nil
  then show ?case by simp
next
  case (Cons w ws)
  then show ?case
    by (cases "w = v") (auto simp: get_put get_put_all_other rev_image_eqI)
qed

end

definition map_keys :: "('k \<times> 'v) list \<Rightarrow> 'k list" where
  "map_keys m = map fst m"

interpretation js_map: keyed_store map_of AList.update AList.delete map_keys "\<lambda>_ v. v"
  by unfold_locales
    (auto simp: update_conv' delete_conv' map_keys_def map_of_eq_None_iff image_iff)

lemma map_of_update [simp]: "map_of (AList.update k v m) = (map_of m)(k \<mapsto> v)"
  by (rule update_conv')

lemma map_of_delete [simp]: "map_of (AList.delete k m) = (map_of m)(k := None)"
  by (rule delete_conv')

section \<open>Capped queues\<close>

text \<open>\<^verbatim>\<open>if (q.length > cap) q.splice(0, q.length - cap)\<close>: the oldest entries leave.\<close>

definition keep_newest :: "nat \<Rightarrow> 'a list \<Rightarrow> 'a list" where
  "keep_newest cap q = drop (length q - cap) q"

lemma length_keep_newest [simp]: "length (keep_newest cap q) = min (length q) cap"
  by (simp add: keep_newest_def)

lemma keep_newest_le: "length (keep_newest cap q) \<le> cap"
  by simp

lemma set_keep_newest: "set (keep_newest cap q) \<subseteq> set q"
  by (simp add: keep_newest_def set_drop_subset)

lemma keep_newest_small [simp]: "length q \<le> cap \<Longrightarrow> keep_newest cap q = q"
  by (simp add: keep_newest_def)

lemma keep_newest_suffix: "suffix (keep_newest cap q) q"
  by (simp add: keep_newest_def suffix_drop)

end
