(* ===== verification/Format.thy ===== *)
theory Format
  imports Prelude
begin

text \<open>
  The pure string functions of \<^verbatim>\<open>static/app.js\<close>: counts, byte sizes, times and durations,
  HTML and regular-expression escaping, search highlighting, and the reading of IPv4 addresses and
  subnets.  A quotient that reaches \<^verbatim>\<open>toFixed\<close> is the double the division gives: exact for the
  powers of two of \<^verbatim>\<open>formatBytes\<close>, correctly rounded to 53 bits for \<^verbatim>\<open>formatCount\<close>.
\<close>

section \<open>toFixed and doubles\<close>

text \<open>
  \<^verbatim>\<open>(num / den).toFixed(1)\<close> on an exact quotient: the nearest tenth, the larger of two.
\<close>

definition tenths :: "nat \<Rightarrow> nat \<Rightarrow> nat" where
  "tenths num den = (20 * num + den) div (2 * den)"

definition show_tenths :: "nat \<Rightarrow> string" where
  "show_tenths t = show_nat (t div 10) @ ''.'' @ show_nat (t mod 10)"

definition to_fixed1 :: "nat \<Rightarrow> nat \<Rightarrow> string" where
  "to_fixed1 num den = show_tenths (tenths num den)"

fun bit_length :: "nat \<Rightarrow> nat" where
  "bit_length n = (if n = 0 then 0 else Suc (bit_length (n div 2)))"

declare bit_length.simps [simp del]

text \<open>The double nearest to \<open>a / b\<close> (at least 1), as a numerator over \<open>2 ^ k\<close>; ties to even.\<close>

definition double_scale :: "nat \<Rightarrow> nat \<Rightarrow> nat" where
  "double_scale a b = 53 - bit_length (a div b)"

definition double_num :: "nat \<Rightarrow> nat \<Rightarrow> nat" where
  "double_num a b =
     (let num = a * 2 ^ double_scale a b; q = num div b; r = num mod b
      in if b < 2 * r \<or> (2 * r = b \<and> odd q) then Suc q else q)"

definition drop_point_zero :: "string \<Rightarrow> string" where
  "drop_point_zero s = (if suffix ''.0'' s then take (length s - 2) s else s)"

section \<open>Counts, sizes, times\<close>

definition formatCount :: "nat \<Rightarrow> string" where
  "formatCount n =
     (if 1000000 \<le> n
      then drop_point_zero (to_fixed1 (double_num n 1000000) (2 ^ double_scale n 1000000)) @ ''M''
      else if 1000 \<le> n
      then drop_point_zero (to_fixed1 (double_num n 1000) (2 ^ double_scale n 1000)) @ ''k''
      else show_nat n)"

text \<open>
  The file declares \<^verbatim>\<open>formatBytes\<close> twice; function declarations are hoisted and the later
  one, with one decimal, is the one every caller runs.
\<close>

definition formatBytes :: "nat \<Rightarrow> string" where
  "formatBytes bytes =
     (if bytes < 1024 then show_nat bytes @ '' B''
      else if bytes < 1024 * 1024 then to_fixed1 bytes 1024 @ '' KB''
      else if bytes < 1024 * 1024 * 1024 then to_fixed1 bytes (1024 * 1024) @ '' MB''
      else to_fixed1 bytes (1024 * 1024 * 1024) @ '' GB'')"

text \<open>The remainder of the language: it takes the sign of the dividend.\<close>

definition js_rem :: "real \<Rightarrow> real \<Rightarrow> real" where
  "js_rem x m = x - m * of_int (if 0 \<le> x then \<lfloor>x / m\<rfloor> else \<lceil>x / m\<rceil>)"

definition formatTime :: "real \<Rightarrow> string" where
  "formatTime seconds =
     (let mins = \<lfloor>seconds / 60\<rfloor>; secs = \<lfloor>js_rem seconds 60\<rfloor>
      in pad_start 2 (CHR ''0'') (show_int mins) @ '':'' @ pad_start 2 (CHR ''0'') (show_int secs))"

definition formatDuration :: "real \<Rightarrow> string" where
  "formatDuration seconds =
     (if seconds < 60 then show_int \<lfloor>seconds\<rfloor> @ ''s''
      else if seconds < 3600 then show_int \<lfloor>seconds / 60\<rfloor> @ ''m''
      else show_int \<lfloor>seconds / 3600\<rfloor> @ ''h '' @ show_int \<lfloor>js_rem seconds 3600 / 60\<rfloor> @ ''m'')"

definition formatTimelineDuration :: "nat \<Rightarrow> string" where
  "formatTimelineDuration sec =
     (if 3600 \<le> sec
      then show_nat (sec div 3600) @ ''h '' @ show_nat ((sec mod 3600) div 60) @ ''m''
      else if 60 \<le> sec then show_nat (sec div 60) @ ''m '' @ show_nat (sec mod 60) @ ''s''
      else show_nat sec @ ''s'')"

definition formatTimeAgo :: "real \<Rightarrow> real \<Rightarrow> string" where
  "formatTimeAgo nowMs date =
     (let diffSec = \<lfloor>(nowMs - date) / 1000\<rfloor>
      in if diffSec < 60 then show_int diffSec @ ''s ago''
         else if diffSec < 3600 then show_int (diffSec div 60) @ ''m ago''
         else if diffSec < 86400 then show_int (diffSec div 3600) @ ''h ago''
         else show_int (diffSec div 86400) @ ''d ago'')"

section \<open>Escaping and highlighting\<close>

text \<open>
  \<^verbatim>\<open>escapeHtml\<close> reads back the serialisation of a text node: \<^verbatim>\<open>&\<close>, \<^verbatim>\<open><\<close> and \<^verbatim>\<open>>\<close> are
  escaped, quotes are not (the serialiser's fourth escape, the no-break space, is left out).
\<close>

definition esc_char :: "char \<Rightarrow> string" where
  "esc_char c =
     (if c = CHR ''&'' then ''&amp;'' else if c = CHR ''<'' then ''&lt;''
      else if c = CHR ''>'' then ''&gt;'' else [c])"

definition escapeHtml :: "string \<Rightarrow> string" where
  "escapeHtml text = concat (map esc_char text)"

definition regex_special :: "char \<Rightarrow> bool" where
  "regex_special c = (c \<in> set ''.*+?^${}()|[]'' \<or> (of_char c :: nat) = 92)"

definition backslash :: char where
  "backslash = char_of (92 :: nat)"

definition escapeRegex :: "string \<Rightarrow> string" where
  "escapeRegex str = concat (map (\<lambda>c. if regex_special c then [backslash, c] else [c]) str)"

text \<open>
  A pattern made of ordinary and escaped characters, read as the literal it matches; \<open>None\<close> when
  it contains an operator.
\<close>

fun literal_pattern :: "string \<Rightarrow> string option" where
  "literal_pattern [] = Some []"
| "literal_pattern [c] = (if regex_special c then None else Some [c])"
| "literal_pattern (c # d # r) =
     (if c = backslash then (if regex_special d then map_option ((#) d) (literal_pattern r) else None)
      else if regex_special c then None
      else map_option ((#) c) (literal_pattern (d # r)))"

definition ci_prefix :: "string \<Rightarrow> string \<Rightarrow> bool" where
  "ci_prefix q t = prefix (to_lower q) (to_lower t)"

text \<open>\<^verbatim>\<open>text.replace(/(q)/gi, ...)\<close>: the text cut into pieces, each with whether it matched.\<close>

function segments :: "string \<Rightarrow> string \<Rightarrow> (bool \<times> string) list" where
  "segments q t =
     (if q = [] \<or> t = [] then (if t = [] then [] else [(False, t)])
      else if ci_prefix q t then (True, take (length q) t) # segments q (drop (length q) t)
      else (False, [hd t]) # segments q (tl t))"
  by pat_completeness auto
termination
  by (relation "measure (\<lambda>(q, t). length t)") auto

declare segments.simps [simp del]

definition mark :: "bool \<times> string \<Rightarrow> string" where
  "mark seg =
     (if fst seg then ''<span class=\"search-highlight\">'' @ snd seg @ ''</span>'' else snd seg)"

definition highlightMatch :: "string \<Rightarrow> string \<Rightarrow> string" where
  "highlightMatch txt query =
     (if txt = [] \<or> query = [] then txt
      else case literal_pattern (escapeRegex query) of
             None \<Rightarrow> txt
           | Some lit \<Rightarrow> concat (map mark (segments lit txt)))"

section \<open>Addresses and subnets\<close>

definition digits_ne :: "string \<Rightarrow> bool" where
  "digits_ne s = (s \<noteq> [] \<and> list_all is_digit s)"

definition dotted_quad :: "string \<Rightarrow> (string \<times> string \<times> string) option" where
  "dotted_quad s =
     (case split_on (CHR ''.'') s of
        [a, b, c, d] \<Rightarrow>
          if digits_ne a \<and> digits_ne b \<and> digits_ne c \<and> digits_ne d then Some (a, b, c) else None
      | _ \<Rightarrow> None)"

text \<open>\<open>ips\<close>: the node's address list, \<open>None\<close> when absent.\<close>

definition hostSubnet24 :: "string \<Rightarrow> string list option \<Rightarrow> string" where
  "hostSubnet24 nid ips =
     (let cand = (case ips of Some xs \<Rightarrow> if xs = [] then [nid] else xs | None \<Rightarrow> [nid])
      in case List.map_filter dotted_quad cand of
           [] \<Rightarrow> []
         | (a, b, c) # _ \<Rightarrow> a @ ''.'' @ b @ ''.'' @ c @ ''.0/24'')"

definition subnet16_of_string :: "string \<Rightarrow> string" where
  "subnet16_of_string s =
     (case split_on (CHR ''.'') s of
        a # b # _ # _ \<Rightarrow>
          if digits_ne a \<and> digits_ne b then a @ ''.'' @ b @ ''.0.0/16'' else []
      | _ \<Rightarrow> [])"

definition subnet16Of :: "string \<Rightarrow> string list option \<Rightarrow> string" where
  "subnet16Of nid ips = subnet16_of_string (hostSubnet24 nid ips)"

definition octet :: "string \<Rightarrow> bool" where
  "octet s = (list_all is_digit s \<and> 1 \<le> length s \<and> length s \<le> 3)"

definition looksLikeIP :: "string \<Rightarrow> bool" where
  "looksLikeIP s =
     ((length (split_on (CHR ''.'') s) = 4 \<and> list_all octet (split_on (CHR ''.'') s))
      \<or> CHR '':'' \<in> set s)"

text \<open>\<^verbatim>\<open>cidr.replace(/\+$/, '')\<close>: one trailing plus is dropped.\<close>

definition strip_plus :: "string \<Rightarrow> string" where
  "strip_plus s = (if s \<noteq> [] \<and> last s = CHR ''+'' then butlast s else s)"

section \<open>Facts\<close>

lemma tenths_error:
  assumes "0 < den"
  shows "\<bar>real (tenths num den) / 10 - real num / real den\<bar> \<le> 1 / 20"
proof -
  define t where "t = tenths num den"
  have "20 * num + den = 2 * den * t + (20 * num + den) mod (2 * den)"
    by (simp add: t_def tenths_def)
  moreover have "(20 * num + den) mod (2 * den) < 2 * den" using assms by simp
  ultimately have "2 * den * t \<le> 20 * num + den" and "20 * num + den \<le> 2 * den * t + 2 * den"
    by linarith+
  then have "2 * real den * real t \<le> 20 * real num + real den"
    and "20 * real num + real den \<le> 2 * real den * real t + 2 * real den"
    by (metis (mono_tags, lifting) of_nat_add of_nat_le_iff of_nat_mult of_nat_numeral)+
  then have "2 * \<bar>real den * real t - 10 * real num\<bar> \<le> real den"
    by (simp add: abs_if mult.assoc)
  then show ?thesis using assms
    by (simp add: t_def [symmetric] field_simps)
qed

text \<open>
  Lemma: every byte size from one kibibyte up prints a number with one decimal and a unit, and that
  number is within a twentieth of the true quotient.
\<close>

theorem formatBytes_accurate:
  assumes "1024 \<le> bytes"
  shows "\<exists>t den u. formatBytes bytes = show_tenths t @ u
      \<and> (den, u) \<in> {(1024, '' KB''), (1024 ^ 2, '' MB''), (1024 ^ 3, '' GB'')}
      \<and> \<bar>real t / 10 - real bytes / real den\<bar> \<le> 1 / 20"
proof -
  have acc: "\<bar>real (tenths bytes den) / 10 - real bytes / real den\<bar> \<le> 1 / 20" if "0 < den" for den
    using that by (rule tenths_error)
  consider (kb) "bytes < 1024 * 1024"
    | (mb) "\<not> bytes < 1024 * 1024" "bytes < 1024 * 1024 * 1024"
    | (gb) "\<not> bytes < 1024 * 1024" "\<not> bytes < 1024 * 1024 * 1024"
    by blast
  then show ?thesis
  proof cases
    case kb
    with assms acc [of 1024] show ?thesis
      by (intro exI [of _ "tenths bytes 1024"] exI [of _ 1024] exI [of _ "'' KB''"])
        (simp add: formatBytes_def to_fixed1_def)
  next
    case mb
    with assms acc [of "1024 * 1024"] show ?thesis
      by (intro exI [of _ "tenths bytes (1024 * 1024)"] exI [of _ "1024 * 1024"] exI [of _ "'' MB''"])
        (simp add: formatBytes_def to_fixed1_def power2_eq_square)
  next
    case gb
    with assms acc [of "1024 * 1024 * 1024"] show ?thesis
      by (intro exI [of _ "tenths bytes (1024 * 1024 * 1024)"] exI [of _ "1024 * 1024 * 1024"]
          exI [of _ "'' GB''"])
        (simp add: formatBytes_def to_fixed1_def power3_eq_cube)
  qed
qed

theorem formatBytes_accurate_witness: "\<exists>t den u. formatBytes 1536 = show_tenths t @ u
      \<and> (den, u) \<in> {(1024, '' KB''), (1024 ^ 2, '' MB''), (1024 ^ 3, '' GB'')}
      \<and> \<bar>real t / 10 - real 1536 / real den\<bar> \<le> 1 / 20"
  by (rule formatBytes_accurate) simp

lemma literal_escape: "literal_pattern (escapeRegex str) = Some str"
proof (induction str)
  case Nil
  show ?case by (simp add: escapeRegex_def)
next
  case (Cons c cs)
  have bs: "regex_special backslash" by (simp add: regex_special_def backslash_def)
  have "literal_pattern (c # escapeRegex cs) = Some (c # cs)" if "\<not> regex_special c"
    using that Cons bs by (cases "escapeRegex cs") auto
  moreover have "literal_pattern (backslash # c # escapeRegex cs) = Some (c # cs)" if "regex_special c"
    using that Cons by simp
  ultimately show ?case by (simp add: escapeRegex_def)
qed

text \<open>
  Lemma: escaping makes any query a pattern with no operator, and the literal it matches is the query.
\<close>

theorem escapeRegex_literal: "literal_pattern (escapeRegex query) = Some query"
  by (rule literal_escape)

lemma segments_concat: "concat (map snd (segments q t)) = t"
proof (induction q t rule: segments.induct)
  case (1 q t)
  then show ?case
    by (subst segments.simps) (cases t, auto)
qed

lemma segments_marked:
  "(True, m) \<in> set (segments q t) \<Longrightarrow> to_lower m = to_lower q"
proof (induction q t rule: segments.induct)
  case (1 q t)
  show ?case
  proof (cases "q = [] \<or> t = []")
    case True
    with "1.prems" show ?thesis by (subst (asm) segments.simps) (auto split: if_splits)
  next
    case False
    have "to_lower (take (length q) t) = to_lower q" if "ci_prefix q t"
      using that by (auto simp: ci_prefix_def to_lower_def take_map [symmetric] prefix_def)
    with "1.prems" "1.IH" False show ?thesis
      by (subst (asm) segments.simps) (auto split: if_splits)
  qed
qed

text \<open>
  Lemma: highlighting only adds markup: the pieces of the output, joined without their tags, are the
  text itself, and each marked piece equals the query up to letter case.
\<close>

theorem highlight_preserves_text:
  assumes "txt \<noteq> []" and "query \<noteq> []"
  shows "\<exists>segs. highlightMatch txt query = concat (map mark segs) \<and> concat (map snd segs) = txt
      \<and> (\<forall>m. (True, m) \<in> set segs \<longrightarrow> to_lower m = to_lower query)"
  using assms
  by (intro exI [of _ "segments query txt"])
    (simp add: highlightMatch_def literal_escape segments_concat segments_marked)

theorem highlight_preserves_text_witness:
  "\<exists>segs. highlightMatch ''a.b'' ''.'' = concat (map mark segs) \<and> concat (map snd segs) = ''a.b''
      \<and> (\<forall>m. (True, m) \<in> set segs \<longrightarrow> to_lower m = to_lower ''.'')"
  by (rule highlight_preserves_text) simp_all

text \<open>Markup characters never survive escaping.\<close>

lemma escapeHtml_Cons: "escapeHtml (c # cs) = esc_char c @ escapeHtml cs"
  by (simp add: escapeHtml_def)

lemma escapeHtml_no_tag [simp]:
  "CHR ''<'' \<notin> set (escapeHtml s)" "CHR ''>'' \<notin> set (escapeHtml s)"
  by (induction s) (auto simp: escapeHtml_def esc_char_def)

lemma formatTime_parts:
  assumes "0 \<le> s"
  shows "formatTime s =
    pad_start 2 (CHR ''0'') (show_nat (nat \<lfloor>s\<rfloor> div 60)) @ '':'' @
    pad_start 2 (CHR ''0'') (show_nat (nat \<lfloor>s\<rfloor> mod 60))"
proof -
  have m: "\<lfloor>s / 60\<rfloor> = \<lfloor>s\<rfloor> div 60"
    using floor_divide_real_eq_div [of 60 s] by simp
  have "\<lfloor>js_rem s 60\<rfloor> = \<lfloor>s - of_int (60 * \<lfloor>s / 60\<rfloor>)\<rfloor>" using assms by (simp add: js_rem_def)
  also have "\<dots> = \<lfloor>s\<rfloor> - 60 * (\<lfloor>s\<rfloor> div 60)" by (simp only: floor_diff_of_int m)
  also have "\<dots> = \<lfloor>s\<rfloor> mod 60" by (simp add: minus_mult_div_eq_mod)
  finally have r: "\<lfloor>js_rem s 60\<rfloor> = \<lfloor>s\<rfloor> mod 60" .
  have "0 \<le> \<lfloor>s\<rfloor>" using assms by simp
  then have "0 \<le> \<lfloor>s\<rfloor> div 60" by (simp add: pos_imp_zdiv_nonneg_iff)
  moreover have "(\<lfloor>s\<rfloor> mod 60 < 0) = False" by (simp add: not_less)
  ultimately show ?thesis using assms
    by (simp add: formatTime_def r m show_int_def nat_div_distrib nat_mod_distrib Let_def)
qed

lemma read_pad: "read_nat (pad_start w (CHR ''0'') s) = read_nat s"
proof -
  have "foldl (\<lambda>n c. 10 * n + read_digit c) 0 (replicate k (CHR ''0'')) = 0" for k
    by (induction k) (simp_all add: read_digit_def)
  then show ?thesis by (simp add: pad_start_def read_nat_def)
qed

lemma pad_show_no_colon: "CHR '':'' \<notin> set (pad_start w (CHR ''0'') (show_nat n))"
  using show_nat_digits [of n] by (auto simp: pad_start_def is_digit_def)

lemma length_show_small: "n < 100 \<Longrightarrow> length (show_nat n) \<le> 2"
  by (subst show_nat.simps, subst show_nat.simps) auto

text \<open>
  Lemma: a time prints as minutes, a colon and two digits of seconds below 60, and reading the two
  fields back gives the whole number of seconds.
\<close>

theorem formatTime_roundtrip:
  assumes "0 \<le> s"
  shows "\<exists>m ss. split_on (CHR '':'') (formatTime s) = [m, ss]
      \<and> 60 * read_nat m + read_nat ss = nat \<lfloor>s\<rfloor> \<and> length ss = 2 \<and> read_nat ss < 60"
proof -
  let ?m = "pad_start 2 (CHR ''0'') (show_nat (nat \<lfloor>s\<rfloor> div 60))"
  let ?r = "pad_start 2 (CHR ''0'') (show_nat (nat \<lfloor>s\<rfloor> mod 60))"
  have "split_on (CHR '':'') (formatTime s) = [?m, ?r]"
    by (simp add: formatTime_parts [OF assms] split_on_append split_on_fresh pad_show_no_colon)
  moreover have "length (show_nat (nat \<lfloor>s\<rfloor> mod 60)) \<le> 2"
    by (rule length_show_small) (rule less_trans [of _ 60], simp_all)
  ultimately show ?thesis
    by (intro exI [of _ ?m] exI [of _ ?r]) (simp add: read_pad, simp add: pad_start_def)
qed

theorem formatTime_roundtrip_witness:
  "\<exists>m ss. split_on (CHR '':'') (formatTime 83) = [m, ss]
      \<and> 60 * read_nat m + read_nat ss = nat \<lfloor>83 :: real\<rfloor> \<and> length ss = 2 \<and> read_nat ss < 60"
  by (rule formatTime_roundtrip) simp

end
