(* ===== verification/NetOptions.thy ===== *)
theory NetOptions
  imports Prelude
begin

text \<open>
  The renderer options of \<^verbatim>\<open>static/app.js\<close>: performance tiers by node count
  (\<^verbatim>\<open>getPerformanceTier\<close>) and the theme-aware option object
  (\<^verbatim>\<open>getNetworkOptions\<close>), as records with the object's keys.
\<close>

section \<open>Performance tiers\<close>

datatype tier = Low | Medium | High | Extreme | Maximum

definition PERF_TIER_LOW :: nat where "PERF_TIER_LOW = 30"
definition PERF_TIER_MEDIUM :: nat where "PERF_TIER_MEDIUM = 100"
definition PERF_TIER_HIGH :: nat where "PERF_TIER_HIGH = 300"
definition PERF_TIER_EXTREME :: nat where "PERF_TIER_EXTREME = 500"

lemmas perf_tier_defs =
  PERF_TIER_LOW_def PERF_TIER_MEDIUM_def PERF_TIER_HIGH_def PERF_TIER_EXTREME_def

definition getPerformanceTier :: "nat \<Rightarrow> tier" where
  "getPerformanceTier n =
     (if n \<le> PERF_TIER_LOW then Low
      else if n \<le> PERF_TIER_MEDIUM then Medium
      else if n \<le> PERF_TIER_HIGH then High
      else if n \<le> PERF_TIER_EXTREME then Extreme
      else Maximum)"

text \<open>The tiers in order of load, so that growth can be compared with the library's order.\<close>

fun tier_rank :: "tier \<Rightarrow> nat" where
  "tier_rank Low = 0"
| "tier_rank Medium = 1"
| "tier_rank High = 2"
| "tier_rank Extreme = 3"
| "tier_rank Maximum = 4"

lemma tier_rank_inj: "tier_rank a = tier_rank b \<Longrightarrow> a = b"
  by (cases a; cases b) simp_all

instantiation tier :: linorder
begin

definition less_eq_tier :: "tier \<Rightarrow> tier \<Rightarrow> bool" where
  "less_eq_tier a b \<longleftrightarrow> tier_rank a \<le> tier_rank b"

definition less_tier :: "tier \<Rightarrow> tier \<Rightarrow> bool" where
  "less_tier a b \<longleftrightarrow> tier_rank a < tier_rank b"

instance
  by intro_classes (auto simp: less_eq_tier_def less_tier_def dest: tier_rank_inj)

end

lemma getPerformanceTier_mono: "m \<le> n \<Longrightarrow> getPerformanceTier m \<le> getPerformanceTier n"
  by (auto simp: getPerformanceTier_def less_eq_tier_def perf_tier_defs)

section \<open>The option object\<close>

record shadow_opts =
  sh_enabled :: bool
  sh_color :: string
  sh_size :: nat
  sh_x :: nat
  sh_y :: nat

record node_opts =
  no_shape :: string
  no_size :: nat
  no_font_size :: nat
  no_font_color :: string
  no_font_face :: string
  no_borderWidth :: nat
  no_borderWidthSelected :: nat
  no_border :: string
  no_background :: string
  no_hl_border :: string
  no_hl_background :: string
  no_shadow :: shadow_opts
  no_scaling_min :: nat
  no_scaling_max :: nat
  no_label_enabled :: bool
  no_label_min :: nat
  no_label_max :: nat

record edge_opts =
  eo_width :: nat
  eo_arrow_to :: bool
  eo_arrow_from :: bool
  eo_smooth :: "(string \<times> real) option"   \<comment> \<open>type and roundness; None is \<open>false\<close>\<close>
  eo_font_size :: nat
  eo_font_color :: string
  eo_font_strokeWidth :: nat
  eo_font_strokeColor :: string
  eo_shadow :: shadow_opts

record interaction_opts =
  in_hover :: bool
  in_tooltipDelay :: nat
  in_zoomSpeed :: real
  in_zoomView :: bool
  in_navigationButtons :: bool
  in_keyboard_enabled :: bool
  in_keyboard_bindToWindow :: bool
  in_keyboard_autoFocus :: bool
  in_keyboard_speed :: "real \<times> real \<times> real"

record net_options =
  op_nodes :: node_opts
  op_edges :: edge_opts
  op_physics :: bool
  op_improvedLayout :: bool
  op_hierarchical :: bool
  op_interaction :: interaction_opts
  op_manipulation :: bool
  op_configure :: bool

definition node_options :: "bool \<Rightarrow> tier \<Rightarrow> node_opts" where
  "node_options isLightTheme tr =
     (let shadowsEnabled = (tr = Low);
          hideLabelsOnZoom = (tr = Extreme \<or> tr = Maximum)
      in \<lparr> no_shape = ''dot'', no_size = 20, no_font_size = 14,
           no_font_color = (if isLightTheme then ''#2c3e50'' else ''#ffffff''),
           no_font_face = ''monospace'',
           no_borderWidth = (if tr = Maximum then 1 else 2),
           no_borderWidthSelected = 4,
           no_border = (if isLightTheme then ''#7f8c8d'' else ''#2c3e50''),
           no_background = (if isLightTheme then ''#bdc3c7'' else ''#34495e''),
           no_hl_border = (if isLightTheme then ''#2980b9'' else ''#3498db''),
           no_hl_background = (if isLightTheme then ''#3498db'' else ''#2980b9''),
           no_shadow = \<lparr> sh_enabled = shadowsEnabled,
             sh_color = (if isLightTheme then ''rgba(0,0,0,0.15)'' else ''rgba(0,0,0,0.5)''),
             sh_size = 10, sh_x = 5, sh_y = 5 \<rparr>,
           no_scaling_min = 20, no_scaling_max = 30,
           no_label_enabled = (\<not> hideLabelsOnZoom),
           no_label_min = (if hideLabelsOnZoom then 0 else 10),
           no_label_max = 16 \<rparr>)"

definition edge_options :: "bool \<Rightarrow> tier \<Rightarrow> edge_opts" where
  "edge_options isLightTheme tr =
     (let shadowsEnabled = (tr = Low); smoothEdges = (tr = Low \<or> tr = Medium)
      in \<lparr> eo_width = (if tr = Maximum then 1 else 2),
           eo_arrow_to = False, eo_arrow_from = False,
           eo_smooth = (if smoothEdges then Some (''continuous'', 1 / 2) else None),
           eo_font_size = 11,
           eo_font_color = (if isLightTheme then ''#2c3e50'' else ''#ecf0f1''),
           eo_font_strokeWidth = 3,
           eo_font_strokeColor = (if isLightTheme then ''#ffffff'' else ''#2c3e50''),
           eo_shadow = \<lparr> sh_enabled = shadowsEnabled,
             sh_color = (if isLightTheme then ''rgba(0,0,0,0.1)'' else ''rgba(0,0,0,0.3)''),
             sh_size = 5, sh_x = 3, sh_y = 3 \<rparr> \<rparr>)"

definition interaction_options :: interaction_opts where
  "interaction_options =
     \<lparr> in_hover = True, in_tooltipDelay = 100, in_zoomSpeed = 1 / 2, in_zoomView = True,
       in_navigationButtons = False, in_keyboard_enabled = True,
       in_keyboard_bindToWindow = False, in_keyboard_autoFocus = False,
       in_keyboard_speed = (10, 10, 1 / 50) \<rparr>"

definition getNetworkOptions :: "bool \<Rightarrow> nat \<Rightarrow> net_options" where
  "getNetworkOptions isLightTheme nodeCount =
     (let tr = getPerformanceTier nodeCount
      in \<lparr> op_nodes = node_options isLightTheme tr, op_edges = edge_options isLightTheme tr,
           op_physics = False, op_improvedLayout = False, op_hierarchical = False,
           op_interaction = interaction_options,
           op_manipulation = False, op_configure = False \<rparr>)"

text \<open>
  \<^verbatim>\<open>const hoverEnabled = tier !== 'maximum'\<close> is computed in the source and never read:
  \<^const>\<open>in_hover\<close> is \<open>True\<close> on every tier.
\<close>

lemma options_depend_on_tier:
  "getPerformanceTier m = getPerformanceTier n \<Longrightarrow> getNetworkOptions l m = getNetworkOptions l n"
  by (simp add: getNetworkOptions_def)

end
