(* ===== verification/World.thy ===== *)
theory World
  imports NetOptions
begin

text \<open>
  The browser around the client: the page (a map from element ids to elements), the local
  storage, the clock, and the log of what the code asked of the outside (control messages on
  the WebSocket, HTTP requests, timers, animation frames, renderer calls).  Operations take the
  state and return it updated; each component of the client extends this record with its own
  variables (\<^verbatim>\<open>let\<close> declarations at the top of \<^verbatim>\<open>static/app.js\<close>), so an
  operation on one layer is also an operation on every state built over it.

  The page is the one of \<^verbatim>\<open>static/index.html\<close>: an element the source fetches with a guard
  may be missing from the map and the guard is modelled; an element it dereferences without a
  guard is one of the page's fixed ids, and writing it when absent does nothing.  Classes of
  elements fetched by selector (\<^verbatim>\<open>.nav-link\<close>) are updates of every element that carries
  the class.
\<close>

section \<open>What the client asks of the outside\<close>

datatype jsval = JStr string | JNum real | JBool bool | JNull

type_synonym override = "(string \<times> jsval) list"

datatype ctrl =
  SetFilters "string list"                    \<comment> \<open>\<open>{hidden}\<close>\<close>
| SetAggregation int "string list" "string list" string string
    \<comment> \<open>\<open>{threshold, expanded, fullExpand, focus, zoomBand}\<close>\<close>
| SetLayout string
| SetViewMode string
| SetTimeline nat int nat                     \<comment> \<open>\<open>{captureId, t, window}\<close>\<close>
| ClearTimeline                               \<comment> \<open>\<open>{captureId: 0}\<close>\<close>

datatype request =
  GetProtocols | GetOverrides
| PostOverride string override | DeleteOverride string
| GetPackets nat nat                          \<comment> \<open>since, limit\<close>
| GetPacketDetail nat | GetRecentPacket string
| GetNode string
| GetSearch string nat | GetPayloadSearch string nat | GetReplaySearch string string nat
| GetPcaps | GetReplayInfo | GetReplay string real
| GetStreams string | GetStream string
| GetCaptures | GetTimeline nat nat

datatype timer =
  UpdateTimer | ZoomTimer | ReplayTimer | SearchTimer | FilterTimer | ReconnectTimer
| TimelineSend | TimelinePlay | FocusPoll | DetailTimer | SelectTimer | SaveTimer

datatype frame_loop = PositionFrames | FlowFrames | ChimpyFrames | ScrollFrame

record particle =
  pt_from :: string
  pt_to :: string
  pt_color :: string
  pt_speed :: real

datatype netcall =
  Redraw
| MarkSceneDirty string
| SetOptions net_options
| SetScaling real real                        \<comment> \<open>vis fallback: fixed sizing domain\<close>
| SetValueRange "(real \<times> real) option"
| Fit nat                                     \<comment> \<open>animation duration\<close>
| InvalidateOverlay
| SpawnParticles "particle list"
| SelectNodes "string list"
| FocusNode string
| MoveTo "(real \<times> real) option" real
| SetSize real real
| SetRawTopology "string list" "nat list" "nat list" "(nat \<times> nat) list" "nat list"

datatype effect =
  Send ctrl
| Ask request
| WsOpen string | WsClose
| After timer real | Cancel timer
| NextFrame frame_loop
| Net netcall
| Warn string | Alert string | Goto string

text \<open>How a \<^verbatim>\<open>fetch\<close> ends: a decoded body, an error status, or an exception.\<close>

datatype 'a reply = Body 'a | Refused nat | Broken

section \<open>Elements\<close>

datatype content = Txt string | Html string

record elem =
  e_content :: content
  e_classes :: "string set"
  e_style :: "string \<Rightarrow> string"
  e_value :: string
  e_num :: "string \<Rightarrow> real"      \<comment> \<open>layout numbers: scrollTop, clientHeight, offsetWidth, \<dots>\<close>
  e_options :: "string list"    \<comment> \<open>values of a select's options\<close>
  e_data :: "string \<Rightarrow> string"   \<comment> \<open>\<open>data-\<close> attributes\<close>

definition fresh_elem :: elem where
  "fresh_elem = \<lparr> e_content = Html [], e_classes = {}, e_style = (\<lambda>_. []), e_value = [],
     e_num = (\<lambda>_. 0), e_options = [], e_data = (\<lambda>_. []) \<rparr>"

definition html_of :: "elem \<Rightarrow> string" where
  "html_of e = (case e_content e of Txt t \<Rightarrow> t | Html h \<Rightarrow> h)"

definition el_text :: "string \<Rightarrow> elem \<Rightarrow> elem" where
  "el_text t e = e\<lparr>e_content := Txt t\<rparr>"

definition el_html :: "string \<Rightarrow> elem \<Rightarrow> elem" where
  "el_html h e = e\<lparr>e_content := Html h\<rparr>"

definition el_append :: "string \<Rightarrow> elem \<Rightarrow> elem" where
  "el_append h e = e\<lparr>e_content := Html (html_of e @ h)\<rparr>"

definition el_style :: "string \<Rightarrow> string \<Rightarrow> elem \<Rightarrow> elem" where
  "el_style k v e = e\<lparr>e_style := (e_style e)(k := v)\<rparr>"

definition el_num :: "string \<Rightarrow> real \<Rightarrow> elem \<Rightarrow> elem" where
  "el_num k v e = e\<lparr>e_num := (e_num e)(k := v)\<rparr>"

definition el_value :: "string \<Rightarrow> elem \<Rightarrow> elem" where
  "el_value v e = e\<lparr>e_value := v\<rparr>"

definition add_class :: "string \<Rightarrow> elem \<Rightarrow> elem" where
  "add_class c e = e\<lparr>e_classes := insert c (e_classes e)\<rparr>"

definition remove_class :: "string \<Rightarrow> elem \<Rightarrow> elem" where
  "remove_class c e = e\<lparr>e_classes := e_classes e - {c}\<rparr>"

definition toggle_class :: "string \<Rightarrow> elem \<Rightarrow> elem" where
  "toggle_class c e = (if c \<in> e_classes e then remove_class c e else add_class c e)"

definition force_class :: "string \<Rightarrow> bool \<Rightarrow> elem \<Rightarrow> elem" where
  "force_class c on e = (if on then add_class c e else remove_class c e)"

section \<open>The state of the page\<close>

record world =
  dom :: "string \<Rightarrow> elem option"
  body_light :: bool                       \<comment> \<open>\<^verbatim>\<open>document.body\<close> has class \<^verbatim>\<open>light-theme\<close>\<close>
  storage :: "string \<Rightarrow> string option"     \<comment> \<open>\<^verbatim>\<open>localStorage\<close>\<close>
  now :: real                              \<comment> \<open>\<^verbatim>\<open>Date.now()\<close>, in milliseconds\<close>
  log :: "effect list"                     \<comment> \<open>oldest first\<close>

definition emit :: "effect \<Rightarrow> 'a world_scheme \<Rightarrow> 'a world_scheme" where
  "emit ev s = s\<lparr>log := log s @ [ev]\<rparr>"

definition upd_el :: "string \<Rightarrow> (elem \<Rightarrow> elem) \<Rightarrow> 'a world_scheme \<Rightarrow> 'a world_scheme" where
  "upd_el k f s =
     s\<lparr>dom := (dom s)(k := map_option f (dom s k))\<rparr>"

text \<open>\<^verbatim>\<open>createElement\<close> with an id, and \<^verbatim>\<open>remove()\<close>.\<close>

definition create_el :: "string \<Rightarrow> elem \<Rightarrow> 'a world_scheme \<Rightarrow> 'a world_scheme" where
  "create_el k e s = s\<lparr>dom := (dom s)(k \<mapsto> e)\<rparr>"

definition remove_el :: "string \<Rightarrow> 'a world_scheme \<Rightarrow> 'a world_scheme" where
  "remove_el k s = s\<lparr>dom := (dom s)(k := None)\<rparr>"

text \<open>\<^verbatim>\<open>document.querySelectorAll('.c').forEach(...)\<close>\<close>

definition for_class ::
    "string \<Rightarrow> (string \<Rightarrow> elem \<Rightarrow> elem) \<Rightarrow> 'a world_scheme \<Rightarrow> 'a world_scheme" where
  "for_class c f s =
     s\<lparr>dom := (\<lambda>k. map_option (\<lambda>e. if c \<in> e_classes e then f k e else e) (dom s k))\<rparr>"

definition has_el :: "string \<Rightarrow> 'a world_scheme \<Rightarrow> bool" where
  "has_el k s = (dom s k \<noteq> None)"

definition has_class :: "string \<Rightarrow> string \<Rightarrow> 'a world_scheme \<Rightarrow> bool" where
  "has_class k c s = (case dom s k of None \<Rightarrow> False | Some e \<Rightarrow> c \<in> e_classes e)"

definition style_of :: "string \<Rightarrow> string \<Rightarrow> 'a world_scheme \<Rightarrow> string" where
  "style_of k p s = (case dom s k of None \<Rightarrow> [] | Some e \<Rightarrow> e_style e p)"

definition value_of :: "string \<Rightarrow> 'a world_scheme \<Rightarrow> string" where
  "value_of k s = (case dom s k of None \<Rightarrow> [] | Some e \<Rightarrow> e_value e)"

definition num_of :: "string \<Rightarrow> string \<Rightarrow> 'a world_scheme \<Rightarrow> real" where
  "num_of k p s = (case dom s k of None \<Rightarrow> 0 | Some e \<Rightarrow> e_num e p)"

definition text_of :: "string \<Rightarrow> 'a world_scheme \<Rightarrow> string" where
  "text_of k s = (case dom s k of None \<Rightarrow> [] | Some e \<Rightarrow> html_of e)"

definition storage_get :: "string \<Rightarrow> string \<Rightarrow> 'a world_scheme \<Rightarrow> string" where
  "storage_get k dflt s = (case storage s k of None \<Rightarrow> dflt | Some v \<Rightarrow> or_else v dflt)"

definition storage_set :: "string \<Rightarrow> string \<Rightarrow> 'a world_scheme \<Rightarrow> 'a world_scheme" where
  "storage_set k v s = s\<lparr>storage := (storage s)(k \<mapsto> v)\<rparr>"

text \<open>The control messages the server received, oldest first.\<close>

definition sent :: "'a world_scheme \<Rightarrow> ctrl list" where
  "sent s = List.map_filter (\<lambda>ev. case ev of Send c \<Rightarrow> Some c | _ \<Rightarrow> None) (log s)"

definition net_calls :: "'a world_scheme \<Rightarrow> netcall list" where
  "net_calls s = List.map_filter (\<lambda>ev. case ev of Net c \<Rightarrow> Some c | _ \<Rightarrow> None) (log s)"

lemmas elem_defs = el_text_def el_html_def el_append_def el_style_def el_num_def el_value_def
  add_class_def remove_class_def toggle_class_def force_class_def

lemmas page_defs = emit_def upd_el_def create_el_def remove_el_def for_class_def storage_set_def

lemma emit_world [world_simps]:
  "dom (emit ev s) = dom s" "body_light (emit ev s) = body_light s"
  "storage (emit ev s) = storage s" "now (emit ev s) = now s" "log (emit ev s) = log s @ [ev]"
  "more (emit ev s) = more s"
  by (simp_all add: emit_def)

lemma upd_el_world [world_simps]:
  "dom (upd_el k f s) = (dom s)(k := map_option f (dom s k))"
  "body_light (upd_el k f s) = body_light s" "storage (upd_el k f s) = storage s"
  "now (upd_el k f s) = now s" "log (upd_el k f s) = log s" "more (upd_el k f s) = more s"
  by (simp_all add: upd_el_def)

lemma for_class_world [world_simps]:
  "dom (for_class c f s) =
     (\<lambda>k. map_option (\<lambda>e. if c \<in> e_classes e then f k e else e) (dom s k))"
  "body_light (for_class c f s) = body_light s" "storage (for_class c f s) = storage s"
  "now (for_class c f s) = now s" "log (for_class c f s) = log s"
  "more (for_class c f s) = more s"
  by (simp_all add: for_class_def)

lemma create_el_world [world_simps]:
  "dom (create_el k e s) = (dom s)(k \<mapsto> e)"
  "body_light (create_el k e s) = body_light s" "storage (create_el k e s) = storage s"
  "now (create_el k e s) = now s" "log (create_el k e s) = log s" "more (create_el k e s) = more s"
  by (simp_all add: create_el_def)

lemma remove_el_world [world_simps]:
  "dom (remove_el k s) = (dom s)(k := None)"
  "body_light (remove_el k s) = body_light s" "storage (remove_el k s) = storage s"
  "now (remove_el k s) = now s" "log (remove_el k s) = log s" "more (remove_el k s) = more s"
  by (simp_all add: remove_el_def)

lemma storage_set_world [world_simps]:
  "dom (storage_set k v s) = dom s" "body_light (storage_set k v s) = body_light s"
  "storage (storage_set k v s) = (storage s)(k \<mapsto> v)" "now (storage_set k v s) = now s"
  "log (storage_set k v s) = log s" "more (storage_set k v s) = more s"
  by (simp_all add: storage_set_def)

lemma sent_emit [simp]:
  "sent (emit ev s) = sent s @ (case ev of Send c \<Rightarrow> [c] | _ \<Rightarrow> [])"
  by (simp add: sent_def emit_def map_filter_def split: effect.splits)

lemma sent_upd_el [simp]: "sent (upd_el k f s) = sent s"
  by (simp add: sent_def world_simps)

lemma sent_create_el [simp]: "sent (create_el k e s) = sent s"
  by (simp add: sent_def world_simps)

lemma sent_remove_el [simp]: "sent (remove_el k s) = sent s"
  by (simp add: sent_def world_simps)

lemma sent_for_class [simp]: "sent (for_class c f s) = sent s"
  by (simp add: sent_def world_simps)

lemma has_class_upd_el_other: "k \<noteq> k' \<Longrightarrow> has_class k c (upd_el k' f s) = has_class k c s"
  by (simp add: has_class_def world_simps)

lemma style_of_upd_el_other: "k \<noteq> k' \<Longrightarrow> style_of k p (upd_el k' f s) = style_of k p s"
  by (simp add: style_of_def world_simps)

lemma style_of_el_style [simp]:
  "has_el k s \<Longrightarrow> style_of k p (upd_el k (el_style p v) s) = v"
  by (auto simp: style_of_def has_el_def world_simps el_style_def)

end
