(* ===== verification/GraphData.thy ===== *)
theory GraphData
  imports Format World
begin

text \<open>
  The styled nodes and edges the server sends (\<^verbatim>\<open>ViewNode\<close>, \<^verbatim>\<open>ViewEdge\<close>), the items the
  client stores in the two \<^verbatim>\<open>vis.DataSet\<close>s, and the pure functions that turn one into the
  other: labels, shapes, colours, tooltips and render signatures (\<^verbatim>\<open>static/app.js\<close>).  An
  absent optional string is empty and an absent optional number is 0, which is how the source
  tests them; a position counts when both coordinates are numbers.
\<close>

section \<open>Symbols of the user interface\<close>

definition utf8 :: "nat list \<Rightarrow> string" where
  "utf8 bs = map char_of bs"

definition arrow_right :: string where "arrow_right = utf8 [226, 134, 146]"
definition arrow_left :: string where "arrow_left = utf8 [226, 134, 144]"
definition arrow_both :: string where "arrow_both = utf8 [226, 134, 148]"
definition mid_dot :: string where "mid_dot = utf8 [194, 183]"
definition em_dash :: string where "em_dash = utf8 [226, 128, 148]"
definition dots3 :: string where "dots3 = utf8 [226, 139, 175]"
definition box_sym :: string where "box_sym = utf8 [226, 172, 154]"
definition group_sym :: string where "group_sym = utf8 [226, 154, 178]"
definition ellipsis :: string where "ellipsis = utf8 [226, 128, 166]"

section \<open>Data\<close>

datatype vis_color =
  ColorName string
| ColorObj "(string \<times> string) list" "(string \<times> string) list"
    \<comment> \<open>the colour's own keys, then those of its \<^verbatim>\<open>highlight\<close>, in source order\<close>

record detail_edge =
  de_peer :: string
  de_outbound :: bool
  de_protocol :: string
  de_packetCount :: nat
  de_color :: string

record vnode =
  v_id :: string
  v_label :: string
  v_pos :: "(real \<times> real) option"
  v_pinned :: bool
  v_isGroup :: bool
  v_isSubnet :: bool
  v_isTail :: bool
  v_hostCount :: nat
  v_role :: string
  v_value :: real
  v_colorTier :: nat
  v_color :: string
  v_packetCount :: nat
  v_byteCount :: nat
  v_ips :: "string list option"
  v_deviceInfo :: string
  \<comment> \<open>filled in by \<^verbatim>\<open>fetchNodeDetail\<close>\<close>
  v_detailLoaded :: bool
  v_macs :: "string list option"
  v_primaryMac :: string
  v_vendor :: string
  v_deviceClass :: string
  v_peers :: nat
  v_detailEdges :: "detail_edge list option"
  v_tooltip :: string

record vedge =
  w_id :: string
  w_from :: string
  w_to :: string
  w_protocol :: "(string \<times> string) option"   \<comment> \<open>\<open>{Name, Color}\<close>\<close>
  w_packetCount :: nat
  w_byteCount :: nat
  w_forwardPackets :: nat
  w_reversePackets :: nat
  w_forwardBytes :: nat
  w_reverseBytes :: nat
  w_width :: "real option"

text \<open>The items of the DataSets: what \<^verbatim>\<open>nodes.update\<close> and \<^verbatim>\<open>edges.update\<close> receive.\<close>

record node_item =
  i_id :: string
  i_label :: string
  i_ips :: "string list"
  i_hostname :: string
  i_isGroup :: bool
  i_isSubnet :: bool
  i_isTail :: bool
  i_hostCount :: nat
  i_role :: string
  i_packetCount :: nat
  i_byteCount :: nat
  i_value :: real
  i_colorTier :: nat
  i_shape :: string
  i_color :: vis_color
  i_dashes :: bool
  i_font :: string
  i_pos :: "(real \<times> real) option"

record edge_item =
  j_id :: string
  j_from :: string
  j_to :: string
  j_label :: string
  j_color :: string
  j_width :: real
  j_protocol :: "string \<times> string"
  j_packetCount :: nat
  j_byteCount :: nat

section \<open>Protocol palette\<close>

text \<open>The built-in tables; \<^verbatim>\<open>loadProtocolCatalog\<close> replaces them (theory Catalog).\<close>

definition default_colors :: "(string \<times> string) list" where
  "default_colors =
    [(''TCP'', ''#3498db''), (''UDP'', ''#2ecc71''), (''ICMP'', ''#f39c12''),
     (''HTTP'', ''#e67e22''), (''HTTPS'', ''#9b59b6''), (''DNS'', ''#1abc9c''),
     (''SSH'', ''#e74c3c''), (''FTP'', ''#ff6b9d''), (''SMTP'', ''#8b4513''),
     (''MySQL'', ''#34495e''), (''PostgreSQL'', ''#16a085''), (''InfluxDB'', ''#22ADF6''),
     (''Slurm'', ''#ff7f50''), (''ARP'', ''#95a5a6''), (''IPv6'', ''#7f8c8d''),
     (''VLAN'', ''#d35400''), (''LLDP'', ''#27ae60''), (''CDP'', ''#2980b9''),
     (''STP'', ''#8e44ad''), (''NDP'', ''#1f8a70''), (''IGMP'', ''#c0392b''),
     (''OSPF'', ''#f1c40f''), (''mDNS'', ''#e84393''), (''SSDP'', ''#00cec9''),
     (''LLMNR'', ''#6c5ce7''), (''NetBIOS'', ''#fdcb6e''), (''DHCP'', ''#0984e3''),
     (''WS-Discovery'', ''#a29bfe''), (''WireGuard'', ''#b5179e''), (''OpenVPN'', ''#f48c06''),
     (''VXLAN'', ''#326ce5''), (''Geneve'', ''#5b8def''), (''K8s-API'', ''#1f6feb''),
     (''etcd'', ''#419eda''), (''Kubelet'', ''#6cb6ff''), (''Other'', ''#ecf0f1'')]"

section \<open>Node colours\<close>

definition color_obj :: "string \<Rightarrow> string \<Rightarrow> string \<Rightarrow> string \<Rightarrow> vis_color" where
  "color_obj bg border hlbg hlborder =
     ColorObj [(''background'', bg), (''border'', border)]
              [(''background'', hlbg), (''border'', hlborder)]"

definition GROUP_NODE_COLOR :: vis_color where
  "GROUP_NODE_COLOR =
     ColorObj [(''border'', ''#7f8c8d''), (''background'', ''rgba(127, 140, 141, 0.20)'')]
              [(''border'', ''#95a5a6''), (''background'', ''rgba(149, 165, 166, 0.35)'')]"

definition SUBNET_NODE_COLOR :: vis_color where
  "SUBNET_NODE_COLOR =
     ColorObj [(''border'', ''#1d4ed8''), (''background'', ''rgba(59, 130, 246, 0.35)'')]
              [(''border'', ''#3b82f6''), (''background'', ''rgba(59, 130, 246, 0.55)'')]"

definition SUBNET_TAIL_COLOR :: vis_color where
  "SUBNET_TAIL_COLOR =
     ColorObj [(''border'', ''#c2410c''), (''background'', ''rgba(251, 146, 60, 0.40)'')]
              [(''border'', ''#ea580c''), (''background'', ''rgba(251, 146, 60, 0.60)'')]"

definition tierColor :: "nat \<Rightarrow> bool \<Rightarrow> vis_color" where
  "tierColor t isLightTheme =
     (let pick = (\<lambda>l d. if isLightTheme then l else d)
      in if t = 1 then
           color_obj (pick ''#f1c40f'' ''#f39c12'') (pick ''#f39c12'' ''#e67e22'')
             (pick ''#f39c12'' ''#f1c40f'') (pick ''#e67e22'' ''#f39c12'')
         else if t = 2 then
           color_obj (pick ''#e67e22'' ''#d35400'') (pick ''#d35400'' ''#ca6f1e'')
             (pick ''#d35400'' ''#e67e22'') (pick ''#ca6f1e'' ''#dc7633'')
         else if t = 3 then
           color_obj (pick ''#e74c3c'' ''#c0392b'') (pick ''#c0392b'' ''#a93226'')
             (pick ''#c0392b'' ''#e74c3c'') (pick ''#a93226'' ''#cb4335'')
         else
           color_obj (pick ''#95a5a6'' ''#7f8c8d'') (pick ''#7f8c8d'' ''#5d6d7e'')
             (pick ''#7f8c8d'' ''#95a5a6'') (pick ''#5d6d7e'' ''#b2bec3''))"

definition ROLE_NAME :: "(string \<times> string) list" where
  "ROLE_NAME =
     [(''server'', ''Server''), (''client'', ''Client''), (''router'', ''Router''),
      (''switch'', ''Switch''), (''gateway'', ''Gateway''), (''iot'', ''IoT''),
      (''multicast'', ''Multicast/Broadcast''), (''unknown'', ''Unknown'')]"

definition ROLE_COLOR :: "(string \<times> string) list" where
  "ROLE_COLOR =
     [(''server'', ''#3498db''), (''client'', ''#2ecc71''), (''router'', ''#9b59b6''),
      (''switch'', ''#0e7490''), (''gateway'', ''#e74c3c''), (''iot'', ''#e67e22''),
      (''multicast'', ''#95a5a6''), (''unknown'', ''#7f8c8d'')]"

text \<open>\<^verbatim>\<open>table[key] || fallback\<close>\<close>

definition lookup_or :: "(string \<times> string) list \<Rightarrow> string \<Rightarrow> string \<Rightarrow> string" where
  "lookup_or tbl k fb = (case map_of tbl k of None \<Rightarrow> fb | Some v \<Rightarrow> or_else v fb)"

definition roleColor :: "string \<Rightarrow> vis_color" where
  "roleColor role =
     (let hex = lookup_or ROLE_COLOR role ''#7f8c8d'' in color_obj hex hex hex hex)"

definition viewNodeColor :: "string \<Rightarrow> vnode \<Rightarrow> bool \<Rightarrow> vis_color" where
  "viewNodeColor nodeColorMode node isLightTheme =
     (if v_color node \<noteq> [] then ColorName (v_color node)
      else if v_isTail node then SUBNET_TAIL_COLOR
      else if v_isSubnet node then SUBNET_NODE_COLOR
      else if v_isGroup node then GROUP_NODE_COLOR
      else if nodeColorMode = ''role'' then roleColor (v_role node)
      else tierColor (v_colorTier node) isLightTheme)"

section \<open>Shapes and labels\<close>

definition viewNodeShape :: "vnode \<Rightarrow> string" where
  "viewNodeShape node =
     (if v_isGroup node \<and> \<not> v_isSubnet node \<and> \<not> v_isTail node then ''box'' else ''dot'')"

definition count_or_mark :: "nat \<Rightarrow> string" where
  "count_or_mark n = (if n = 0 then ''?'' else show_nat n)"

definition formatNodeLabel :: "vnode \<Rightarrow> string" where
  "formatNodeLabel node =
     (if v_isTail node then or_else (v_label node) (''+'' @ count_or_mark (v_hostCount node) @ '' more'')
      else if v_isSubnet node then v_label node @ '' ('' @ show_nat (v_hostCount node) @ '')''
      else if v_label node \<noteq> v_id node then v_label node else v_id node)"

definition formatEdgeLabel :: "vedge \<Rightarrow> string" where
  "formatEdgeLabel edge = (case w_protocol edge of Some (name, _) \<Rightarrow> name | None \<Rightarrow> [])"

section \<open>Tooltips\<close>

definition line :: "string \<Rightarrow> string \<Rightarrow> string" where
  "line key val = key @ '': '' @ val @ newline"

definition packets_bytes :: "vnode \<Rightarrow> string" where
  "packets_bytes node =
     ''Packets: '' @ show_nat (v_packetCount node) @ newline @ ''Bytes: '' @ formatBytes (v_byteCount node)"

text \<open>\<^verbatim>\<open>s.replace(/^\+\d+ more in /, '')\<close>\<close>

definition strip_more_in :: "string \<Rightarrow> string" where
  "strip_more_in s =
     (case s of [] \<Rightarrow> s
      | c # cs \<Rightarrow>
          let r = dropWhile is_digit cs
          in if c = CHR ''+'' \<and> r \<noteq> cs \<and> prefix '' more in '' r then drop 9 r else s)"

definition ip_lines :: "vnode \<Rightarrow> string" where
  "ip_lines node =
     (case v_ips node of
        Some [ip] \<Rightarrow> line ''IP'' ip
      | Some (ip # ip2 # rest) \<Rightarrow>
          ''IPs:'' @ newline @ concat (map (\<lambda>x. ''  '' @ x @ newline) (ip # ip2 # rest))
      | _ \<Rightarrow> if looksLikeIP (v_id node) then line ''IP'' (v_id node) else [])"

definition formatNodeTooltip :: "vnode \<Rightarrow> string" where
  "formatNodeTooltip node =
     (if v_tooltip node \<noteq> [] then v_tooltip node
      else if v_isTail node then
        dots3 @ '' +'' @ count_or_mark (v_hostCount node) @ '' quieter hosts in this subnet'' @ newline
        @ line ''CIDR'' (strip_more_in (or_else (v_label node) (v_id node)))
        @ packets_bytes node @ newline @ ''Click '' @ arrow_right @ '' Expand all hosts''
      else if v_isSubnet node then
        box_sym @ '' Collapsed subnet '' @ em_dash @ '' '' @ show_nat (v_hostCount node) @ '' hosts'' @ newline
        @ line ''CIDR'' (v_label node)
        @ packets_bytes node @ newline @ ''Click for details / expand''
      else
        (if v_isGroup node
         then group_sym @ '' Multicast/broadcast group (not a host)'' @ newline else [])
        @ (if v_role node \<noteq> [] \<and> v_role node \<noteq> ''unknown'' \<and> \<not> v_isGroup node
           then line ''Role'' (lookup_or ROLE_NAME (v_role node) (v_role node)) else [])
        @ (if v_deviceInfo node \<noteq> [] then line ''Link'' (v_deviceInfo node) else [])
        @ (if v_vendor node \<noteq> [] then
             line ''Device''
               (v_vendor node @ (if v_deviceClass node \<noteq> []
                                 then '' '' @ mid_dot @ '' '' @ v_deviceClass node else []))
           else if v_deviceClass node \<noteq> [] then line ''Device'' (v_deviceClass node) else [])
        @ (if v_label node \<noteq> [] \<and> v_label node \<noteq> v_id node
           then line ''Hostname'' (v_label node) else [])
        @ ip_lines node
        @ packets_bytes node)"

definition formatEdgeTooltip :: "vedge \<Rightarrow> string" where
  "formatEdgeTooltip edge =
     w_from edge @ '' '' @ arrow_both @ '' '' @ w_to edge @ newline
     @ line ''Protocol'' (formatEdgeLabel edge)
     @ ''Total: '' @ show_nat (w_packetCount edge) @ '' pkts, '' @ formatBytes (w_byteCount edge) @ newline
     @ arrow_right @ '' '' @ show_nat (w_forwardPackets edge) @ '' pkts (''
     @ formatBytes (w_forwardBytes edge) @ '')'' @ newline
     @ arrow_left @ '' '' @ show_nat (w_reversePackets edge) @ '' pkts (''
     @ formatBytes (w_reverseBytes edge) @ '')''"

section \<open>Render signatures\<close>

definition show_bit :: "bool \<Rightarrow> string" where
  "show_bit b = (if b then ''1'' else ''0'')"

definition quoted :: "string \<Rightarrow> string" where
  "quoted s = CHR 0x22 # s @ [CHR 0x22]"

text \<open>\<^verbatim>\<open>JSON.stringify(color)\<close> (a colour holds no character that JSON escapes).\<close>

definition json_fields :: "(string \<times> string) list \<Rightarrow> string list" where
  "json_fields fs = map (\<lambda>(k, v). quoted k @ '':'' @ quoted v) fs"

definition json_color :: "vis_color \<Rightarrow> string" where
  "json_color c =
     (case c of
        ColorName s \<Rightarrow> quoted s
      | ColorObj fs hl \<Rightarrow>
          ''{'' @ join '','' (json_fields fs @
            [quoted ''highlight'' @ '':{'' @ join '','' (json_fields hl) @ ''}'']) @ ''}'')"

text \<open>\<^verbatim>\<open>color && color.background\<close> joined to a string: a colour name has no such key.\<close>

definition background_text :: "vis_color \<Rightarrow> string" where
  "background_text c =
     (case c of
        ColorName s \<Rightarrow> ''undefined''
      | ColorObj fs hl \<Rightarrow> (case map_of fs ''background'' of Some v \<Rightarrow> v | None \<Rightarrow> ''undefined''))"

definition valueQ :: "bool \<Rightarrow> real \<Rightarrow> int" where
  "valueQ isCosmos v = round (ln (v + 1) * (if isCosmos then 4 else 20))"

definition node_sig :: "bool \<Rightarrow> string \<Rightarrow> bool \<Rightarrow> vnode \<Rightarrow> string" where
  "node_sig isCosmos mode isLight node =
     (let label = formatNodeLabel node; shape = viewNodeShape node;
          color = viewNodeColor mode node isLight
      in if isCosmos then
           join ''~'' [label, shape, show_bit (v_isGroup node), show_bit (v_isSubnet node),
             show_bit (v_isTail node), v_role node, background_text color]
         else
           join ''~'' [label, shape, show_int (valueQ isCosmos (v_value node)),
             show_bit (v_isGroup node), show_bit (v_isSubnet node), show_bit (v_isTail node),
             show_nat (v_hostCount node), v_role node, json_color color])"

text \<open>
  \<^verbatim>\<open>(edge.protocol && edge.protocol.Name) || 'Other'\<close> and the colour that goes with it.
\<close>

definition edge_protoName :: "vedge \<Rightarrow> string" where
  "edge_protoName edge = (case w_protocol edge of Some (n, _) \<Rightarrow> or_else n ''Other'' | None \<Rightarrow> ''Other'')"

definition edge_protoColor :: "(string \<times> string) list \<Rightarrow> vedge \<Rightarrow> string" where
  "edge_protoColor palette edge =
     (let own = (case w_protocol edge of Some (_, c) \<Rightarrow> c | None \<Rightarrow> [])
      in or_else own (lookup_or palette (edge_protoName edge) ''#95a5a6''))"

definition quarter :: "real \<Rightarrow> int" where
  "quarter v = round (v * 4)"

definition edge_width4 :: "vedge \<Rightarrow> int" where
  "edge_width4 edge =
     (case w_width edge of
        Some w \<Rightarrow> quarter w
      | None \<Rightarrow> quarter (ln (real (w_packetCount edge) + 1) * (1 / 2) + 1))"

text \<open>A width in quarter pixels, printed as the quotient it stands for.\<close>

definition show_quarter :: "int \<Rightarrow> string" where
  "show_quarter q =
     (let sign = (if q < 0 then ''-'' else []); n = nat \<bar>q\<bar>
      in sign @ show_nat (n div 4) @
         (if n mod 4 = 0 then [] else if n mod 4 = 1 then ''.25''
          else if n mod 4 = 2 then ''.5'' else ''.75''))"

definition edge_sig :: "bool \<Rightarrow> (string \<times> string) list \<Rightarrow> bool \<Rightarrow> vedge \<Rightarrow> string" where
  "edge_sig isCosmos palette labelsVisible edge =
     (let protoName = edge_protoName edge; protoColor = edge_protoColor palette edge;
          label = (if labelsVisible then protoName else [])
      in if isCosmos then join ''~'' [w_from edge, w_to edge, protoColor, protoName]
         else join ''~'' [w_from edge, w_to edge, protoColor, show_quarter (edge_width4 edge), label])"

section \<open>Items built from the stream\<close>

definition build_node_item ::
    "string \<Rightarrow> bool \<Rightarrow> (real \<times> real) option \<Rightarrow> vnode \<Rightarrow> node_item" where
  "build_node_item mode isLight pos node =
     \<lparr> i_id = v_id node, i_label = formatNodeLabel node,
       i_ips = (case v_ips node of Some xs \<Rightarrow> xs
                | None \<Rightarrow> if looksLikeIP (v_id node) then [v_id node] else []),
       i_hostname = v_label node, i_isGroup = v_isGroup node, i_isSubnet = v_isSubnet node,
       i_isTail = v_isTail node, i_hostCount = v_hostCount node, i_role = v_role node,
       i_packetCount = v_packetCount node, i_byteCount = v_byteCount node,
       i_value = v_value node, i_colorTier = v_colorTier node,
       i_shape = viewNodeShape node, i_color = viewNodeColor mode node isLight,
       i_dashes = v_isGroup node,
       i_font = (if v_isGroup node then ''#95a5a6'' else []),
       i_pos = pos \<rparr>"

definition build_edge_item :: "(string \<times> string) list \<Rightarrow> bool \<Rightarrow> vedge \<Rightarrow> edge_item" where
  "build_edge_item palette labelsVisible edge =
     (let protoName = edge_protoName edge; protoColor = edge_protoColor palette edge
      in \<lparr> j_id = w_id edge, j_from = w_from edge, j_to = w_to edge,
           j_label = (if labelsVisible then protoName else []),
           j_color = protoColor, j_width = of_int (edge_width4 edge) / 4,
           j_protocol = (case w_protocol edge of Some p \<Rightarrow> p | None \<Rightarrow> (protoName, protoColor)),
           j_packetCount = w_packetCount edge, j_byteCount = w_byteCount edge \<rparr>)"

section \<open>Signatures determine what is drawn\<close>

definition tilde_free :: "string \<Rightarrow> bool" where
  "tilde_free s \<longleftrightarrow> CHR ''~'' \<notin> set s"

lemma tilde_free_show_nat [simp]: "tilde_free (show_nat n)"
  using show_nat_digits [of n] by (auto simp: tilde_free_def is_digit_def)

lemma tilde_free_simps [simp]:
  "tilde_free []" "tilde_free (a @ b) \<longleftrightarrow> tilde_free a \<and> tilde_free b"
  "tilde_free (c # s) \<longleftrightarrow> c \<noteq> CHR ''~'' \<and> tilde_free s"
  by (auto simp: tilde_free_def)

lemma tilde_free_show_int [simp]: "tilde_free (show_int i)"
  by (simp add: show_int_def)

lemma tilde_free_show_bit [simp]: "tilde_free (show_bit b)"
  by (simp add: show_bit_def)

lemma show_bit_inj [simp]: "show_bit a = show_bit b \<longleftrightarrow> a = b"
  by (simp add: show_bit_def)

lemma tilde_free_shape [simp]: "tilde_free (viewNodeShape n)"
  by (simp add: viewNodeShape_def)

lemma tilde_free_join: "tilde_free sep \<Longrightarrow> \<forall>x \<in> set xs. tilde_free x \<Longrightarrow> tilde_free (join sep xs)"
  by (induction sep xs rule: join.induct) auto

definition clean_node :: "vnode \<Rightarrow> bool" where
  "clean_node n \<longleftrightarrow> tilde_free (v_id n) \<and> tilde_free (v_label n) \<and> tilde_free (v_role n) \<and> tilde_free (v_color n)"

lemma tilde_free_label: "clean_node n \<Longrightarrow> tilde_free (formatNodeLabel n)"
  by (auto simp: clean_node_def formatNodeLabel_def or_else_def count_or_mark_def)

lemma tilde_free_json_fields:
  "\<forall>(k, v) \<in> set fs. tilde_free k \<and> tilde_free v \<Longrightarrow> \<forall>x \<in> set (json_fields fs). tilde_free x"
  by (auto simp: json_fields_def quoted_def)

definition color_clean :: "vis_color \<Rightarrow> bool" where
  "color_clean c =
     (case c of ColorName s \<Rightarrow> tilde_free s
      | ColorObj fs hl \<Rightarrow> list_all (\<lambda>(k, v). tilde_free k \<and> tilde_free v) (fs @ hl))"

lemma tilde_free_json_color: "color_clean c \<Longrightarrow> tilde_free (json_color c)"
  by (fastforce simp: json_color_def color_clean_def quoted_def list_all_iff json_fields_def ball_Un
      split: vis_color.splits intro!: tilde_free_join)

lemma color_clean_view: "clean_node n \<Longrightarrow> color_clean (viewNodeColor mode n l)"
  by (auto simp: viewNodeColor_def clean_node_def color_clean_def SUBNET_TAIL_COLOR_def
      SUBNET_NODE_COLOR_def GROUP_NODE_COLOR_def roleColor_def tierColor_def color_obj_def Let_def
      lookup_or_def or_else_def ROLE_COLOR_def)

lemma node_sig_fields:
  assumes "clean_node a" and "clean_node b" and "node_sig False mode l a = node_sig False mode l b"
  shows "formatNodeLabel a = formatNodeLabel b \<and> viewNodeShape a = viewNodeShape b
    \<and> v_isGroup a = v_isGroup b \<and> v_isSubnet a = v_isSubnet b \<and> v_isTail a = v_isTail b
    \<and> v_hostCount a = v_hostCount b \<and> v_role a = v_role b
    \<and> json_color (viewNodeColor mode a l) = json_color (viewNodeColor mode b l)"
proof -
  let ?fs = "\<lambda>n. [formatNodeLabel n, viewNodeShape n, show_int (valueQ False (v_value n)),
    show_bit (v_isGroup n), show_bit (v_isSubnet n), show_bit (v_isTail n),
    show_nat (v_hostCount n), v_role n, json_color (viewNodeColor mode n l)]"
  have clean: "\<forall>x \<in> set (?fs n). CHR ''~'' \<notin> set x" if "clean_node n" for n
    using that tilde_free_label [OF that] tilde_free_json_color [OF color_clean_view [OF that]]
      tilde_free_shape tilde_free_show_int tilde_free_show_nat tilde_free_show_bit
    by (auto simp: clean_node_def simp flip: tilde_free_def)
  have "?fs a = ?fs b"
    using assms clean [OF assms(1)] clean [OF assms(2)]
    by (intro join_inj [where c = "CHR ''~''"]) (simp_all add: node_sig_def Let_def)
  then show ?thesis by simp
qed

end
