(* ===== verification/Html.thy ===== *)
theory Html
  imports GraphData
begin

text \<open>
  The markup the client writes with \<^verbatim>\<open>innerHTML\<close>, as strings.  The template literals of the
  source are written with the combinators below; the line breaks and the indentation between their
  tags, which the browser does not display, are left out.
\<close>

definition attr :: "string \<times> string \<Rightarrow> string" where
  "attr kv = '' '' @ fst kv @ ''='' @ quoted (snd kv)"

definition open_tag :: "string \<Rightarrow> (string \<times> string) list \<Rightarrow> string" where
  "open_tag name attrs = ''<'' @ name @ concat (map attr attrs) @ ''>''"

definition tag :: "string \<Rightarrow> (string \<times> string) list \<Rightarrow> string \<Rightarrow> string" where
  "tag name attrs body = open_tag name attrs @ body @ ''</'' @ name @ ''>''"

definition div_c :: "string \<Rightarrow> string \<Rightarrow> string" where
  "div_c cls body = tag ''div'' [(''class'', cls)] body"

definition span_c :: "string \<Rightarrow> string \<Rightarrow> string" where
  "span_c cls body = tag ''span'' [(''class'', cls)] body"

definition span :: "string \<Rightarrow> string" where
  "span body = tag ''span'' [] body"

text \<open>\<^verbatim>\<open>f('a')\<close> in an \<^verbatim>\<open>onclick\<close> attribute.\<close>

definition quote1 :: "string \<Rightarrow> string" where
  "quote1 s = CHR 0x27 # s @ [CHR 0x27]"

definition call1 :: "string \<Rightarrow> string \<Rightarrow> string" where
  "call1 f arg = f @ ''('' @ quote1 arg @ '')''"

text \<open>\<^verbatim>\<open>cond ? 'a' : ''\<close>\<close>

definition only_if :: "bool \<Rightarrow> string \<Rightarrow> string" where
  "only_if b s = (if b then s else [])"

definition px :: "real \<Rightarrow> string" where
  "px v = show_int \<lfloor>v\<rfloor> @ ''px''"

definition opens :: "string \<Rightarrow> nat" where
  "opens s = count_list s (CHR ''<'')"

lemma opens_simps [simp]:
  "opens [] = 0" "opens (c # s) = (if c = CHR ''<'' then Suc (opens s) else opens s)"
  "opens (a @ b) = opens a + opens b"
  by (simp_all add: opens_def)

lemma opens_concat: "opens (concat xs) = sum_list (map opens xs)"
  by (induction xs) simp_all

lemma opens_escapeHtml [simp]: "opens (escapeHtml s) = 0"
  using escapeHtml_no_tag [of s] by (simp add: opens_def count_list_0_iff)

lemma opens_show_nat [simp]: "opens (show_nat n) = 0"
  using show_nat_digits [of n] by (auto simp: opens_def count_list_0_iff is_digit_def)

lemma opens_symbols [simp]:
  "opens arrow_right = 0" "opens arrow_left = 0" "opens arrow_both = 0" "opens mid_dot = 0"
  "opens em_dash = 0" "opens ellipsis = 0"
  by (simp_all add: arrow_right_def arrow_left_def arrow_both_def mid_dot_def em_dash_def ellipsis_def
      utf8_def char_of_def bit_0)

lemma opens_tag: "opens (tag name attrs body) =
    opens name + opens name + 2 + (\<Sum>kv \<leftarrow> attrs. opens (fst kv) + opens (snd kv)) + opens body"
  by (induction attrs) (simp_all add: tag_def open_tag_def attr_def quoted_def)

end
