(* ===== verification/Catalog.thy ===== *)
theory Catalog
  imports Html "HOL-Library.Multiset"
begin

text \<open>
  The protocol catalog and everything that is about protocols as a whole (\<^verbatim>\<open>static/app.js\<close>):
  the tables fetched from the server, the legend, the per-protocol counters, the hidden-protocol
  set with its badge, and the control channel (\<^verbatim>\<open>sendControl\<close>) that carries it.
\<close>

section \<open>State\<close>

record cstate = world +
  PROTOCOL_COLORS :: "(string \<times> string) list"
  PROTOCOL_LAYERS :: "(string \<times> string list) list"
  DEFAULT_VISIBLE_PROTOCOLS :: "string list"
  protocolFilters :: "string list"
  protocolStats :: "(string \<times> nat) list"
  count_spans :: "(string \<times> string) list"
    \<comment> \<open>the \<^verbatim>\<open>.legend-count\<close> elements of the page: element and its \<^verbatim>\<open>data-proto\<close>\<close>
  legendCountEls :: "(string \<times> string) list option"
  nodeColorMode :: string
  ws_open :: bool           \<comment> \<open>\<^verbatim>\<open>ws && ws.readyState === WebSocket.OPEN\<close>\<close>
  fitOnNextFull :: bool
  localeNumber :: "nat \<Rightarrow> string"   \<comment> \<open>\<^verbatim>\<open>toLocaleString\<close> of the browser\<close>

definition default_layers :: "(string \<times> string list) list" where
  "default_layers =
    [(''L2 '' @ mid_dot @ '' Data Link'', [''ARP'', ''VLAN'', ''LLDP'', ''CDP'', ''STP'']),
     (''L3 '' @ mid_dot @ '' Network'', [''ICMP'', ''NDP'', ''IGMP'', ''OSPF'', ''IPv6'']),
     (''L4 '' @ mid_dot @ '' Transport'', [''TCP'', ''UDP'']),
     (''L7 '' @ mid_dot @ '' Application'',
       [''HTTP'', ''HTTPS'', ''DNS'', ''mDNS'', ''SSDP'', ''LLMNR'', ''NetBIOS'', ''DHCP'',
        ''WS-Discovery'', ''SSH'', ''FTP'', ''SMTP'', ''MySQL'', ''PostgreSQL'', ''InfluxDB'', ''Slurm'']),
     (''VPN '' @ mid_dot @ '' Tunnel'', [''WireGuard'', ''OpenVPN'']),
     (''K8s '' @ mid_dot @ '' Cluster'', [''VXLAN'', ''Geneve'', ''K8s-API'', ''etcd'', ''Kubelet'']),
     (em_dash @ '' '' @ mid_dot @ '' Other'', [''Other''])]"

definition default_visible :: "string list" where
  "default_visible = [''ICMP'', ''TCP'', ''UDP'', ''HTTP'', ''HTTPS'', ''DNS'']"

section \<open>The control channel\<close>

definition sendControl :: "ctrl \<Rightarrow> 'a cstate_scheme \<Rightarrow> 'a cstate_scheme" where
  "sendControl msg s = (if ws_open s then emit (Send msg) s else s)"

section \<open>Loading the catalog\<close>

record catalog_entry =
  ce_name :: string
  ce_color :: string
  ce_layer :: string
  ce_defaultVisible :: bool

type_synonym tables = "(string \<times> string) list \<times> (string \<times> string list) list \<times> string list"

definition add_to_layer ::
    "string \<Rightarrow> string \<Rightarrow> (string \<times> string list) list \<Rightarrow> (string \<times> string list) list" where
  "add_to_layer layer name layers =
     (case map_of layers layer of
        Some members \<Rightarrow> AList.update layer (members @ [name]) layers
      | None \<Rightarrow> layers @ [(layer, [name])])"

definition catalog_step :: "catalog_entry \<Rightarrow> tables \<Rightarrow> tables" where
  "catalog_step p t =
     (let (colors, layers, visible) = t
      in (AList.update (ce_name p) (ce_color p) colors,
          add_to_layer (ce_layer p) (ce_name p) layers,
          if ce_defaultVisible p then set_add (ce_name p) visible else visible))"

definition loadProtocolCatalog ::
    "catalog_entry list reply \<Rightarrow> 'a cstate_scheme \<Rightarrow> 'a cstate_scheme" where
  "loadProtocolCatalog resp s =
     (let s = emit (Ask GetProtocols) s;
          builtin = emit (Warn ''Using built-in protocol tables; /api/protocols failed:'') s
      in case resp of
           Body protocols \<Rightarrow>
             if protocols = [] then builtin
             else let (colors, layers, visible) = fold catalog_step protocols ([], [], [])
                  in s\<lparr>PROTOCOL_COLORS := colors, PROTOCOL_LAYERS := layers,
                       DEFAULT_VISIBLE_PROTOCOLS := visible\<rparr>
         | _ \<Rightarrow> builtin)"

section \<open>Counters\<close>

definition count_text :: "(string \<times> nat) list \<Rightarrow> string \<Rightarrow> string" where
  "count_text stats proto =
     (let c = (case map_of stats proto of Some n \<Rightarrow> n | None \<Rightarrow> 0)
      in if 0 < c then formatCount c else [])"

definition updateProtocolCounts ::
    "(string \<times> nat) list \<Rightarrow> 'a cstate_scheme \<Rightarrow> 'a cstate_scheme" where
  "updateProtocolCounts stats s =
     (let s = s\<lparr>protocolStats := stats\<rparr>;
          s = (case legendCountEls s of None \<Rightarrow> s\<lparr>legendCountEls := Some (count_spans s)\<rparr> | Some _ \<Rightarrow> s)
      in fold (\<lambda>(el, proto). upd_el el (el_text (count_text stats proto))) (the (legendCountEls s)) s)"

definition updateStatistics :: "nat \<Rightarrow> nat \<Rightarrow> nat \<Rightarrow> 'a cstate_scheme \<Rightarrow> 'a cstate_scheme" where
  "updateStatistics nodeCount edgeCount totalPackets s =
     (let s = upd_el ''nodeCount'' (el_text (show_nat nodeCount)) s;
          s = upd_el ''edgeCount'' (el_text (show_nat edgeCount)) s
      in upd_el ''totalPackets'' (el_text (localeNumber s totalPackets)) s)"

section \<open>The filter badge and the hidden set\<close>

definition filter_text :: "string list \<Rightarrow> string" where
  "filter_text names =
     show_nat (length names) @ '' protocol'' @ only_if (1 < length names) ''s'' @ '' hidden: ''
     @ join '', '' names"

definition updateFilterIndicator :: "'a cstate_scheme \<Rightarrow> 'a cstate_scheme" where
  "updateFilterIndicator s =
     (let count = length (protocolFilters s);
          s = (if 0 < count
               then upd_el ''filterBadge'' (el_style ''display'' [] \<circ> el_text (show_nat count)) s
               else upd_el ''filterBadge'' (el_style ''display'' ''none'') s)
      in if has_el ''filterActiveIndicator'' s \<and> has_el ''filterActiveText'' s
         then if 0 < count
              then upd_el ''filterActiveIndicator'' (el_style ''display'' [])
                     (upd_el ''filterActiveText'' (el_text (filter_text (protocolFilters s))) s)
              else upd_el ''filterActiveIndicator'' (el_style ''display'' ''none'') s
         else s)"

definition sendFilters :: "'a cstate_scheme \<Rightarrow> 'a cstate_scheme" where
  "sendFilters s = sendControl (SetFilters (protocolFilters s)) s"

definition handleFilterChange :: "string \<Rightarrow> bool \<Rightarrow> 'a cstate_scheme \<Rightarrow> 'a cstate_scheme" where
  "handleFilterChange protocol checked s =
     (let s = (if checked then s\<lparr>protocolFilters := set_del protocol (protocolFilters s)\<rparr>
               else s\<lparr>protocolFilters := set_add protocol (protocolFilters s)\<rparr>);
          s = sendFilters s;
          s = updateFilterIndicator s
      in s\<lparr>fitOnNextFull := True\<rparr>)"

section \<open>The legend\<close>

definition legend_roles :: "string list" where
  "legend_roles = [''server'', ''client'', ''router'', ''switch'', ''gateway'', ''iot'', ''multicast'']"

definition role_swatch :: "string \<Rightarrow> string" where
  "role_swatch r =
     div_c ''legend-item''
       (tag ''span'' [(''class'', ''color-box''),
                      (''style'', ''background-color:'' @ lookup_or ROLE_COLOR r ''undefined'')] []
        @ span (lookup_or ROLE_NAME r ''undefined''))"

definition mode_button :: "string \<Rightarrow> string \<Rightarrow> string \<Rightarrow> string" where
  "mode_button current mode caption =
     tag ''button'' [(''class'', ''cm-btn '' @ only_if (current = mode) ''active''),
                     (''onclick'', call1 ''setNodeColorMode'' mode)] caption"

definition legend_block :: "string \<Rightarrow> string" where
  "legend_block mode =
     div_c ''legend-layer-heading'' (''Nodes '' @ em_dash @ '' size = traffic'')
     @ div_c ''legend-colormode''
         (span ''Color by:'' @ mode_button mode ''traffic'' ''Traffic'' @ mode_button mode ''role'' ''Role'')
     @ (if mode = ''role'' then concat (map role_swatch legend_roles)
        else div_c ''legend-note''
               (''grey '' @ arrow_right @ '' yellow '' @ arrow_right @ '' orange '' @ arrow_right
                @ '' red = rising traffic''))
     @ div_c ''legend-layer-heading'' ''Protocols (edge color)''"

definition renderLegend :: "'a cstate_scheme \<Rightarrow> 'a cstate_scheme" where
  "renderLegend s =
     (if \<not> has_el ''protocolLegend'' s then s
      else let s = (if has_el ''nodeLegend'' s then s else create_el ''nodeLegend'' fresh_elem s)
           in upd_el ''nodeLegend'' (el_html (legend_block (nodeColorMode s))) s)"

definition legend_span_id :: "string \<Rightarrow> string" where
  "legend_span_id protocol = ''legend-count:'' @ protocol"

definition filter_span_id :: "string \<Rightarrow> string" where
  "filter_span_id protocol = ''filter-count:'' @ protocol"

definition count_span :: "string \<Rightarrow> string" where
  "count_span protocol = tag ''span'' [(''class'', ''legend-count''), (''data-proto'', protocol)] []"

definition legend_item :: "string \<Rightarrow> string \<Rightarrow> string" where
  "legend_item color protocol =
     div_c ''legend-item''
       (tag ''span'' [(''class'', ''color-box''), (''style'', ''background-color: '' @ color)] []
        @ span protocol @ count_span protocol)"

definition filter_item :: "bool \<Rightarrow> string \<Rightarrow> string" where
  "filter_item showByDefault protocol =
     tag ''label'' [(''class'', ''filter-item'')]
       (''<input'' @ attr (''type'', ''checkbox'') @ attr (''value'', protocol)
        @ only_if showByDefault '' checked'' @ ''>'' @ span protocol @ count_span protocol)"

definition add_count_span :: "string \<Rightarrow> string \<Rightarrow> 'a cstate_scheme \<Rightarrow> 'a cstate_scheme" where
  "add_count_span el protocol s =
     create_el el (fresh_elem\<lparr>e_classes := {''legend-count''}\<rparr>)
       (s\<lparr>count_spans := count_spans s @ [(el, protocol)]\<rparr>)"

definition setup_protocol :: "string \<Rightarrow> 'a cstate_scheme \<Rightarrow> 'a cstate_scheme" where
  "setup_protocol protocol s =
     (let color = lookup_or (PROTOCOL_COLORS s) protocol []
      in if color = [] then s
         else
           let s = upd_el ''protocolLegend'' (el_append (legend_item color protocol)) s;
               s = add_count_span (legend_span_id protocol) protocol s;
               showByDefault = (protocol \<in> set (DEFAULT_VISIBLE_PROTOCOLS s));
               s = (if showByDefault then s
                    else s\<lparr>protocolFilters := set_add protocol (protocolFilters s)\<rparr>);
               s = upd_el ''protocolFilters'' (el_append (filter_item showByDefault protocol)) s
           in add_count_span (filter_span_id protocol) protocol s)"

definition setup_layer :: "string \<times> string list \<Rightarrow> 'a cstate_scheme \<Rightarrow> 'a cstate_scheme" where
  "setup_layer grp s =
     (let heading = el_append (div_c ''legend-layer-heading'' (fst grp));
          s = upd_el ''protocolLegend'' heading s;
          s = upd_el ''protocolFilters'' heading s
      in fold setup_protocol (snd grp) s)"

definition setupLegend :: "'a cstate_scheme \<Rightarrow> 'a cstate_scheme" where
  "setupLegend s =
     (let s = renderLegend s
      in updateFilterIndicator (fold setup_layer (PROTOCOL_LAYERS s) s))"

section \<open>The catalog keeps every protocol once\<close>

lemma add_to_layer_labels:
  "distinct (map fst layers) \<Longrightarrow> distinct (map fst (add_to_layer l n layers))"
  by (auto simp: add_to_layer_def map_of_eq_None_iff distinct_update split: option.splits)

lemma mset_update_layer:
  assumes "map_of layers l = Some members"
  shows "mset (concat (map snd (AList.update l (members @ [n]) layers))) =
    mset (concat (map snd layers)) + {#n#}"
  using assms by (induction layers) (auto split: if_splits)

lemma mset_add_to_layer:
  "mset (concat (map snd (add_to_layer l n layers))) = mset (concat (map snd layers)) + {#n#}"
  by (auto simp: add_to_layer_def mset_update_layer split: option.splits)

definition in_layer :: "(string \<times> string list) list \<Rightarrow> string \<Rightarrow> string \<Rightarrow> bool" where
  "in_layer layers l n = (case map_of layers l of Some members \<Rightarrow> n \<in> set members | None \<Rightarrow> False)"

lemma map_of_snoc: "map_of (xs @ [(k, v)]) k' = (case map_of xs k' of None \<Rightarrow> if k' = k then Some v else None | r \<Rightarrow> r)"
  by (auto simp: map_add_def split: option.splits)

lemma in_layer_add:
  "in_layer (add_to_layer l n layers) l' n' \<longleftrightarrow> in_layer layers l' n' \<or> (l' = l \<and> n' = n)"
  by (auto simp: in_layer_def add_to_layer_def map_of_snoc split: option.splits if_splits)

lemma catalog_step_tables:
  "catalog_step p (colors, layers, visible) =
     (AList.update (ce_name p) (ce_color p) colors, add_to_layer (ce_layer p) (ce_name p) layers,
      if ce_defaultVisible p then set_add (ce_name p) visible else visible)"
  by (simp add: catalog_step_def)

lemma catalog_fold:
  assumes "fold catalog_step ps (colors, layers, visible) = (colors', layers', visible')"
    and "distinct (map fst layers)"
  shows "distinct (map fst layers')
    \<and> mset (concat (map snd layers')) = mset (concat (map snd layers)) + mset (map ce_name ps)
    \<and> (\<forall>l n. in_layer layers' l n \<longleftrightarrow> in_layer layers l n \<or> (\<exists>p \<in> set ps. ce_layer p = l \<and> ce_name p = n))
    \<and> set visible' = set visible \<union> ce_name ` {p \<in> set ps. ce_defaultVisible p}"
  using assms
proof (induction ps arbitrary: colors layers visible)
  case Nil
  then show ?case by simp
next
  case (Cons p ps)
  have d: "distinct (map fst (add_to_layer (ce_layer p) (ce_name p) layers))"
    using Cons.prems(2) by (rule add_to_layer_labels)
  have f: "fold catalog_step ps (AList.update (ce_name p) (ce_color p) colors,
      add_to_layer (ce_layer p) (ce_name p) layers,
      if ce_defaultVisible p then set_add (ce_name p) visible else visible) = (colors', layers', visible')"
    using Cons.prems(1) by (simp add: catalog_step_tables del: if_split)
  show ?case using Cons.IH [OF f d] by (auto simp: mset_add_to_layer in_layer_add)
qed

text \<open>
  Lemma: a catalog that arrives is grouped without loss: every protocol is listed once under its own
  layer, layer headings are distinct, and exactly the protocols flagged so start visible.
\<close>

theorem catalog_grouped:
  assumes "protocols \<noteq> []" and "s' = loadProtocolCatalog (Body protocols) s"
  shows "distinct (map fst (PROTOCOL_LAYERS s'))
    \<and> mset (concat (map snd (PROTOCOL_LAYERS s'))) = mset (map ce_name protocols)
    \<and> (\<forall>l n. in_layer (PROTOCOL_LAYERS s') l n \<longleftrightarrow> (\<exists>p \<in> set protocols. ce_layer p = l \<and> ce_name p = n))
    \<and> set (DEFAULT_VISIBLE_PROTOCOLS s') = ce_name ` {p \<in> set protocols. ce_defaultVisible p}"
proof -
  obtain c l v where f: "fold catalog_step protocols ([], [], []) = (c, l, v)" by (metis prod_cases3)
  show ?thesis using catalog_fold [OF f] assms
    by (simp add: loadProtocolCatalog_def f Let_def in_layer_def)
qed

section \<open>Filters\<close>

lemma updateFilterIndicator_fields [simp]:
  "protocolFilters (updateFilterIndicator s) = protocolFilters s"
  "ws_open (updateFilterIndicator s) = ws_open s"
  "sent (updateFilterIndicator s) = sent s"
  "PROTOCOL_COLORS (updateFilterIndicator s) = PROTOCOL_COLORS s"
  "DEFAULT_VISIBLE_PROTOCOLS (updateFilterIndicator s) = DEFAULT_VISIBLE_PROTOCOLS s"
  "count_spans (updateFilterIndicator s) = count_spans s"
  by (simp_all add: updateFilterIndicator_def Let_def page_defs sent_def)

lemma handleFilterChange_fields [simp]:
  "protocolFilters (handleFilterChange p c s) =
     (if c then set_del p (protocolFilters s) else set_add p (protocolFilters s))"
  "ws_open (handleFilterChange p c s) = ws_open s"
  by (simp_all add: handleFilterChange_def sendFilters_def sendControl_def Let_def emit_def)

lemma sent_handleFilterChange:
  "ws_open s \<Longrightarrow> sent (handleFilterChange p c s) =
     sent s @ [SetFilters (protocolFilters (handleFilterChange p c s))]"
proof -
  have "sent (t\<lparr>fitOnNextFull := b\<rparr>) = sent t" for t :: "'a cstate_scheme" and b
    by (simp add: sent_def)
  moreover have "sent (t\<lparr>protocolFilters := b\<rparr>) = sent t" for t :: "'a cstate_scheme" and b
    by (simp add: sent_def)
  moreover have "protocolFilters (emit e t) = protocolFilters t" for e and t :: "'a cstate_scheme"
    by (simp add: emit_def)
  ultimately show "ws_open s \<Longrightarrow> ?thesis"
    by (simp add: handleFilterChange_def sendFilters_def sendControl_def Let_def)
qed

lemma handle_filters_spec:
  assumes "ws_open s" and "evs \<noteq> []"
  defines "s' \<equiv> fold (\<lambda>(p, c). handleFilterChange p c) evs s"
  shows "last (sent s') = SetFilters (protocolFilters s')
    \<and> (\<forall>p. p \<in> set (protocolFilters s') \<longleftrightarrow>
         (case map_of (rev evs) p of Some checked \<Rightarrow> \<not> checked | None \<Rightarrow> p \<in> set (protocolFilters s)))
    \<and> ws_open s'"
  using assms(2) unfolding s'_def
proof (induction evs rule: rev_nonempty_induct)
  case (single e)
  then show ?case using assms(1)
    by (cases e) (auto simp: sent_handleFilterChange)
next
  case (snoc e evs)
  obtain p c where e: "e = (p, c)" by (cases e)
  show ?case using snoc by (auto simp: sent_handleFilterChange e split: option.splits)
qed

text \<open>
  Lemma: after any run of checkbox changes on an open socket, the server was last sent exactly the
  current hidden set, and that set holds a protocol iff its last change unchecked it (or it was
  hidden and never touched).
\<close>

theorem filters_in_sync:
  assumes "ws_open s" and "evs \<noteq> []"
  shows "let s' = fold (\<lambda>(p, c). handleFilterChange p c) evs s
    in last (sent s') = SetFilters (protocolFilters s')
       \<and> (\<forall>p. p \<in> set (protocolFilters s') \<longleftrightarrow>
            (case map_of (rev evs) p of Some checked \<Rightarrow> \<not> checked
             | None \<Rightarrow> p \<in> set (protocolFilters s)))"
  using handle_filters_spec [OF assms] by (simp add: Let_def)

definition sample_cstate :: cstate where
  "sample_cstate =
     \<lparr> dom = (\<lambda>_. None), body_light = False, storage = (\<lambda>_. None), now = 0, log = [],
       PROTOCOL_COLORS = default_colors, PROTOCOL_LAYERS = default_layers,
       DEFAULT_VISIBLE_PROTOCOLS = default_visible, protocolFilters = [], protocolStats = [],
       count_spans = [], legendCountEls = None, nodeColorMode = ''traffic'', ws_open = True,
       fitOnNextFull = False, localeNumber = show_nat \<rparr>"

theorem filters_in_sync_witness:
  "last (sent (handleFilterChange ''DNS'' True (handleFilterChange ''TCP'' False
     (handleFilterChange ''DNS'' False sample_cstate)))) = SetFilters [''TCP'']"
  using filters_in_sync [of sample_cstate "[(''DNS'', False), (''TCP'', False), (''DNS'', True)]"]
  by (simp add: sample_cstate_def set_add_def set_del_def Let_def)

theorem catalog_grouped_witness:
  "\<exists>s'. mset (concat (map snd (PROTOCOL_LAYERS (s' :: cstate)))) = {#''A'', ''B'', ''C''#}"
  using catalog_grouped [of
      "[\<lparr> ce_name = ''A'', ce_color = ''#111111'', ce_layer = ''L3'', ce_defaultVisible = True \<rparr>,
        \<lparr> ce_name = ''B'', ce_color = ''#222222'', ce_layer = ''L7'', ce_defaultVisible = False \<rparr>,
        \<lparr> ce_name = ''C'', ce_color = ''#333333'', ce_layer = ''L3'', ce_defaultVisible = True \<rparr>]"
      _ sample_cstate] by auto

section \<open>Default-hidden protocols\<close>

lemma setup_protocol_fields [simp]:
  "PROTOCOL_COLORS (setup_protocol p s) = PROTOCOL_COLORS s"
  "DEFAULT_VISIBLE_PROTOCOLS (setup_protocol p s) = DEFAULT_VISIBLE_PROTOCOLS s"
  by (simp_all add: setup_protocol_def Let_def add_count_span_def page_defs)

lemma setup_protocol_filters:
  "set (protocolFilters (setup_protocol p s)) = set (protocolFilters s) \<union>
     {q. q = p \<and> lookup_or (PROTOCOL_COLORS s) q [] \<noteq> [] \<and> q \<notin> set (DEFAULT_VISIBLE_PROTOCOLS s)}"
  by (auto simp: setup_protocol_def Let_def add_count_span_def page_defs)

lemma fold_setup_protocol:
  "PROTOCOL_COLORS (fold setup_protocol ps s) = PROTOCOL_COLORS s
   \<and> DEFAULT_VISIBLE_PROTOCOLS (fold setup_protocol ps s) = DEFAULT_VISIBLE_PROTOCOLS s
   \<and> set (protocolFilters (fold setup_protocol ps s)) = set (protocolFilters s) \<union>
     {q \<in> set ps. lookup_or (PROTOCOL_COLORS s) q [] \<noteq> [] \<and> q \<notin> set (DEFAULT_VISIBLE_PROTOCOLS s)}"
  by (induction ps arbitrary: s) (auto simp: setup_protocol_filters)

lemma setup_layer_spec:
  "PROTOCOL_COLORS (setup_layer g s) = PROTOCOL_COLORS s
   \<and> DEFAULT_VISIBLE_PROTOCOLS (setup_layer g s) = DEFAULT_VISIBLE_PROTOCOLS s
   \<and> set (protocolFilters (setup_layer g s)) = set (protocolFilters s) \<union>
     {q \<in> set (snd g). lookup_or (PROTOCOL_COLORS s) q [] \<noteq> [] \<and> q \<notin> set (DEFAULT_VISIBLE_PROTOCOLS s)}"
  by (simp add: setup_layer_def Let_def fold_setup_protocol) (simp add: upd_el_def)

lemma fold_setup_layer:
  "set (protocolFilters (fold setup_layer gs s)) = set (protocolFilters s) \<union>
     {q \<in> \<Union> (set ` snd ` set gs). lookup_or (PROTOCOL_COLORS s) q [] \<noteq> []
        \<and> q \<notin> set (DEFAULT_VISIBLE_PROTOCOLS s)}"
  by (induction gs arbitrary: s) (auto simp: setup_layer_spec)

definition in_layers :: "(string \<times> string list) list \<Rightarrow> string \<Rightarrow> bool" where
  "in_layers layers q = (\<exists>g \<in> set layers. q \<in> set (snd g))"

text \<open>
  Lemma: building the legend hides exactly the listed protocols that have a colour and are not visible
  by default, on top of what was hidden before.
\<close>

theorem legend_hides_defaults:
  "set (protocolFilters (setupLegend s)) = set (protocolFilters s) \<union>
     {q. in_layers (PROTOCOL_LAYERS s) q \<and> lookup_or (PROTOCOL_COLORS s) q [] \<noteq> []
         \<and> q \<notin> set (DEFAULT_VISIBLE_PROTOCOLS s)}"
proof -
  have "PROTOCOL_COLORS (renderLegend s) = PROTOCOL_COLORS s"
    "PROTOCOL_LAYERS (renderLegend s) = PROTOCOL_LAYERS s"
    "DEFAULT_VISIBLE_PROTOCOLS (renderLegend s) = DEFAULT_VISIBLE_PROTOCOLS s"
    "protocolFilters (renderLegend s) = protocolFilters s"
    by (simp_all add: renderLegend_def Let_def page_defs)
  then show ?thesis by (auto simp: setupLegend_def Let_def fold_setup_layer in_layers_def)
qed

end
