(* ===== verification/PacketData.thy ===== *)
theory PacketData
  imports Prelude "HOL-Library.Word"
begin

text \<open>
  A captured packet as the server sends it, and the byte-level helpers both the page and the search
  worker have: base64 decoding (\<^verbatim>\<open>base64ToBytes\<close> over the platform's \<^verbatim>\<open>atob\<close>).  A port,
  VLAN id or string that is absent in the JSON is 0 or empty, which is how the source tests it.
\<close>

record packet =
  p_id :: nat
  p_timestamp :: real       \<comment> \<open>\<^verbatim>\<open>new Date(timestamp)\<close>, in milliseconds\<close>
  p_src :: string
  p_srcPort :: nat
  p_dst :: string
  p_dstPort :: nat
  p_protocol :: string
  p_length :: nat
  p_summary :: string
  p_payload :: string       \<comment> \<open>base64\<close>
  p_vlanId :: nat
  p_streamId :: string

type_synonym bytes = "8 word list"

section \<open>Base64\<close>

definition b64_val :: "char \<Rightarrow> nat option" where
  "b64_val c =
     (let n = (of_char c :: nat)
      in if 65 \<le> n \<and> n \<le> 90 then Some (n - 65)
         else if 97 \<le> n \<and> n \<le> 122 then Some (n - 71)
         else if 48 \<le> n \<and> n \<le> 57 then Some (n + 4)
         else if n = 43 then Some 62
         else if n = 47 then Some 63
         else None)"

fun b64_groups :: "nat list \<Rightarrow> nat list" where
  "b64_groups (a # b # c # d # r) =
     (4 * a + b div 16) # (16 * (b mod 16) + c div 4) # (64 * (c mod 4) + d) # b64_groups r"
| "b64_groups [a, b, c] = [4 * a + b div 16, 16 * (b mod 16) + c div 4]"
| "b64_groups [a, b] = [4 * a + b div 16]"
| "b64_groups _ = []"

definition strip_pad :: "string \<Rightarrow> string" where
  "strip_pad s =
     (if length s mod 4 = 0 then
        (case rev s of
           c # d # r \<Rightarrow> if c = CHR ''='' then (if d = CHR ''='' then rev r else rev (d # r)) else s
         | _ \<Rightarrow> s)
      else s)"

text \<open>\<^verbatim>\<open>atob\<close>: \<open>None\<close> is the \<^verbatim>\<open>InvalidCharacterError\<close> it throws.\<close>

definition atob :: "string \<Rightarrow> nat list option" where
  "atob str =
     (let s = strip_pad (filter (\<lambda>c. \<not> is_space c) str)
      in if length s mod 4 = 1 \<or> (\<exists>c \<in> set s. b64_val c = None) then None
         else Some (b64_groups (List.map_filter b64_val s)))"

definition base64ToBytes :: "string \<Rightarrow> bytes option" where
  "base64ToBytes base64 = map_option (map word_of_nat) (atob base64)"

section \<open>The encoder the server runs, and the round trip\<close>

fun b64_split :: "nat list \<Rightarrow> nat list" where
  "b64_split (x # y # z # r) =
     (x div 4) # (16 * (x mod 4) + y div 16) # (4 * (y mod 16) + z div 64) # (z mod 64) # b64_split r"
| "b64_split [x, y] = [x div 4, 16 * (x mod 4) + y div 16, 4 * (y mod 16)]"
| "b64_split [x] = [x div 4, 16 * (x mod 4)]"
| "b64_split [] = []"

definition b64_char :: "nat \<Rightarrow> char" where
  "b64_char v =
     (if v < 26 then char_of (65 + v) else if v < 52 then char_of (71 + v)
      else if v < 62 then char_of (v - 4) else if v = 62 then CHR ''+'' else CHR ''/'')"

definition b64_encode :: "nat list \<Rightarrow> string" where
  "b64_encode bs =
     (let s = map b64_char (b64_split bs)
      in s @ replicate ((4 - length s mod 4) mod 4) (CHR ''=''))"

lemma of_char_b64: "v < 64 \<Longrightarrow> (of_char (b64_char v) :: nat) =
    (if v < 26 then 65 + v else if v < 52 then 71 + v else if v < 62 then v - 4
     else if v = 62 then 43 else 47)"
  by (auto simp: b64_char_def)

lemma b64_val_char [simp]: "v < 64 \<Longrightarrow> b64_val (b64_char v) = Some v"
  by (auto simp: b64_val_def of_char_b64 Let_def)

lemma b64_char_plain: "v < 64 \<Longrightarrow> \<not> is_space (b64_char v) \<and> b64_char v \<noteq> CHR ''=''"
  by (auto simp: is_space_def of_char_b64 dest!: arg_cong [where f = "of_char :: char \<Rightarrow> nat"] split: if_splits)

lemma b64_split_bound: "\<forall>b \<in> set bs. b < 256 \<Longrightarrow> \<forall>v \<in> set (b64_split bs). v < 64"
  by (induction bs rule: b64_split.induct) auto

lemma b64_groups_split: "\<forall>b \<in> set bs. b < 256 \<Longrightarrow> b64_groups (b64_split bs) = bs"
  by (induction bs rule: b64_split.induct) auto

lemma b64_split_length: "length (b64_split bs) mod 4 \<noteq> 1"
  by (induction bs rule: b64_split.induct) auto

lemma strip_pad_encode:
  assumes "\<forall>c \<in> set s. c \<noteq> CHR ''=''" and "length s mod 4 \<noteq> 1"
  shows "strip_pad (s @ replicate ((4 - length s mod 4) mod 4) (CHR ''='')) = s"
proof -
  have "length s mod 4 < 4" by simp
  then consider "length s mod 4 = 0" | "length s mod 4 = 2" | "length s mod 4 = 3"
    using assms(2) by linarith
  then show ?thesis
  proof cases
    case 1
    then show ?thesis using assms(1)
      by (auto simp: strip_pad_def split: list.splits)
  next
    case 2
    then have "length (s @ [CHR ''='', CHR ''='']) mod 4 = 0" by (simp add: mod_Suc)
    with 2 show ?thesis by (simp add: strip_pad_def numeral_2_eq_2)
  next
    case 3
    then have "length (s @ [CHR ''='']) mod 4 = 0" by (simp add: mod_Suc)
    moreover obtain s' c where "s = s' @ [c]" using 3 by (cases s rule: rev_cases) auto
    ultimately show ?thesis using 3 assms(1) by (simp add: strip_pad_def)
  qed
qed

lemma atob_encode:
  assumes "\<forall>b \<in> set bs. b < 256"
  shows "atob (b64_encode bs) = Some bs"
proof -
  let ?s = "map b64_char (b64_split bs)"
  have vs: "\<forall>v \<in> set (b64_split bs). v < 64" using assms by (rule b64_split_bound)
  have pure: "\<forall>c \<in> set ?s. \<not> is_space c \<and> c \<noteq> CHR ''=''"
    using vs by (auto simp: b64_char_plain)
  have flt: "filter (\<lambda>c. \<not> is_space c) (b64_encode bs) = b64_encode bs"
    using pure by (auto simp: b64_encode_def Let_def filter_id_conv is_space_def split: if_splits)
  have strip: "strip_pad (b64_encode bs) = ?s"
    using strip_pad_encode [of ?s] pure b64_split_length [of bs] by (simp add: b64_encode_def)
  have vals: "List.map_filter b64_val (map b64_char vs) = vs" if "\<forall>v \<in> set vs. v < 64" for vs
    using that by (induction vs) (auto simp: map_filter_simps)
  show ?thesis using vs b64_split_length [of bs] b64_groups_split [OF assms] vals [OF vs]
    by (auto simp: atob_def flt strip Let_def)
qed

lemma base64ToBytes_encode: "base64ToBytes (b64_encode (map unat bs)) = Some bs"
proof -
  have "unat b < 256" for b :: "8 word"
    using unsigned_less [of b, where 'a = nat] by simp
  then have "\<forall>b \<in> set (map unat bs). b < 256" by simp
  then show ?thesis by (simp add: base64ToBytes_def atob_encode comp_def)
qed

end
