(* ===== verification/Packets.thy ===== *)
theory Packets
  imports Catalog PacketData
begin

text \<open>
  The live packet table of \<^verbatim>\<open>static/app.js\<close>: polling, the capped cache, filtering and
  sorting, the virtual scroll window, selection, keyboard navigation, the inspector with its
  asynchronous payload views, and the floating window that holds them.
\<close>

section \<open>State\<close>

record replay_mode =
  rm_active :: bool
  rm_currentFile :: "string option"
  rm_startTime :: real
  rm_endTime :: real
  rm_durationSeconds :: real
  rm_currentOffset :: real

text \<open>
  The entry \<^verbatim>\<open>packetWindowState\<close> of the local storage after \<^verbatim>\<open>JSON.parse\<close>: a missing
  key is \<open>None\<close>.
\<close>

record window_state =
  ws_left :: "real option"
  ws_top :: "real option"
  ws_width :: real
  ws_height :: real

record pstate = cstate +
  replayMode :: replay_mode
  packets :: "packet list"
  packetCache :: "(nat \<times> packet) list"
  packetCursor :: nat
  selectedPacketId :: "nat option"
  selectedPacketIndex :: int
  lastPacketPanelRefresh :: real
  packetFilterText :: string
  packetFilterProtocol :: string
  filteredPacketList :: "packet list"
  currentPacketView :: string       \<comment> \<open>empty: \<^verbatim>\<open>undefined\<close>\<close>
  inspectorGen :: nat               \<comment> \<open>how often the inspector's markup was replaced\<close>
  packetWindow :: "window_state option"
  panel_left :: "real option"       \<comment> \<open>\<^verbatim>\<open>parseFloat(panel.style.left)\<close>, \<open>None\<close> = NaN\<close>
  panel_top :: "real option"
  panel_dragging :: bool
  panel_dragOff :: "real \<times> real"
  scrollRafPending :: bool
  innerWidth :: real
  innerHeight :: real
  localeTime :: "real \<Rightarrow> string"      \<comment> \<open>\<^verbatim>\<open>toLocaleTimeString\<close> of the browser\<close>
  localeDateTime :: "real \<Rightarrow> string"  \<comment> \<open>\<^verbatim>\<open>toLocaleString\<close> of the browser\<close>

definition MAX_CACHED_PACKETS :: nat where "MAX_CACHED_PACKETS = 5000"
definition PACKET_ROW_HEIGHT :: nat where "PACKET_ROW_HEIGHT = 41"
definition PACKET_RENDER_BUFFER :: nat where "PACKET_RENDER_BUFFER = 10"

section \<open>Filtering\<close>

definition host_port :: "string \<Rightarrow> nat \<Rightarrow> string" where
  "host_port host port = (if port = 0 then host else host @ '':'' @ show_nat port)"

definition text_matches :: "string \<Rightarrow> packet \<Rightarrow> bool" where
  "text_matches q p =
     (contains_str (to_lower (host_port (p_src p) (p_srcPort p))) q
      \<or> contains_str (to_lower (host_port (p_dst p) (p_dstPort p))) q
      \<or> contains_str (to_lower (p_protocol p)) q
      \<or> (p_summary p \<noteq> [] \<and> contains_str (to_lower (p_summary p)) q))"

definition packet_passes :: "string \<Rightarrow> string \<Rightarrow> packet \<Rightarrow> bool" where
  "packet_passes text protocol p =
     ((protocol = [] \<or> p_protocol p = protocol) \<and> (text = [] \<or> text_matches (to_lower text) p))"

text \<open>
  With no filter the array that is sorted is \<^verbatim>\<open>packets\<close> itself, so \<^verbatim>\<open>packets\<close> changes too.
\<close>

definition buildFilteredPacketList :: "'a pstate_scheme \<Rightarrow> 'a pstate_scheme" where
  "buildFilteredPacketList s =
     (if packets s = [] then s\<lparr>filteredPacketList := []\<rparr>
      else
        let newest = sort_key (\<lambda>p. - p_timestamp p);
            protocol = packetFilterProtocol s; txt = packetFilterText s;
            filtered = packets s;
            filtered = (if protocol \<noteq> [] then filter (\<lambda>p. p_protocol p = protocol) filtered else filtered);
            filtered = (if txt \<noteq> [] then filter (text_matches (to_lower txt)) filtered else filtered);
            s = (if protocol = [] \<and> txt = [] then s\<lparr>packets := newest (packets s)\<rparr> else s)
        in s\<lparr>filteredPacketList := newest filtered\<rparr>)"

section \<open>The virtual scroll window\<close>

definition renderPacketRow :: "(real \<Rightarrow> string) \<Rightarrow> nat option \<Rightarrow> packet \<Rightarrow> string" where
  "renderPacketRow timeText selectedId packet =
     tag ''div''
       [(''class'', ''packet-item'' @ only_if (Some (p_id packet) = selectedId) '' selected''),
        (''data-packet-id'', show_nat (p_id packet)),
        (''style'', ''height:'' @ show_nat PACKET_ROW_HEIGHT @ ''px;box-sizing:border-box;'')]
       (div_c ''packet-item-number'' (''#'' @ show_nat (p_id packet))
        @ div_c ''packet-item-info''
            (div_c ''packet-item-time'' (timeText (p_timestamp packet))
             @ div_c ''packet-item-src'' (host_port (p_src packet) (p_srcPort packet))
             @ tag ''div'' [] arrow_right
             @ div_c ''packet-item-dst'' (host_port (p_dst packet) (p_dstPort packet))
             @ div_c ''packet-item-protocol'' (p_protocol packet)
             @ div_c ''packet-item-length'' (show_nat (p_length packet) @ '' bytes'')
             @ div_c ''packet-item-summary'' (p_summary packet)))"

definition spacer :: "nat \<Rightarrow> string" where
  "spacer h = tag ''div'' [(''class'', ''packet-list-spacer''), (''style'', ''height:'' @ show_nat h @ ''px'')] []"

text \<open>\<open>(startIdx, endIdx, topSpacer, bottomSpacer)\<close>\<close>

definition visible_window :: "nat \<Rightarrow> real \<Rightarrow> real \<Rightarrow> nat \<times> nat \<times> nat \<times> nat" where
  "visible_window totalCount scrollTop viewportHeight =
     (let startIdx = nat (max 0 (\<lfloor>scrollTop / real PACKET_ROW_HEIGHT\<rfloor> - int PACKET_RENDER_BUFFER));
          endIdx = nat (min (int totalCount)
                     (\<lceil>(scrollTop + viewportHeight) / real PACKET_ROW_HEIGHT\<rceil> + int PACKET_RENDER_BUFFER))
      in (startIdx, endIdx, startIdx * PACKET_ROW_HEIGHT, (totalCount - endIdx) * PACKET_ROW_HEIGHT))"

definition renderVisiblePackets :: "'a pstate_scheme \<Rightarrow> 'a pstate_scheme" where
  "renderVisiblePackets s =
     (if \<not> has_el ''packetListContainer'' s \<or> \<not> has_el ''packetList'' s then s
      else
        let totalCount = length (filteredPacketList s)
        in if totalCount = 0
           then upd_el ''packetList''
                  (el_html (div_c ''packet-list-placeholder'' ''No packets match filters'')) s
           else
             let (startIdx, endIdx, topSpacer, bottomSpacer) =
                   visible_window totalCount (num_of ''packetListContainer'' ''scrollTop'' s)
                     (num_of ''packetListContainer'' ''clientHeight'' s);
                 rows = map (\<lambda>i. renderPacketRow (localeTime s) (selectedPacketId s)
                                   (filteredPacketList s ! i)) [startIdx..<endIdx]
             in upd_el ''packetList''
                  (el_html (spacer topSpacer @ concat rows @ spacer bottomSpacer)) s)"

section \<open>Loading\<close>

definition add_option :: "string \<Rightarrow> elem \<Rightarrow> elem" where
  "add_option v e = e\<lparr>e_options := e_options e @ [v]\<rparr>"

fun sorted_insert :: "string \<Rightarrow> string list \<Rightarrow> string list" where
  "sorted_insert x [] = [x]"
| "sorted_insert x (y # ys) =
     (if lexordp (\<lambda>a b. (of_char a :: nat) < of_char b) x y then x # y # ys else y # sorted_insert x ys)"

definition sort_names :: "string list \<Rightarrow> string list" where
  "sort_names xs = fold sorted_insert xs []"

definition loadPackets :: "'a pstate_scheme \<Rightarrow> 'a pstate_scheme" where
  "loadPackets s =
     (let s = renderVisiblePackets (buildFilteredPacketList s)
      in case dom s ''packetProtocolSelect'' of
           None \<Rightarrow> s
         | Some select \<Rightarrow>
             if length (e_options select) \<le> 1 \<and> packets s \<noteq> []
             then let protocols = fold set_add (map p_protocol (packets s)) []
                  in upd_el ''packetProtocolSelect'' (fold add_option (sort_names protocols)) s
             else s)"

definition cache_new :: "packet list \<Rightarrow> (nat \<times> packet) list \<Rightarrow> (nat \<times> packet) list" where
  "cache_new newPackets cache =
     fold (\<lambda>p c. if map_of c (p_id p) = None then AList.update (p_id p) p c else c) newPackets cache"

definition evict :: "(nat \<times> packet) list \<Rightarrow> (nat \<times> packet) list" where
  "evict cache =
     (if MAX_CACHED_PACKETS < length cache
      then fold AList.delete (take (length cache - MAX_CACHED_PACKETS) (sort (map_keys cache))) cache
      else cache)"

definition new_protocol_options :: "packet list \<Rightarrow> elem \<Rightarrow> elem" where
  "new_protocol_options newPackets e =
     fold (\<lambda>p e. if p_protocol p \<noteq> [] \<and> p_protocol p \<notin> set (e_options e)
                 then add_option (p_protocol p) e else e) newPackets e"

definition updatePacketCache :: "packet list \<Rightarrow> 'a pstate_scheme \<Rightarrow> 'a pstate_scheme" where
  "updatePacketCache newPackets s =
     (if newPackets = [] then s
      else
        let s = s\<lparr>packets := newPackets, packetCache := evict (cache_new newPackets (packetCache s))\<rparr>;
            s = upd_el ''packetProtocolSelect'' (new_protocol_options newPackets) s
        in if has_class ''packetPanel'' ''show'' s \<and> 500 < now s - lastPacketPanelRefresh s
           then renderVisiblePackets (buildFilteredPacketList (s\<lparr>lastPacketPanelRefresh := now s\<rparr>))
           else s)"

definition pollPackets :: "'a pstate_scheme \<Rightarrow> 'a pstate_scheme" where
  "pollPackets s =
     (if rm_active (replayMode s) then s else emit (Ask (GetPackets (packetCursor s) 1000)) s)"

definition pollPackets_reply ::
    "(nat option \<times> packet list) reply \<Rightarrow> 'a pstate_scheme \<Rightarrow> 'a pstate_scheme" where
  "pollPackets_reply resp s =
     (case resp of
        Body (cursor, ps) \<Rightarrow>
          let s = (case cursor of
                     Some c \<Rightarrow> if packetCursor s < c then s\<lparr>packetCursor := c\<rparr> else s
                   | None \<Rightarrow> s)
          in if ps \<noteq> [] then updatePacketCache ps s else s
      | _ \<Rightarrow> s)"

section \<open>Inspector\<close>

definition detail_field :: "string \<Rightarrow> string \<Rightarrow> string" where
  "detail_field label val =
     div_c ''packet-detail-field'' (div_c ''packet-detail-label'' label @ div_c ''packet-detail-value'' val)"

definition detail_section :: "string \<Rightarrow> string \<Rightarrow> string" where
  "detail_section title body = div_c ''packet-detail-section'' (tag ''h4'' [] title @ body)"

definition inspector_html :: "(real \<Rightarrow> string) \<Rightarrow> string \<Rightarrow> packet \<Rightarrow> string" where
  "inspector_html dateText currentView packet =
     detail_section (''Frame '' @ show_nat (p_id packet))
       (detail_field ''Timestamp:'' (dateText (p_timestamp packet))
        @ detail_field ''Length:'' (show_nat (p_length packet) @ '' bytes''))
     @ only_if (p_vlanId packet \<noteq> 0)
         (detail_section ''Data Link Layer'' (detail_field ''VLAN ID:'' (show_nat (p_vlanId packet))))
     @ detail_section ''Network Layer''
         (detail_field ''Source IP:'' (p_src packet)
          @ only_if (p_srcPort packet \<noteq> 0) (detail_field ''Source Port:'' (show_nat (p_srcPort packet)))
          @ detail_field ''Destination IP:'' (p_dst packet)
          @ only_if (p_dstPort packet \<noteq> 0) (detail_field ''Destination Port:'' (show_nat (p_dstPort packet)))
          @ detail_field ''Protocol:'' (p_protocol packet))
     @ detail_section ''Packet Information'' (detail_field ''Packet ID:'' (show_nat (p_id packet)))
     @ detail_section ''Packet Data''
         (tag ''div'' [(''class'', ''packet-view '' @ only_if (currentView = ''hex'') ''active''), (''id'', ''hexView'')]
            (tag ''div'' [(''class'', ''packet-hex-dump''), (''id'', ''packetHexDump'')] (''Loading'' @ ellipsis))
          @ tag ''div'' [(''class'', ''packet-view '' @ only_if (currentView = ''ascii'') ''active''), (''id'', ''asciiView'')]
            (tag ''div'' [(''class'', ''packet-ascii-view''), (''id'', ''packetAsciiView'')] []))
     @ detail_section ''Summary''
         (div_c ''packet-detail-field'' (div_c ''packet-detail-value'' (p_summary packet)))"

definition view_elem :: "string \<Rightarrow> bool \<Rightarrow> elem" where
  "view_elem body active =
     fresh_elem\<lparr>e_content := Txt body, e_classes := (if active then {''packet-view'', ''active''} else {''packet-view''})\<rparr>"

text \<open>The request is for the elements just created; a later one replaces them.\<close>

definition loadPacketPayloadViews :: "nat \<Rightarrow> 'a pstate_scheme \<Rightarrow> 'a pstate_scheme" where
  "loadPacketPayloadViews packetId s =
     (if has_el ''packetHexDump'' s \<and> has_el ''packetAsciiView'' s
      then emit (Ask (GetPacketDetail packetId)) s else s)"

text \<open>
  The continuation of \<^verbatim>\<open>loadPacketPayloadViews\<close>: \<open>gen\<close> identifies the two elements it captured.
  When the inspector has been rebuilt since, they are detached and writing them shows nothing.
\<close>

definition payload_views_reply ::
    "nat \<Rightarrow> nat \<Rightarrow> (string \<times> string) reply \<Rightarrow> 'a pstate_scheme \<Rightarrow> 'a pstate_scheme" where
  "payload_views_reply gen packetId resp s =
     (let attached = (gen = inspectorGen s);
          put = (\<lambda>h a. if attached
                       then upd_el ''packetAsciiView'' (el_text a) (upd_el ''packetHexDump'' (el_text h) s)
                       else s)
      in case resp of
           Body (hexDump, asciiView) \<Rightarrow>
             if selectedPacketId s \<noteq> Some packetId \<or> \<not> has_el ''packetHexDump'' s then s
             else put (or_else hexDump ''No payload data available'')
                      (or_else asciiView ''No payload data available'')
         | _ \<Rightarrow> put ''Payload unavailable (packet left the buffer)'' ''Payload unavailable'')"

definition showPacketInspector :: "packet \<Rightarrow> 'a pstate_scheme \<Rightarrow> 'a pstate_scheme" where
  "showPacketInspector packet s =
     (let currentView = or_else (currentPacketView s) ''hex'';
          s = upd_el ''packetInspectorContent'' (el_html (inspector_html (localeDateTime s) currentView packet)) s;
          s = create_el ''hexView'' (view_elem [] (currentView = ''hex'')) s;
          s = create_el ''asciiView'' (view_elem [] (currentView = ''ascii'')) s;
          s = create_el ''packetHexDump'' (fresh_elem\<lparr>e_content := Txt (''Loading'' @ ellipsis)\<rparr>) s;
          s = create_el ''packetAsciiView'' (fresh_elem\<lparr>e_content := Txt []\<rparr>) s;
          s = s\<lparr>inspectorGen := Suc (inspectorGen s)\<rparr>
      in loadPacketPayloadViews (p_id packet) s)"

section \<open>Selection\<close>

text \<open>Assigning \<^verbatim>\<open>scrollTop\<close>: the browser clamps to the scrollable range.\<close>

definition set_scrollTop :: "real \<Rightarrow> elem \<Rightarrow> elem" where
  "set_scrollTop v e =
     el_num ''scrollTop'' (max 0 (min (max 0 (e_num e ''scrollHeight'' - e_num e ''clientHeight'')) v)) e"

definition find_packet :: "nat \<Rightarrow> 'a pstate_scheme \<Rightarrow> packet option" where
  "find_packet pid s =
     (case map_of (packetCache s) pid of
        Some p \<Rightarrow> Some p
      | None \<Rightarrow> find (\<lambda>p. p_id p = pid) (packets s))"

fun find_index :: "('a \<Rightarrow> bool) \<Rightarrow> 'a list \<Rightarrow> int" where
  "find_index P [] = -1"
| "find_index P (x # xs) = (if P x then 0 else (let i = find_index P xs in if i < 0 then i else i + 1))"

definition selectPacket :: "nat \<Rightarrow> 'a pstate_scheme \<Rightarrow> 'a pstate_scheme" where
  "selectPacket packetId s =
     (let s = s\<lparr>selectedPacketId := Some packetId\<rparr>
      in case find_packet packetId s of
           None \<Rightarrow> s
         | Some packet \<Rightarrow>
             let idx = find_index (\<lambda>p. p_id p = packetId) (filteredPacketList s);
                 s = s\<lparr>selectedPacketIndex := idx\<rparr>;
                 targetTop = of_int idx * real PACKET_ROW_HEIGHT;
                 viewTop = num_of ''packetListContainer'' ''scrollTop'' s;
                 clientH = num_of ''packetListContainer'' ''clientHeight'' s;
                 s = (if 0 \<le> idx \<and> (targetTop < viewTop \<or> viewTop + clientH < targetTop + real PACKET_ROW_HEIGHT)
                      then upd_el ''packetListContainer'' (set_scrollTop (targetTop - clientH / 2)) s else s);
                 s = renderVisiblePackets s
             in showPacketInspector packet s)"

text \<open>
  The global key handler of \<^verbatim>\<open>setupModalHandlers\<close> (arrow keys while the panel is open, \<^verbatim>\<open>/\<close>
  focuses the search box); \<open>typing\<close>: the event target is an input.
\<close>

definition packet_key :: "string \<Rightarrow> bool \<Rightarrow> bool \<Rightarrow> 'a pstate_scheme \<Rightarrow> 'a pstate_scheme" where
  "packet_key key typing inSearch s =
     (if key = ''/'' \<and> \<not> typing then upd_el ''searchInput'' (add_class '':focus'') s
      else if has_class ''packetPanel'' ''show'' s \<and> (key = ''ArrowUp'' \<or> key = ''ArrowDown'') then
        (if inSearch \<or> packets s = [] then s
         else
           let i = (if key = ''ArrowDown'' then min (selectedPacketIndex s + 1) (int (length (packets s)) - 1)
                    else max (selectedPacketIndex s - 1) 0);
               s = s\<lparr>selectedPacketIndex := i\<rparr>
           in if 0 \<le> i \<and> i < int (length (packets s)) then selectPacket (p_id (packets s ! nat i)) s else s)
      else s)"

section \<open>The floating window\<close>

text \<open>\<open>None\<close> is NaN: a style that was never set.\<close>

definition movePacketWindow :: "real option \<Rightarrow> real option \<Rightarrow> 'a pstate_scheme \<Rightarrow> 'a pstate_scheme" where
  "movePacketWindow leftPx topPx s =
     (if \<not> has_el ''packetPanel'' s then s
      else
        let w = num_of ''packetPanel'' ''offsetWidth'' s; h = num_of ''packetPanel'' ''offsetHeight'' s;
            l = (case leftPx of None \<Rightarrow> innerWidth s - w - 16 | Some v \<Rightarrow> v);
            t = (case topPx of None \<Rightarrow> innerHeight s - h - 96 | Some v \<Rightarrow> v);
            l = max 0 (min (innerWidth s - 80) l);
            t = max 0 (min (innerHeight s - 50) t);
            s = s\<lparr>panel_left := Some l, panel_top := Some t\<rparr>
        in upd_el ''packetPanel'' (el_style ''right'' ''auto'' \<circ> el_style ''bottom'' ''auto'') s)"

definition positionPacketWindow :: "'a pstate_scheme \<Rightarrow> 'a pstate_scheme" where
  "positionPacketWindow s =
     (if \<not> has_el ''packetPanel'' s then s
      else
        let st = (case packetWindow s of
                    Some st \<Rightarrow> st
                  | None \<Rightarrow> \<lparr> ws_left = None, ws_top = None, ws_width = 0, ws_height = 0 \<rparr>);
            w = (if ws_width st \<noteq> 0 then ws_width st
                 else min 900 (of_int (round (innerWidth s * (86 / 100)))));
            h = (if ws_height st \<noteq> 0 then ws_height st else 440);
            s = upd_el ''packetPanel'' (el_num ''style.width'' w \<circ> el_num ''style.height'' h) s;
            left = (case ws_left st of Some v \<Rightarrow> v | None \<Rightarrow> innerWidth s - w - 16);
            top = (case ws_top st of Some v \<Rightarrow> v | None \<Rightarrow> innerHeight s - h - 96)
        in movePacketWindow (Some left) (Some top) s)"

definition savePacketWindow :: "'a pstate_scheme \<Rightarrow> 'a pstate_scheme" where
  "savePacketWindow s =
     (if \<not> has_el ''packetPanel'' s then s
      else s\<lparr>packetWindow := Some
        \<lparr> ws_left = Some (case panel_left s of Some v \<Rightarrow> v | None \<Rightarrow> 0),
          ws_top = Some (case panel_top s of Some v \<Rightarrow> v | None \<Rightarrow> 0),
          ws_width = num_of ''packetPanel'' ''offsetWidth'' s,
          ws_height = num_of ''packetPanel'' ''offsetHeight'' s \<rparr>\<rparr>)"

subsection \<open>The listeners of \<^verbatim>\<open>setupPacketPanel\<close>\<close>

text \<open>The timeline bar steps aside for the panel and comes back in replay mode.\<close>

definition restore_timeline :: "'a pstate_scheme \<Rightarrow> 'a pstate_scheme" where
  "restore_timeline s =
     upd_el ''timelineContainer''
       (\<lambda>e. let e = remove_class ''packet-panel-open'' e
            in if rm_active (replayMode s)
               then el_style ''visibility'' ''visible'' (el_style ''opacity'' ''1'' e) else e) s"

definition togglePacketPanel :: "'a pstate_scheme \<Rightarrow> 'a pstate_scheme" where
  "togglePacketPanel s =
     (let s = upd_el ''packetPanel'' (toggle_class ''show'') s
      in if has_class ''packetPanel'' ''show'' s
         then upd_el ''timelineContainer''
                (el_style ''visibility'' [] \<circ> el_style ''opacity'' [] \<circ> add_class ''packet-panel-open'')
                (loadPackets (positionPacketWindow s))
         else restore_timeline s)"

definition closePacketPanel :: "'a pstate_scheme \<Rightarrow> 'a pstate_scheme" where
  "closePacketPanel s = restore_timeline (upd_el ''packetPanel'' (remove_class ''show'') s)"

definition escapePacketPanel :: "'a pstate_scheme \<Rightarrow> 'a pstate_scheme" where
  "escapePacketPanel s = (if has_class ''packetPanel'' ''show'' s then closePacketPanel s else s)"

text \<open>\<open>onControl\<close>: the press hit a button or a tab; \<open>rect\<close>: the panel's corner on screen.\<close>

definition startPanelDrag ::
    "bool \<Rightarrow> real \<times> real \<Rightarrow> real \<times> real \<Rightarrow> 'a pstate_scheme \<Rightarrow> 'a pstate_scheme" where
  "startPanelDrag onControl client rect s =
     (if onControl then s
      else s\<lparr>panel_dragging := True, panel_dragOff := (fst client - fst rect, snd client - snd rect)\<rparr>)"

definition movePanelDrag :: "real \<times> real \<Rightarrow> 'a pstate_scheme \<Rightarrow> 'a pstate_scheme" where
  "movePanelDrag client s =
     (if \<not> panel_dragging s then s
      else movePacketWindow (Some (fst client - fst (panel_dragOff s)))
             (Some (snd client - snd (panel_dragOff s))) s)"

definition endPanelDrag :: "'a pstate_scheme \<Rightarrow> 'a pstate_scheme" where
  "endPanelDrag s =
     (if panel_dragging s then savePacketWindow (s\<lparr>panel_dragging := False\<rparr>) else s)"

definition panelResized :: "'a pstate_scheme \<Rightarrow> 'a pstate_scheme" where
  "panelResized s =
     (if \<not> has_class ''packetPanel'' ''show'' s then s
      else emit (After SaveTimer 250) (emit (Cancel SaveTimer) (renderVisiblePackets s)))"

definition windowResized :: "'a pstate_scheme \<Rightarrow> 'a pstate_scheme" where
  "windowResized s =
     (if has_class ''packetPanel'' ''show'' s
      then movePacketWindow (panel_left s) (panel_top s) s else s)"

definition updatePacketView :: "'a pstate_scheme \<Rightarrow> 'a pstate_scheme" where
  "updatePacketView s =
     (if \<not> has_el ''hexView'' s \<or> \<not> has_el ''asciiView'' s then s
      else if currentPacketView s = ''hex''
      then upd_el ''asciiView'' (remove_class ''active'') (upd_el ''hexView'' (add_class ''active'') s)
      else upd_el ''asciiView'' (add_class ''active'') (upd_el ''hexView'' (remove_class ''active'') s))"

definition hexTab_click :: "'a pstate_scheme \<Rightarrow> 'a pstate_scheme" where
  "hexTab_click s =
     (let s = s\<lparr>currentPacketView := ''hex''\<rparr>;
          s = upd_el ''asciiTab'' (remove_class ''active'') (upd_el ''hexTab'' (add_class ''active'') s)
      in updatePacketView s)"

definition asciiTab_click :: "'a pstate_scheme \<Rightarrow> 'a pstate_scheme" where
  "asciiTab_click s =
     (let s = s\<lparr>currentPacketView := ''ascii''\<rparr>;
          s = upd_el ''hexTab'' (remove_class ''active'') (upd_el ''asciiTab'' (add_class ''active'') s)
      in updatePacketView s)"

definition packetListScrolled :: "'a pstate_scheme \<Rightarrow> 'a pstate_scheme" where
  "packetListScrolled s =
     (if scrollRafPending s then s else emit (NextFrame ScrollFrame) (s\<lparr>scrollRafPending := True\<rparr>))"

definition packetListFrame :: "'a pstate_scheme \<Rightarrow> 'a pstate_scheme" where
  "packetListFrame s = (renderVisiblePackets s)\<lparr>scrollRafPending := False\<rparr>"

definition show_filterClear :: "'a pstate_scheme \<Rightarrow> 'a pstate_scheme" where
  "show_filterClear s =
     upd_el ''packetFilterClear''
       (el_style ''display'' (if packetFilterText s \<noteq> [] \<or> packetFilterProtocol s \<noteq> []
                             then ''block'' else ''none'')) s"

definition filterInput_changed :: "'a pstate_scheme \<Rightarrow> 'a pstate_scheme" where
  "filterInput_changed s = emit (After FilterTimer 200) (emit (Cancel FilterTimer) s)"

definition filterInput_timeout :: "'a pstate_scheme \<Rightarrow> 'a pstate_scheme" where
  "filterInput_timeout s =
     loadPackets (show_filterClear (s\<lparr>packetFilterText := trim (value_of ''packetFilterInput'' s)\<rparr>))"

definition filterSelect_changed :: "'a pstate_scheme \<Rightarrow> 'a pstate_scheme" where
  "filterSelect_changed s =
     loadPackets (show_filterClear (s\<lparr>packetFilterProtocol := value_of ''packetProtocolSelect'' s\<rparr>))"

definition filterClear_click :: "'a pstate_scheme \<Rightarrow> 'a pstate_scheme" where
  "filterClear_click s =
     (let s = s\<lparr>packetFilterText := [], packetFilterProtocol := []\<rparr>;
          s = upd_el ''packetFilterInput'' (el_value []) s;
          s = upd_el ''packetProtocolSelect'' (el_value []) s;
          s = upd_el ''packetFilterClear'' (el_style ''display'' ''none'') s
      in loadPackets s)"

section \<open>The cache stays bounded and keeps the newest packets\<close>

lemma keys_cache_new:
  "distinct (map_keys c) \<Longrightarrow>
   set (map_keys (cache_new ps c)) = set (map_keys c) \<union> p_id ` set ps \<and> distinct (map_keys (cache_new ps c))"
proof (induction ps arbitrary: c)
  case Nil
  then show ?case by (simp add: cache_new_def)
next
  case (Cons p ps)
  let ?c = "if map_of c (p_id p) = None then AList.update (p_id p) p c else c"
  have d: "distinct (map_keys ?c)" using Cons.prems by (simp add: map_keys_def distinct_update)
  have "set (map_keys ?c) = insert (p_id p) (set (map_keys c))"
    using js_map.keys_get [of "p_id p" c] by (simp add: js_map.keys_put insert_absorb)
  moreover have "cache_new (p # ps) c = cache_new ps ?c" by (simp add: cache_new_def)
  ultimately show ?case using Cons.IH [OF d] by simp
qed

lemma distinct_del_all: "distinct (map_keys c) \<Longrightarrow> distinct (map_keys (fold AList.delete ks c))"
  by (induction ks arbitrary: c) (simp_all add: map_keys_def distinct_delete)

lemma length_keys [simp]: "length (map_keys c) = length c"
  by (simp add: map_keys_def)

lemma sorted_split_le:
  "sorted xs \<Longrightarrow> x \<in> set (take n xs) \<Longrightarrow> y \<in> set (drop n xs) \<Longrightarrow> x \<le> y"
  by (metis append_take_drop_id sorted_append)

lemma evict_keys:
  assumes "distinct (map_keys c)"
  defines "k \<equiv> length c - MAX_CACHED_PACKETS"
  shows "set (map_keys (evict c)) = set (drop k (sort (map_keys c)))"
proof -
  let ?ids = "sort (map_keys c)"
  have d: "distinct ?ids" using assms by simp
  have "set (map_keys c) - set (take k ?ids) = set (drop k ?ids)"
  proof -
    have "set (take k ?ids) \<union> set (drop k ?ids) = set (map_keys c)"
      by (metis append_take_drop_id set_append set_sort)
    moreover have "set (take k ?ids) \<inter> set (drop k ?ids) = {}"
      using d by (rule set_take_disj_set_drop_if_distinct) simp
    ultimately show ?thesis by blast
  qed
  then show ?thesis by (simp add: evict_def js_map.keys_del_all k_def)
qed

definition cache_wf :: "(nat \<times> packet) list \<Rightarrow> bool" where
  "cache_wf c \<longleftrightarrow> distinct (map_keys c) \<and> length c \<le> MAX_CACHED_PACKETS"

lemma evict_wf:
  assumes "distinct (map_keys c)"
  shows "cache_wf (evict c)"
proof -
  have d: "distinct (map_keys (evict c))"
    using assms by (simp add: evict_def distinct_del_all)
  have "length (evict c) = card (set (map_keys (evict c)))"
    using d by (simp add: distinct_card flip: length_keys)
  also have "\<dots> \<le> length (drop (length c - MAX_CACHED_PACKETS) (sort (map_keys c)))"
    unfolding evict_keys [OF assms] by (rule card_length)
  also have "\<dots> \<le> MAX_CACHED_PACKETS" by simp
  finally show ?thesis using d by (simp add: cache_wf_def)
qed

lemma updatePacketCache_cache:
  "packetCache (updatePacketCache ps s) =
     (if ps = [] then packetCache s else evict (cache_new ps (packetCache s)))"
proof -
  have r: "packetCache (renderVisiblePackets t) = packetCache t" for t :: "'a pstate_scheme"
    by (simp add: renderVisiblePackets_def Let_def page_defs split: prod.splits)
  have b: "packetCache (buildFilteredPacketList t) = packetCache t" for t :: "'a pstate_scheme"
    by (simp add: buildFilteredPacketList_def Let_def)
  show ?thesis by (simp add: updatePacketCache_def Let_def r b page_defs)
qed

text \<open>
  C38: storing a batch keeps the packet cache a map of at most 5000 packets, and any packet that is
  in the cache or the batch but not kept is older (has a smaller id) than every packet kept.
\<close>

theorem cache_keeps_newest:
  assumes "cache_wf (packetCache s)"
  shows "let c = packetCache (updatePacketCache ps s)
    in cache_wf c \<and> (\<forall>lost kept. lost \<in> set (map_keys (packetCache s)) \<union> p_id ` set ps
         \<longrightarrow> lost \<notin> set (map_keys c) \<longrightarrow> kept \<in> set (map_keys c) \<longrightarrow> lost < kept)"
proof (cases "ps = []")
  case True
  then show ?thesis using assms by (simp add: updatePacketCache_cache)
next
  case False
  let ?c = "cache_new ps (packetCache s)" and ?k = "length (cache_new ps (packetCache s)) - MAX_CACHED_PACKETS"
  have d: "distinct (map_keys ?c)" and k: "set (map_keys ?c) = set (map_keys (packetCache s)) \<union> p_id ` set ps"
    using keys_cache_new assms by (auto simp: cache_wf_def)
  have "lost < kept" if "lost \<in> set (map_keys ?c)" "lost \<notin> set (map_keys (evict ?c))"
      "kept \<in> set (map_keys (evict ?c))" for lost kept
  proof -
    have "lost \<in> set (take ?k (sort (map_keys ?c)))" "kept \<in> set (drop ?k (sort (map_keys ?c)))"
      using that by (auto simp: evict_keys [OF d])
        (metis append_take_drop_id set_sort Un_iff set_append)
    then have "lost \<le> kept" by (rule sorted_split_le [OF sorted_sort])
    moreover have "lost \<noteq> kept" using that by auto
    ultimately show ?thesis by simp
  qed
  then show ?thesis using False evict_wf [OF d]
    by (simp add: updatePacketCache_cache Let_def k)
qed

definition sample_packet :: "nat \<Rightarrow> string \<Rightarrow> packet" where
  "sample_packet i proto =
     \<lparr> p_id = i, p_timestamp = - real i, p_src = ''10.0.0.1'', p_srcPort = 80, p_dst = ''10.0.0.2'',
       p_dstPort = 0, p_protocol = proto, p_length = 60, p_summary = [], p_payload = [],
       p_vlanId = 0, p_streamId = [] \<rparr>"

definition no_replay :: replay_mode where
  "no_replay = \<lparr> rm_active = False, rm_currentFile = None, rm_startTime = 0, rm_endTime = 0,
     rm_durationSeconds = 0, rm_currentOffset = 0 \<rparr>"

definition sample_pstate :: pstate where
  "sample_pstate = cstate.extend sample_cstate
     (pstate.fields no_replay [] [] 0 None (-1) 0 [] [] [] [] 0 None None None False (0, 0) False
        1280 800 (\<lambda>_. []) (\<lambda>_. []))"

lemmas sample_pstate_defs = sample_pstate_def sample_cstate_def cstate.defs pstate.defs no_replay_def

theorem cache_keeps_newest_witness:
  "cache_wf (packetCache (updatePacketCache [sample_packet 7 ''TCP''] sample_pstate))"
  using cache_keeps_newest [of sample_pstate "[sample_packet 7 ''TCP'']"]
  by (simp add: sample_pstate_defs cache_wf_def map_keys_def Let_def)

section \<open>Filtering and sorting\<close>

lemma sorted_newest: "sorted_wrt (\<lambda>a b. p_timestamp b \<le> p_timestamp a) (sort_key (\<lambda>p. - p_timestamp p) ps)"
proof -
  have "sorted (map (\<lambda>p. - p_timestamp p) (sort_key (\<lambda>p. - p_timestamp p) ps))" by simp
  then show ?thesis by (simp add: sorted_map)
qed

lemma filteredPacketList_build:
  "filteredPacketList (buildFilteredPacketList s) =
     sort_key (\<lambda>p. - p_timestamp p)
       (filter (packet_passes (packetFilterText s) (packetFilterProtocol s)) (packets s))"
proof -
  have "packet_passes t p = (\<lambda>x. (p = [] \<or> p_protocol x = p) \<and> (t = [] \<or> text_matches (to_lower t) x))" for t p
    by (rule ext) (simp add: packet_passes_def)
  then show ?thesis by (simp add: buildFilteredPacketList_def Let_def conj_commute)
qed


section \<open>The virtual scroll window\<close>

text \<open>
  Lemma: the rendered slice contains every row that meets the viewport, and the two spacers together
  with the rows are exactly as tall as the whole list, so the scrollbar never jumps.
\<close>

theorem window_covers_viewport:
  assumes "0 \<le> scrollTop" and "0 \<le> viewportHeight"
    and "scrollTop \<le> real (totalCount * PACKET_ROW_HEIGHT)"
    and "visible_window totalCount scrollTop viewportHeight = (startIdx, endIdx, topSpacer, bottomSpacer)"
  shows "endIdx \<le> totalCount
    \<and> topSpacer + (endIdx - startIdx) * PACKET_ROW_HEIGHT + bottomSpacer = totalCount * PACKET_ROW_HEIGHT
    \<and> (\<forall>i < totalCount. real (i * PACKET_ROW_HEIGHT) < scrollTop + viewportHeight
         \<longrightarrow> scrollTop < real (Suc i * PACKET_ROW_HEIGHT) \<longrightarrow> startIdx \<le> i \<and> i < endIdx)"
proof -
  let ?h = "real PACKET_ROW_HEIGHT"
  have h: "0 < ?h" by (simp add: PACKET_ROW_HEIGHT_def)
  have st: "startIdx = nat (max 0 (\<lfloor>scrollTop / ?h\<rfloor> - 10))"
    and en: "endIdx = nat (min (int totalCount) (\<lceil>(scrollTop + viewportHeight) / ?h\<rceil> + 10))"
    and tb: "topSpacer = startIdx * PACKET_ROW_HEIGHT" "bottomSpacer = (totalCount - endIdx) * PACKET_ROW_HEIGHT"
    using assms(4) by (auto simp: visible_window_def Let_def PACKET_RENDER_BUFFER_def)
  have "scrollTop / ?h \<le> real totalCount" using assms(3) h by (simp add: pos_divide_le_eq)
  then have le1: "\<lfloor>scrollTop / ?h\<rfloor> \<le> int totalCount" by linarith
  have "scrollTop / ?h \<le> (scrollTop + viewportHeight) / ?h"
    using assms(2) h by (simp add: divide_right_mono)
  then have le2: "\<lfloor>scrollTop / ?h\<rfloor> \<le> \<lceil>(scrollTop + viewportHeight) / ?h\<rceil>" by linarith
  have "0 \<le> (scrollTop + viewportHeight) / ?h" using assms(1,2) h by simp
  then have pos: "0 \<le> \<lceil>(scrollTop + viewportHeight) / ?h\<rceil>" by linarith
  have se: "startIdx \<le> endIdx" "endIdx \<le> totalCount"
    using le1 le2 pos by (auto simp: st en)
  have "startIdx + (endIdx - startIdx) + (totalCount - endIdx) = totalCount" using se by simp
  then have total: "topSpacer + (endIdx - startIdx) * PACKET_ROW_HEIGHT + bottomSpacer = totalCount * PACKET_ROW_HEIGHT"
    unfolding tb by (metis add_mult_distrib)
  have "startIdx \<le> i \<and> i < endIdx"
    if "i < totalCount" "real (i * PACKET_ROW_HEIGHT) < scrollTop + viewportHeight"
      "scrollTop < real (Suc i * PACKET_ROW_HEIGHT)" for i
  proof -
    have "scrollTop / ?h < real i + 1" using that(3) h by (simp add: pos_divide_less_eq algebra_simps)
    then have "\<lfloor>scrollTop / ?h\<rfloor> \<le> int i" by linarith
    moreover have "real i < (scrollTop + viewportHeight) / ?h" using that(2) h by (simp add: pos_less_divide_eq)
    then have "int i < \<lceil>(scrollTop + viewportHeight) / ?h\<rceil>" by linarith
    ultimately show ?thesis using that(1) by (auto simp: st en)
  qed
  then show ?thesis using se total by blast
qed

theorem window_covers_viewport_witness:
  "\<exists>st en a b. visible_window 90 410 400 = (st, en, a, b) \<and> st \<le> 10 \<and> 10 < en"
proof -
  have w: "visible_window 90 410 400 = (0, 30, 0, 60 * 41)"
    by (simp add: visible_window_def PACKET_ROW_HEIGHT_def PACKET_RENDER_BUFFER_def Let_def) 
  from window_covers_viewport [OF _ _ _ w] have "(0 :: nat) \<le> 10 \<and> (10 :: nat) < 30"
    by (simp add: PACKET_ROW_HEIGHT_def)
  then show ?thesis by (simp add: w)
qed

section \<open>Selection\<close>

lemma find_index_bounds: "-1 \<le> find_index P xs \<and> find_index P xs < int (length xs)"
  by (induction xs) (auto simp: Let_def)

lemma find_index_found: "x \<in> set xs \<Longrightarrow> P x \<Longrightarrow> 0 \<le> find_index P xs \<and> P (xs ! nat (find_index P xs))"
proof (induction xs)
  case Nil
  then show ?case by simp
next
  case (Cons y ys)
  show ?case
  proof (cases "P y")
    case True
    then show ?thesis by simp
  next
    case False
    then have "0 \<le> find_index P ys \<and> P (ys ! nat (find_index P ys))" using Cons by auto
    then show ?thesis using False by (simp add: Let_def nat_add_distrib)
  qed
qed

lemma find_index_at:
  "distinct (map f xs) \<Longrightarrow> i < length xs \<Longrightarrow> find_index (\<lambda>x. f x = f (xs ! i)) xs = int i"
proof (induction xs arbitrary: i)
  case Nil
  then show ?case by simp
next
  case (Cons x xs)
  show ?case
  proof (cases i)
    case 0
    then show ?thesis by simp
  next
    case (Suc j)
    then have "f (xs ! j) \<in> f ` set xs" using Cons.prems by simp
    then have "f x \<noteq> f (xs ! j)" using Cons.prems(1) by auto
    then show ?thesis using Cons.IH [of j] Cons.prems Suc by (simp add: Let_def)
  qed
qed

lemma num_of_upd_el:
  "num_of k p (upd_el k' f s) =
     (if k = k' then (case dom s k of None \<Rightarrow> 0 | Some e \<Rightarrow> e_num (f e) p) else num_of k p s)"
  by (auto simp: num_of_def upd_el_def split: option.splits)

lemma num_of_create_el: "num_of k p (create_el k' e s) = (if k = k' then e_num e p else num_of k p s)"
  by (simp add: num_of_def create_el_def)

lemma num_of_emit [simp]: "num_of k p (emit ev s) = num_of k p s"
  by (simp add: num_of_def emit_def)

lemma num_of_fields [simp]:
  "num_of k p (s\<lparr>inspectorGen := g\<rparr>) = num_of k p s"
  "num_of k p (s\<lparr>selectedPacketIndex := i\<rparr>) = num_of k p s"
  "num_of k p (s\<lparr>selectedPacketId := d\<rparr>) = num_of k p s"
  by (simp_all add: num_of_def)

lemma renderVisiblePackets_fields [simp]:
  "filteredPacketList (renderVisiblePackets s) = filteredPacketList s"
  "packets (renderVisiblePackets s) = packets s"
  "selectedPacketIndex (renderVisiblePackets s) = selectedPacketIndex s"
  "selectedPacketId (renderVisiblePackets s) = selectedPacketId s"
  "inspectorGen (renderVisiblePackets s) = inspectorGen s"
  "num_of ''packetListContainer'' p (renderVisiblePackets s) = num_of ''packetListContainer'' p s"
  by (simp_all add: renderVisiblePackets_def Let_def upd_el_def num_of_def split: prod.splits)

lemma showPacketInspector_fields [simp]:
  "filteredPacketList (showPacketInspector pk s) = filteredPacketList s"
  "packets (showPacketInspector pk s) = packets s"
  "selectedPacketIndex (showPacketInspector pk s) = selectedPacketIndex s"
  "selectedPacketId (showPacketInspector pk s) = selectedPacketId s"
  "inspectorGen (showPacketInspector pk s) = Suc (inspectorGen s)"
  "num_of ''packetListContainer'' p (showPacketInspector pk s) = num_of ''packetListContainer'' p s"
  by (simp_all add: showPacketInspector_def Let_def loadPacketPayloadViews_def num_of_upd_el num_of_create_el)
    (simp_all add: page_defs)

lemma upd_el_fields [simp]:
  "filteredPacketList (upd_el k f s) = filteredPacketList s" "packets (upd_el k f s) = packets s"
  "selectedPacketIndex (upd_el k f s) = selectedPacketIndex s"
  "selectedPacketId (upd_el k f s) = selectedPacketId s" "inspectorGen (upd_el k f s) = inspectorGen s"
  by (simp_all add: upd_el_def)

lemma find_packet_selected [simp]: "find_packet i (s\<lparr>selectedPacketId := d\<rparr>) = find_packet i s"
  by (simp add: find_packet_def split: option.splits)

lemma selectPacket_index:
  assumes "find_packet pid s \<noteq> None"
  shows "selectedPacketIndex (selectPacket pid s) = find_index (\<lambda>p. p_id p = pid) (filteredPacketList s)"
    and "selectedPacketId (selectPacket pid s) = Some pid"
    and "filteredPacketList (selectPacket pid s) = filteredPacketList s"
    and "packets (selectPacket pid s) = packets s"
    and "inspectorGen (selectPacket pid s) = Suc (inspectorGen s)"
  using assms by (auto simp: selectPacket_def Let_def)

lemma clamped_scroll:
  fixes t ch sh h :: real
  assumes "0 \<le> t" and "t + h \<le> sh" and "2 * h \<le> ch" and "0 < h"
  defines "v \<equiv> max 0 (min (max 0 (sh - ch)) (t - ch / 2))"
  shows "v \<le> t \<and> t + h \<le> v + ch"
  using assms by (auto simp: max_def min_def)

text \<open>
  Lemma: selecting a packet of the list records its position and scrolls so that its whole row is
  inside the viewport (the list being laid out at 41 pixels a row and the viewport at least two
  rows high).
\<close>

theorem select_scrolls_into_view:
  assumes "find_packet pid s \<noteq> None" and "\<exists>p \<in> set (filteredPacketList s). p_id p = pid"
    and "dom s ''packetListContainer'' = Some e"
    and "e_num e ''scrollHeight'' = real (length (filteredPacketList s) * PACKET_ROW_HEIGHT)"
    and "2 * real PACKET_ROW_HEIGHT \<le> e_num e ''clientHeight''"
  shows "let s' = selectPacket pid s; i = selectedPacketIndex s';
             scroll = num_of ''packetListContainer'' ''scrollTop'' s';
             rowTop = of_int i * real PACKET_ROW_HEIGHT
    in 0 \<le> i \<and> i < int (length (filteredPacketList s')) \<and> p_id (filteredPacketList s' ! nat i) = pid
       \<and> scroll \<le> rowTop \<and> rowTop + real PACKET_ROW_HEIGHT \<le> scroll + e_num e ''clientHeight''"
proof -
  let ?i = "find_index (\<lambda>p. p_id p = pid) (filteredPacketList s)" and ?h = "real PACKET_ROW_HEIGHT"
  obtain p where "p \<in> set (filteredPacketList s)" "p_id p = pid" using assms(2) by blast
  from find_index_found [OF this(1), of "\<lambda>p. p_id p = pid", OF this(2)]
  have i: "0 \<le> ?i" "p_id (filteredPacketList s ! nat ?i) = pid" by simp_all
  have il: "?i < int (length (filteredPacketList s))" using find_index_bounds by blast
  have h: "0 < ?h" by (simp add: PACKET_ROW_HEIGHT_def)
  have "real_of_int (?i + 1) \<le> real_of_int (int (length (filteredPacketList s)))"
    using il by linarith
  then have "real_of_int (?i + 1) * ?h \<le> real_of_int (int (length (filteredPacketList s))) * ?h"
    using h by (intro mult_right_mono) simp_all
  then have fits: "of_int ?i * ?h + ?h \<le> e_num e ''scrollHeight''"
    using assms(4) by (simp add: algebra_simps)
  have "0 \<le> of_int ?i * ?h" using i(1) h by simp
  note cl = clamped_scroll [OF this fits assms(5) h]
  have n: "num_of ''packetListContainer'' p s = e_num e p" for p using assms(3) by (simp add: num_of_def)
  let ?out = "of_int ?i * ?h < e_num e ''scrollTop''
      \<or> e_num e ''scrollTop'' + e_num e ''clientHeight'' < of_int ?i * ?h + ?h"
  obtain pk where pk: "find_packet pid s = Some pk" using assms(1) by blast
  define v where "v = max 0 (min (max 0 (e_num e ''scrollHeight'' - e_num e ''clientHeight''))
      (of_int ?i * ?h - e_num e ''clientHeight'' / 2))"
  have v: "v \<le> of_int ?i * ?h" "of_int ?i * ?h + ?h \<le> v + e_num e ''clientHeight''"
    using cl by (simp_all only: v_def)
  have "num_of ''packetListContainer'' ''scrollTop'' (selectPacket pid s) =
      (if ?out then v else e_num e ''scrollTop'')"
    unfolding v_def using i(1) by (simp only: selectPacket_def Let_def find_packet_selected pk option.case
        showPacketInspector_fields renderVisiblePackets_fields num_of_fields n if_distrib num_of_upd_el)
      (simp add: assms(3) n num_of_upd_el set_scrollTop_def el_num_def del: max.absorb1 min.absorb1)
  then show ?thesis using v i il by (auto simp: Let_def selectPacket_index [OF assms(1)])
qed

definition scroll_sample :: pstate where
  "scroll_sample = sample_pstate\<lparr>packets := [sample_packet 1 ''TCP'', sample_packet 2 ''UDP''],
     filteredPacketList := [sample_packet 1 ''TCP'', sample_packet 2 ''UDP''],
     dom := [''packetListContainer'' \<mapsto> fresh_elem\<lparr>e_num := (\<lambda>k. if k = ''scrollHeight'' then 82
       else if k = ''clientHeight'' then 100 else 0)\<rparr>]\<rparr>"

theorem select_scrolls_into_view_witness:
  "num_of ''packetListContainer'' ''scrollTop'' (selectPacket 2 scroll_sample) \<le> 41
   \<and> selectedPacketIndex (selectPacket 2 scroll_sample) = 1"
  using select_scrolls_into_view [of 2 scroll_sample "the (dom scroll_sample ''packetListContainer'')"]
    selectPacket_index(1) [of 2 scroll_sample]
  by (simp add: scroll_sample_def sample_pstate_defs find_packet_def sample_packet_def
      PACKET_ROW_HEIGHT_def fresh_elem_def Let_def)

subsection \<open>Keyboard navigation\<close>

text \<open>
  Lemma: with no filter, pressing the down arrow moves the selection to the next row of the list.
\<close>

theorem arrow_down_next_row:
  assumes "has_class ''packetPanel'' ''show'' s" and "filteredPacketList s = packets s"
    and "distinct (map p_id (packets s))" and "selectedPacketIndex s = int i"
    and "Suc i < length (packets s)"
  shows "let s' = packet_key ''ArrowDown'' False False s
    in selectedPacketIndex s' = int (Suc i)
       \<and> selectedPacketId s' = Some (p_id (filteredPacketList s ! Suc i))"
proof -
  let ?p = "packets s ! Suc i" and ?s = "s\<lparr>selectedPacketIndex := int i + 1\<rparr>"
  have m: "min (int i + 1) (int (length (packets s)) - 1) = int i + 1" using assms(5) by simp
  have "?p \<in> set (packets s)" using assms(5) by simp
  then have "find (\<lambda>p. p_id p = p_id ?p) (packets s) \<noteq> None" by (simp add: find_None_iff) blast
  then have f: "find_packet (p_id ?p) ?s \<noteq> None"
    by (auto simp: find_packet_def split: option.splits)
  have fi: "find_index (\<lambda>p. p_id p = p_id ?p) (packets s) = int (Suc i)"
    by (rule find_index_at [OF assms(3,5)])
  have nm: "nat (int i + 1) = Suc i" by simp
  have ne: "packets s \<noteq> []" using assms(5) by auto
  have "packet_key ''ArrowDown'' False False s = selectPacket (p_id ?p) ?s"
    using assms(1,4,5) ne m by (simp add: packet_key_def Let_def nm)
  then show ?thesis using fi assms(2)
    by (simp add: selectPacket_index [OF f] Let_def)
qed

definition nav_sample :: pstate where
  "nav_sample = scroll_sample\<lparr>selectedPacketIndex := 0,
     dom := [''packetPanel'' \<mapsto> fresh_elem\<lparr>e_classes := {''show''}\<rparr>]\<rparr>"

theorem arrow_down_next_row_witness:
  "selectedPacketId (packet_key ''ArrowDown'' False False nav_sample) = Some 2"
  using arrow_down_next_row [of nav_sample 0]
  by (simp add: nav_sample_def scroll_sample_def sample_pstate_defs sample_packet_def has_class_def
      fresh_elem_def Let_def)

definition filtered_nav :: pstate where
  "filtered_nav = nav_sample\<lparr>packetFilterProtocol := ''UDP'', selectedPacketIndex := -1,
     filteredPacketList := [sample_packet 2 ''UDP'']\<rparr>"

text \<open>
  Lemma: with a filter the arrow keys index the unfiltered table: in a table of a TCP and a UDP packet
  with only UDP shown, the first press selects the TCP packet, which the list does not contain.
\<close>

theorem arrow_ignores_filter:
  "filteredPacketList (buildFilteredPacketList filtered_nav) = filteredPacketList filtered_nav
   \<and> selectedPacketId (packet_key ''ArrowDown'' False False filtered_nav) = Some 1
   \<and> selectedPacketIndex (packet_key ''ArrowDown'' False False filtered_nav) = -1"
proof -
  let ?s = "filtered_nav\<lparr>selectedPacketIndex := 0\<rparr>"
  have f: "find_packet 1 ?s \<noteq> None"
    by (simp add: filtered_nav_def nav_sample_def scroll_sample_def sample_pstate_defs sample_packet_def find_packet_def)
  have "packet_key ''ArrowDown'' False False filtered_nav = selectPacket 1 ?s"
    by (simp add: packet_key_def filtered_nav_def nav_sample_def scroll_sample_def sample_pstate_defs
        sample_packet_def has_class_def fresh_elem_def Let_def)
  moreover have "filteredPacketList (buildFilteredPacketList filtered_nav) = filteredPacketList filtered_nav"
    unfolding filteredPacketList_build
    by (simp add: filtered_nav_def nav_sample_def scroll_sample_def sample_pstate_defs sample_packet_def
        packet_passes_def)
  moreover have "selectedPacketIndex (selectPacket 1 ?s) = -1"
    unfolding selectPacket_index(1) [OF f] by (simp add: filtered_nav_def sample_packet_def)
  ultimately show ?thesis using selectPacket_index(2) [OF f] by simp
qed

subsection \<open>Late payload replies\<close>

text \<open>
  Lemma: the payload of a packet that arrives after another packet was opened changes nothing,
  whatever the reply.
\<close>

theorem late_payload_ignored:
  assumes "find_packet b s \<noteq> None" and "gen \<le> inspectorGen s"
  shows "payload_views_reply gen a resp (selectPacket b s) = selectPacket b s"
  using assms by (simp add: payload_views_reply_def Let_def selectPacket_index(5) split: reply.splits prod.splits)

theorem late_payload_ignored_witness:
  "payload_views_reply 0 1 Broken (selectPacket 2 scroll_sample) = selectPacket 2 scroll_sample"
  by (rule late_payload_ignored)
    (simp_all add: scroll_sample_def sample_pstate_defs find_packet_def sample_packet_def)

text \<open>
  Lemma: selecting a packet that is no longer known leaves the inspector on the old packet but makes
  the old packet's payload, when it arrives, be thrown away: the view keeps its loading text.
\<close>

theorem unknown_selection_strands_view:
  assumes "find_packet b s = None" and "a \<noteq> b"
  shows "inspectorGen (selectPacket b s) = inspectorGen s
    \<and> payload_views_reply (inspectorGen s) a (Body d) (selectPacket b s) = selectPacket b s"
  using assms by (simp add: selectPacket_def Let_def payload_views_reply_def split: prod.splits)

theorem unknown_selection_strands_view_witness:
  "payload_views_reply 0 1 (Body (''00'', ''.'')) (selectPacket 9 sample_pstate) = selectPacket 9 sample_pstate"
  using unknown_selection_strands_view [of 9 sample_pstate 1 "(''00'', ''.'')"]
  by (simp add: sample_pstate_defs find_packet_def)

section \<open>Markup of a row\<close>

text \<open>
  Lemma: every tag in a rendered row is one of its own twenty or comes from a field of the packet:
  the addresses, the protocol and the summary are written into the page unescaped.
\<close>

theorem packet_row_markup:
  "opens (renderPacketRow timeText sel p) =
     20 + opens (timeText (p_timestamp p)) + opens (p_src p) + opens (p_dst p)
        + opens (p_protocol p) + opens (p_summary p)"
  by (simp add: renderPacketRow_def div_c_def opens_tag only_if_def host_port_def)

section \<open>The window stays reachable\<close>

lemma clamp_room: "c \<le> a \<Longrightarrow> max 0 (min (a - c) v) + c \<le> (a :: real)"
  by (simp add: max_def min_def)

definition on_screen :: "'a pstate_scheme \<Rightarrow> 'a pstate_scheme \<Rightarrow> bool" where
  "on_screen s s' \<longleftrightarrow> (\<exists>x y. panel_left s' = Some x \<and> panel_top s' = Some y
    \<and> 0 \<le> x \<and> x + 80 \<le> innerWidth s \<and> 0 \<le> y \<and> y + 50 \<le> innerHeight s)"

lemma movePacketWindow_on_screen:
  assumes "has_el ''packetPanel'' u" and "80 \<le> innerWidth u" and "50 \<le> innerHeight u"
  shows "on_screen u (movePacketWindow l t u)"
  using assms by (simp add: on_screen_def movePacketWindow_def Let_def upd_el_def clamp_room)

lemma on_screen_upd_el [simp]: "on_screen (upd_el k f s) s' = on_screen s s'"
  by (simp add: on_screen_def upd_el_def)

lemma positionPacketWindow_moves:
  "has_el ''packetPanel'' s \<Longrightarrow>
     \<exists>l t f. positionPacketWindow s = movePacketWindow l t (upd_el ''packetPanel'' f s)"
  unfolding positionPacketWindow_def Let_def by (simp only: not_True_eq_False if_False) blast

text \<open>
  Lemma: wherever the packet window is dragged, opened or left by a browser resize, its corner stays
  on the screen with at least 80 by 50 pixels to grab, when the browser window is that large.
\<close>

theorem window_grabbable:
  assumes "has_el ''packetPanel'' s" and "80 \<le> innerWidth s" and "50 \<le> innerHeight s"
    and "s' \<in> {movePacketWindow l t s, positionPacketWindow s}"
  shows "\<exists>x y. panel_left s' = Some x \<and> panel_top s' = Some y
    \<and> 0 \<le> x \<and> x + 80 \<le> innerWidth s \<and> 0 \<le> y \<and> y + 50 \<le> innerHeight s"
proof -
  have "on_screen s (movePacketWindow l t s)"
    by (rule movePacketWindow_on_screen) (use assms(1-3) in simp_all)
  moreover have "on_screen (upd_el ''packetPanel'' f s) (movePacketWindow l t (upd_el ''packetPanel'' f s))" for l t f
    by (rule movePacketWindow_on_screen) (use assms(1-3) in \<open>simp_all add: has_el_def upd_el_def\<close>)
  ultimately have "on_screen s s'"
    using assms(4) positionPacketWindow_moves [OF assms(1)] by auto
  then show ?thesis by (simp add: on_screen_def)
qed

theorem window_grabbable_witness:
  "\<exists>x. panel_left (movePacketWindow (Some 5000) None nav_sample) = Some x \<and> x \<le> 1200"
  using window_grabbable [of nav_sample "movePacketWindow (Some 5000) None nav_sample" "Some 5000" None]
  by (auto simp: nav_sample_def scroll_sample_def sample_pstate_defs has_el_def)

end
