(* ===== verification/Renderer.thy ===== *)
theory Renderer
  imports GraphData
begin

text \<open>
  The default renderer, class \<^verbatim>\<open>GLNetwork\<close> of \<^verbatim>\<open>static/glrenderer.js\<close>, without its GPU
  buffers: the mirror of the DataSets (\<^verbatim>\<open>body\<close>), node sizing, the camera and its animation,
  coordinate conversion, connectivity queries, flow particles and the dirty flags that gate the
  next drawing.  The other two renderers are told apart by \<open>rn_kind\<close>: their methods are the ones
  the client tests for with \<^verbatim>\<open>typeof network.f === 'function'\<close>.
\<close>

section \<open>State\<close>

datatype renderer_kind = GLKind | CosmosKind | VisKind

record camera =
  cam_cx :: real
  cam_cy :: real
  cam_scale :: real

record camera_anim =
  an_from :: camera
  an_to :: camera
  an_start :: real
  an_duration :: real

record body_node =
  b_x :: real
  b_y :: real
  b_opacity :: real
  b_label :: string
  b_color :: vis_color
  b_isGroup :: bool
  b_value :: "real option"
  b_size :: real

record body_edge =
  be_from :: string
  be_to :: string
  be_label :: "string option"
  be_color :: string
  be_opacity :: real
  be_width :: real

record gl_particle =
  gp_from :: string
  gp_to :: string
  gp_color :: string
  gp_progress :: real
  gp_speed :: real

record renderer =
  rn_kind :: renderer_kind
  rn_ownsLayout :: bool
  rn_rawMode :: bool
  rn_nodes :: "(string \<times> body_node) list"
  rn_edges :: "(string \<times> body_edge) list"
  rn_camera :: camera
  rn_anim :: "camera_anim option"
  rn_viewW :: real
  rn_viewH :: real
  rn_options :: net_options
  rn_valueRange :: "(real \<times> real) option"
  rn_particles :: "gl_particle list"
  rn_lastFrameMs :: real
  rn_selected :: "string option"
  rn_nodesDirty :: bool
  rn_edgesDirty :: bool
  rn_hitDirty :: bool
  rn_overlayDirty :: bool
  rn_drawQueued :: bool
  rn_destroyed :: bool
  rn_didInitialFit :: bool
  rn_userMovedCamera :: bool
  rn_cachedNodeCount :: nat
  rn_hitGrid :: "((int \<times> int) \<times> string list) list option"

definition isCosmos :: "renderer \<Rightarrow> bool" where
  "isCosmos r = (rn_kind r = CosmosKind)"

definition hasSetValueRange :: "renderer \<Rightarrow> bool" where
  "hasSetValueRange r = (rn_kind r = GLKind)"

definition hasMarkSceneDirty :: "renderer \<Rightarrow> bool" where
  "hasMarkSceneDirty r = (rn_kind r \<noteq> VisKind)"

definition hasSpawnParticles :: "renderer \<Rightarrow> bool" where
  "hasSpawnParticles r = (rn_kind r \<noteq> VisKind)"

definition hasInvalidateOverlay :: "renderer \<Rightarrow> bool" where
  "hasInvalidateOverlay r = (rn_kind r = GLKind)"

definition hasSetRawTopology :: "renderer \<Rightarrow> bool" where
  "hasSetRawTopology r = (rn_kind r = CosmosKind)"

lemmas kind_defs = isCosmos_def hasSetValueRange_def hasMarkSceneDirty_def hasSpawnParticles_def
  hasInvalidateOverlay_def hasSetRawTopology_def

section \<open>Redrawing\<close>

definition redraw :: "renderer \<Rightarrow> renderer" where
  "redraw r = (if rn_drawQueued r \<or> rn_destroyed r then r else r\<lparr>rn_drawQueued := True\<rparr>)"

definition markSceneDirty :: "string \<Rightarrow> renderer \<Rightarrow> renderer" where
  "markSceneDirty kind r =
     (let r = (if kind = ''nodes'' \<or> kind = ''all''
               then r\<lparr>rn_nodesDirty := True, rn_edgesDirty := True, rn_hitDirty := True\<rparr> else r);
          r = (if kind = ''edges'' \<or> kind = ''all'' then r\<lparr>rn_edgesDirty := True\<rparr> else r)
      in redraw r)"

definition invalidateOverlay :: "renderer \<Rightarrow> renderer" where
  "invalidateOverlay r = redraw (r\<lparr>rn_overlayDirty := True\<rparr>)"

section \<open>The mirror of the DataSets\<close>

definition new_body_node :: body_node where
  "new_body_node = \<lparr> b_x = 0, b_y = 0, b_opacity = 1, b_label = [], b_color = ColorName [],
     b_isGroup = False, b_value = None, b_size = 20 \<rparr>"

text \<open>\<^verbatim>\<open>_syncNode\<close>: position only where the item has one, opacity always reset.\<close>

definition syncNode :: "node_item \<Rightarrow> renderer \<Rightarrow> renderer" where
  "syncNode item r =
     (let bn = (case map_of (rn_nodes r) (i_id item) of
                  None \<Rightarrow> new_body_node
                | Some b \<Rightarrow> b\<lparr>b_opacity := 1\<rparr>);
          bn = (case i_pos item of Some (x, y) \<Rightarrow> bn\<lparr>b_x := x, b_y := y\<rparr> | None \<Rightarrow> bn);
          bn = bn\<lparr>b_label := i_label item, b_color := i_color item,
                 b_isGroup := (i_shape item = ''box''), b_value := Some (i_value item), b_size := 20\<rparr>
      in r\<lparr>rn_nodes := AList.update (i_id item) bn (rn_nodes r)\<rparr>)"

definition syncEdge :: "edge_item \<Rightarrow> renderer \<Rightarrow> renderer" where
  "syncEdge item r =
     (let old = map_of (rn_edges r) (j_id item);
          lbl = (if j_label item \<noteq> [] then Some (j_label item)
                 else (case old of Some b \<Rightarrow> be_label b | None \<Rightarrow> None));
          opac = (case old of Some b \<Rightarrow> be_opacity b | None \<Rightarrow> 1)
      in r\<lparr>rn_edges := AList.update (j_id item)
             \<lparr> be_from = j_from item, be_to = j_to item, be_label = lbl,
               be_color = or_else (j_color item) ''#848484'', be_opacity = opac,
               be_width = j_width item \<rparr> (rn_edges r)\<rparr>)"

text \<open>
  \<^verbatim>\<open>_recomputeSizes\<close>: the value domain is the fixed range if one is set, else that of the nodes.
\<close>

definition node_values :: "renderer \<Rightarrow> real list" where
  "node_values r = List.map_filter (\<lambda>(k, b). b_value b) (rn_nodes r)"

definition size_domain :: "renderer \<Rightarrow> (real \<times> real) option" where
  "size_domain r =
     (case rn_valueRange r of
        Some d \<Rightarrow> Some d
      | None \<Rightarrow> (case node_values r of [] \<Rightarrow> None
                 | v # vs \<Rightarrow> Some (fold min vs v, fold max vs v)))"

definition node_size :: "(real \<times> real) option \<Rightarrow> body_node \<Rightarrow> real" where
  "node_size rng b =
     (if b_isGroup b then 12
      else case rng of
             None \<Rightarrow> 20
           | Some (minV, maxV) \<Rightarrow>
               (case b_value b of
                  None \<Rightarrow> 20
                | Some v \<Rightarrow>
                    if maxV \<le> minV then 20
                    else 20 + 10 * max 0 (min 1 ((v - minV) / (maxV - minV)))))"

definition recomputeSizes :: "renderer \<Rightarrow> renderer" where
  "recomputeSizes r =
     r\<lparr>rn_nodes := map (\<lambda>(k, b). (k, b\<lparr>b_size := node_size (size_domain r) b\<rparr>)) (rn_nodes r)\<rparr>"

definition setValueRange :: "(real \<times> real) option \<Rightarrow> renderer \<Rightarrow> renderer" where
  "setValueRange rng r =
     redraw ((recomputeSizes (r\<lparr>rn_valueRange := rng\<rparr>))\<lparr>rn_nodesDirty := True\<rparr>)"

section \<open>Camera\<close>

definition canvasToDOM :: "renderer \<Rightarrow> real \<times> real \<Rightarrow> real \<times> real" where
  "canvasToDOM r p =
     ((fst p - cam_cx (rn_camera r)) * cam_scale (rn_camera r) + rn_viewW r / 2,
      (snd p - cam_cy (rn_camera r)) * cam_scale (rn_camera r) + rn_viewH r / 2)"

definition DOMtoCanvas :: "renderer \<Rightarrow> real \<times> real \<Rightarrow> real \<times> real" where
  "DOMtoCanvas r p =
     ((fst p - rn_viewW r / 2) / cam_scale (rn_camera r) + cam_cx (rn_camera r),
      (snd p - rn_viewH r / 2) / cam_scale (rn_camera r) + cam_cy (rn_camera r))"

text \<open>\<open>duration = None\<close>: no animation.  A duration of 0 falls back to 400.\<close>

definition moveCamera :: "real \<Rightarrow> camera \<Rightarrow> real option \<Rightarrow> renderer \<Rightarrow> renderer" where
  "moveCamera nowMs target duration r =
     (case duration of
        None \<Rightarrow> redraw (r\<lparr>rn_camera := target, rn_anim := None\<rparr>)
      | Some d \<Rightarrow>
          redraw (r\<lparr>rn_anim := Some \<lparr> an_from = rn_camera r, an_to = target, an_start = nowMs,
                      an_duration = (if d = 0 then 400 else d) \<rparr>\<rparr>))"

definition bounds :: "(string \<times> body_node) list \<Rightarrow> (real \<times> real) \<times> (real \<times> real)" where
  "bounds ns =
     (let xs = map (b_x \<circ> snd) ns; ys = map (b_y \<circ> snd) ns
      in ((fold min (tl xs) (hd xs), fold max (tl xs) (hd xs)),
          (fold min (tl ys) (hd ys), fold max (tl ys) (hd ys))))"

definition fit_camera :: "renderer \<Rightarrow> camera" where
  "fit_camera r =
     (let ((minX, maxX), (minY, maxY)) = bounds (rn_nodes r);
          pad = 80; w = maxX - minX + pad * 2; h = maxY - minY + pad * 2
      in \<lparr> cam_cx = (minX + maxX) / 2, cam_cy = (minY + maxY) / 2,
           cam_scale = min 2 (min (rn_viewW r / max w 1) (rn_viewH r / max h 1)) \<rparr>)"

definition fit :: "real \<Rightarrow> real option \<Rightarrow> renderer \<Rightarrow> renderer" where
  "fit nowMs duration r =
     (if rn_nodes r = [] then r else moveCamera nowMs (fit_camera r) duration r)"

definition focus_on :: "real \<Rightarrow> string \<Rightarrow> real \<Rightarrow> real option \<Rightarrow> renderer \<Rightarrow> renderer" where
  "focus_on nowMs nid scale duration r =
     (case map_of (rn_nodes r) nid of
        None \<Rightarrow> r
      | Some n \<Rightarrow>
          moveCamera nowMs
            \<lparr> cam_cx = b_x n, cam_cy = b_y n,
              cam_scale = (if scale = 0 then cam_scale (rn_camera r) else scale) \<rparr> duration r)"

definition moveTo ::
    "real \<Rightarrow> (real \<times> real) option \<Rightarrow> real option \<Rightarrow> real option \<Rightarrow> renderer \<Rightarrow> renderer" where
  "moveTo nowMs position scale duration r =
     moveCamera nowMs
       \<lparr> cam_cx = (case position of Some (x, _) \<Rightarrow> x | None \<Rightarrow> cam_cx (rn_camera r)),
         cam_cy = (case position of Some (_, y) \<Rightarrow> y | None \<Rightarrow> cam_cy (rn_camera r)),
         cam_scale = (case scale of Some s \<Rightarrow> s | None \<Rightarrow> cam_scale (rn_camera r)) \<rparr> duration r"

definition easeInOutQuad :: "real \<Rightarrow> real" where
  "easeInOutQuad t = (if t < 1 / 2 then 2 * t * t else 1 - (- 2 * t + 2) ^ 2 / 2)"

definition stepAnim :: "real \<Rightarrow> renderer \<Rightarrow> bool \<times> renderer" where
  "stepAnim nowMs r =
     (case rn_anim r of
        None \<Rightarrow> (False, r)
      | Some a \<Rightarrow>
          let t = min 1 ((nowMs - an_start a) / an_duration a); k = easeInOutQuad t;
              mix = (\<lambda>sel. sel (an_from a) + (sel (an_to a) - sel (an_from a)) * k);
              r = r\<lparr>rn_camera := \<lparr> cam_cx = mix cam_cx, cam_cy = mix cam_cy, cam_scale = mix cam_scale \<rparr>\<rparr>
          in (True, if 1 \<le> t then r\<lparr>rn_anim := None\<rparr> else r))"

definition wheel_zoom :: "real \<times> real \<Rightarrow> real \<Rightarrow> renderer \<Rightarrow> renderer" where
  "wheel_zoom p deltaY r =
     (let g = DOMtoCanvas r p;
          ns = min 10 (max (5 / 100) (cam_scale (rn_camera r) * exp (- deltaY * (15 / 10000))))
      in redraw (r\<lparr>rn_camera := \<lparr> cam_cx = fst g - (fst p - rn_viewW r / 2) / ns,
                                  cam_cy = snd g - (snd p - rn_viewH r / 2) / ns,
                                  cam_scale = ns \<rparr>,
                    rn_anim := None, rn_userMovedCamera := True\<rparr>))"

definition key_pan :: "string \<Rightarrow> renderer \<Rightarrow> renderer" where
  "key_pan key r =
     (let c = rn_camera r; step = 40 / cam_scale c;
          moved = (\<lambda>c'. redraw (r\<lparr>rn_camera := c', rn_anim := None, rn_userMovedCamera := True\<rparr>))
      in if key = ''ArrowUp'' then moved (c\<lparr>cam_cy := cam_cy c - step\<rparr>)
         else if key = ''ArrowDown'' then moved (c\<lparr>cam_cy := cam_cy c + step\<rparr>)
         else if key = ''ArrowLeft'' then moved (c\<lparr>cam_cx := cam_cx c - step\<rparr>)
         else if key = ''ArrowRight'' then moved (c\<lparr>cam_cx := cam_cx c + step\<rparr>)
         else if key = ''+'' \<or> key = ''='' then moved (c\<lparr>cam_scale := min 10 (cam_scale c * (12 / 10))\<rparr>)
         else if key = ''-'' \<or> key = ''_'' then moved (c\<lparr>cam_scale := max (5 / 100) (cam_scale c / (12 / 10))\<rparr>)
         else r)"

section \<open>Queries\<close>

definition getPosition :: "renderer \<Rightarrow> string \<Rightarrow> real \<times> real" where
  "getPosition r nid = (case map_of (rn_nodes r) nid of Some n \<Rightarrow> (b_x n, b_y n) | None \<Rightarrow> (0, 0))"

definition getPositions :: "renderer \<Rightarrow> string \<Rightarrow> (real \<times> real) option" where
  "getPositions r nid = map_option (\<lambda>n. (b_x n, b_y n)) (map_of (rn_nodes r) nid)"

definition getConnectedNodes :: "renderer \<Rightarrow> string \<Rightarrow> string list" where
  "getConnectedNodes r nid =
     List.map_filter (\<lambda>(eid, e). if be_from e = nid then Some (be_to e)
                                  else if be_to e = nid then Some (be_from e) else None) (rn_edges r)"

definition getConnectedEdges :: "renderer \<Rightarrow> string \<Rightarrow> string list" where
  "getConnectedEdges r nid =
     map fst (filter (\<lambda>(eid, e). be_from e = nid \<or> be_to e = nid) (rn_edges r))"

definition selectNodes :: "string list \<Rightarrow> renderer \<Rightarrow> renderer" where
  "selectNodes ids r = redraw (r\<lparr>rn_selected := (case ids of [] \<Rightarrow> None | x # _ \<Rightarrow> Some x)\<rparr>)"

definition setOptions :: "net_options \<Rightarrow> renderer \<Rightarrow> renderer" where
  "setOptions ops r = redraw (r\<lparr>rn_options := ops\<rparr>)"

section \<open>DataSet events\<close>

definition onNodesChanged :: "real \<Rightarrow> node_item list \<Rightarrow> renderer \<Rightarrow> renderer" where
  "onNodesChanged nowMs items r =
     (if rn_destroyed r then r
      else
        let r = recomputeSizes (fold syncNode items r);
            r = r\<lparr>rn_nodesDirty := True, rn_hitDirty := True\<rparr>;
            r = (if \<not> rn_didInitialFit r \<and> rn_nodes r \<noteq> []
                 then (fit nowMs None (r\<lparr>rn_didInitialFit := True\<rparr>))\<lparr>rn_userMovedCamera := False\<rparr> else r)
        in redraw r)"

definition onNodesRemoved :: "real \<Rightarrow> string list \<Rightarrow> renderer \<Rightarrow> renderer" where
  "onNodesRemoved nowMs ids r =
     (if rn_destroyed r then r
      else
        let r = r\<lparr>rn_nodes := fold AList.delete ids (rn_nodes r)\<rparr>;
            r = (recomputeSizes r)\<lparr>rn_nodesDirty := True, rn_hitDirty := True\<rparr>;
            r = (if \<not> rn_didInitialFit r \<and> rn_nodes r \<noteq> []
                 then (fit nowMs None (r\<lparr>rn_didInitialFit := True\<rparr>))\<lparr>rn_userMovedCamera := False\<rparr> else r)
        in redraw r)"

definition onEdgesChanged :: "edge_item list \<Rightarrow> renderer \<Rightarrow> renderer" where
  "onEdgesChanged items r =
     (if rn_destroyed r then r else redraw ((fold syncEdge items r)\<lparr>rn_edgesDirty := True\<rparr>))"

definition onEdgesRemoved :: "string list \<Rightarrow> renderer \<Rightarrow> renderer" where
  "onEdgesRemoved ids r =
     (if rn_destroyed r then r
      else redraw (r\<lparr>rn_edges := fold AList.delete ids (rn_edges r), rn_edgesDirty := True\<rparr>))"

section \<open>Flow particles\<close>

definition MAX_PARTICLES :: nat where "MAX_PARTICLES = 220"
definition PARTICLE_EDGE_GAP :: real where "PARTICLE_EDGE_GAP = 35 / 100"

definition particleCap :: "renderer \<Rightarrow> nat" where
  "particleCap r =
     (let n = (if rn_cachedNodeCount r = 0 then length (rn_nodes r) else rn_cachedNodeCount r);
          cap = (if 400 < n then 80 else if 200 < n then 140 else MAX_PARTICLES)
      in if 12 < rn_lastFrameMs r then min cap 60 else cap)"

definition tooSoon :: "gl_particle list \<Rightarrow> particle \<Rightarrow> bool" where
  "tooSoon ps f =
     (\<exists>p \<in> set ps. gp_from p = pt_from f \<and> gp_to p = pt_to f \<and> gp_progress p < PARTICLE_EDGE_GAP)"

definition spawn_one :: "renderer \<Rightarrow> particle \<Rightarrow> gl_particle list \<Rightarrow> gl_particle list" where
  "spawn_one r f ps =
     (if map_of (rn_nodes r) (pt_from f) = None \<or> map_of (rn_nodes r) (pt_to f) = None then ps
      else if tooSoon ps f then ps
      else ps @ [\<lparr> gp_from = pt_from f, gp_to = pt_to f, gp_color = pt_color f,
                   gp_progress = 0, gp_speed = pt_speed f \<rparr>])"

definition spawnParticles :: "particle list \<Rightarrow> renderer \<Rightarrow> renderer" where
  "spawnParticles flows r =
     redraw (r\<lparr>rn_particles := keep_newest (particleCap r) (fold (spawn_one r) flows (rn_particles r))\<rparr>)"

definition stepParticles :: "renderer \<Rightarrow> bool \<times> renderer" where
  "stepParticles r =
     (let alive = filter (\<lambda>p. gp_progress p < 1)
                    (map (\<lambda>p. p\<lparr>gp_progress := gp_progress p + gp_speed p\<rparr>) (rn_particles r))
      in (alive \<noteq> [], r\<lparr>rn_particles := alive\<rparr>))"

section \<open>Facts\<close>

lemma redraw_fields [simp]:
  "rn_nodes (redraw r) = rn_nodes r" "rn_edges (redraw r) = rn_edges r"
  "rn_camera (redraw r) = rn_camera r" "rn_kind (redraw r) = rn_kind r"
  "rn_viewW (redraw r) = rn_viewW r" "rn_viewH (redraw r) = rn_viewH r"
  "rn_particles (redraw r) = rn_particles r" "rn_hitDirty (redraw r) = rn_hitDirty r"
  "rn_anim (redraw r) = rn_anim r" "rn_destroyed (redraw r) = rn_destroyed r"
  "rn_hitGrid (redraw r) = rn_hitGrid r" "rn_valueRange (redraw r) = rn_valueRange r"
  by (simp_all add: redraw_def)

lemma moveCamera_nodes [simp]:
  "rn_nodes (moveCamera t c d r) = rn_nodes r" "rn_edges (moveCamera t c d r) = rn_edges r"
  "rn_kind (moveCamera t c d r) = rn_kind r" "rn_destroyed (moveCamera t c d r) = rn_destroyed r"
  by (simp_all add: moveCamera_def split: option.splits)

lemma fit_nodes [simp]:
  "rn_nodes (fit t d r) = rn_nodes r" "rn_edges (fit t d r) = rn_edges r"
  "rn_kind (fit t d r) = rn_kind r" "rn_destroyed (fit t d r) = rn_destroyed r"
  by (simp_all add: fit_def)

lemma recomputeSizes_keys [simp]: "map_keys (rn_nodes (recomputeSizes r)) = map_keys (rn_nodes r)"
  by (simp add: recomputeSizes_def map_keys_def comp_def split_def)

lemma recomputeSizes_other [simp]:
  "rn_edges (recomputeSizes r) = rn_edges r" "rn_kind (recomputeSizes r) = rn_kind r"
  "rn_destroyed (recomputeSizes r) = rn_destroyed r" "rn_camera (recomputeSizes r) = rn_camera r"
  by (simp_all add: recomputeSizes_def)

lemma syncNode_other [simp]:
  "rn_edges (syncNode i r) = rn_edges r" "rn_kind (syncNode i r) = rn_kind r"
  "rn_destroyed (syncNode i r) = rn_destroyed r"
  by (simp_all add: syncNode_def Let_def)

lemma fold_syncNode_other [simp]:
  "rn_edges (fold syncNode is r) = rn_edges r" "rn_kind (fold syncNode is r) = rn_kind r"
  "rn_destroyed (fold syncNode is r) = rn_destroyed r"
  by (induction "is" arbitrary: r) simp_all

lemma set_map_keys_update [simp]: "set (map_keys (AList.update k v m)) = insert k (set (map_keys m))"
  by (rule js_map.keys_put)

lemma keys_syncNodes:
  "set (map_keys (rn_nodes (fold syncNode items r))) = set (map_keys (rn_nodes r)) \<union> i_id ` set items"
  by (induction items arbitrary: r) (auto simp: syncNode_def Let_def)

lemma keys_onNodesChanged:
  "\<not> rn_destroyed r \<Longrightarrow> set (map_keys (rn_nodes (onNodesChanged t items r))) =
     set (map_keys (rn_nodes r)) \<union> i_id ` set items"
  by (simp add: onNodesChanged_def Let_def keys_syncNodes)

lemma keys_onNodesRemoved:
  "\<not> rn_destroyed r \<Longrightarrow> set (map_keys (rn_nodes (onNodesRemoved t ids r))) =
     set (map_keys (rn_nodes r)) - set ids"
proof -
  have "map_keys (rn_nodes (recomputeSizes (r\<lparr>rn_nodes := m\<rparr>))) = map_keys m" for m
    by simp
  then show "\<not> rn_destroyed r \<Longrightarrow> ?thesis"
    by (simp add: onNodesRemoved_def Let_def js_map.keys_del_all)
qed

lemma keys_onEdgesChanged:
  "\<not> rn_destroyed r \<Longrightarrow> set (map_keys (rn_edges (onEdgesChanged items r))) =
     set (map_keys (rn_edges r)) \<union> j_id ` set items"
proof -
  have "set (map_keys (rn_edges (fold syncEdge items r))) =
      set (map_keys (rn_edges r)) \<union> j_id ` set items"
    by (induction items arbitrary: r) (auto simp: syncEdge_def Let_def)
  then show "\<not> rn_destroyed r \<Longrightarrow> ?thesis" by (simp add: onEdgesChanged_def)
qed

lemma keys_onEdgesRemoved:
  "\<not> rn_destroyed r \<Longrightarrow> set (map_keys (rn_edges (onEdgesRemoved ids r))) =
     set (map_keys (rn_edges r)) - set ids"
  by (simp add: onEdgesRemoved_def js_map.keys_del_all)

subsection \<open>Coordinates\<close>

lemma DOM_canvas_inverse:
  assumes "cam_scale (rn_camera r) \<noteq> 0"
  shows "DOMtoCanvas r (canvasToDOM r p) = p" and "canvasToDOM r (DOMtoCanvas r p) = p"
  using assms by (simp_all add: DOMtoCanvas_def canvasToDOM_def prod_eq_iff)

text \<open>
  Lemma: the two coordinate conversions of the renderer are inverse to each other at any camera with
  a non-zero scale.
\<close>

theorem coordinates_roundtrip:
  assumes "cam_scale (rn_camera r) \<noteq> 0"
  shows "DOMtoCanvas r (canvasToDOM r p) = p \<and> canvasToDOM r (DOMtoCanvas r p) = p"
  using DOM_canvas_inverse [OF assms] by simp

definition sample_renderer :: renderer where
  "sample_renderer =
     \<lparr> rn_kind = GLKind, rn_ownsLayout = False, rn_rawMode = False, rn_nodes = [], rn_edges = [],
       rn_camera = \<lparr> cam_cx = 0, cam_cy = 0, cam_scale = 1 \<rparr>, rn_anim = None,
       rn_viewW = 800, rn_viewH = 600, rn_options = getNetworkOptions True 0, rn_valueRange = None,
       rn_particles = [], rn_lastFrameMs = 0, rn_selected = None, rn_nodesDirty = True,
       rn_edgesDirty = True, rn_hitDirty = True, rn_overlayDirty = True, rn_drawQueued = False,
       rn_destroyed = False, rn_didInitialFit = False, rn_userMovedCamera = False,
       rn_cachedNodeCount = 0, rn_hitGrid = None \<rparr>"

theorem coordinates_roundtrip_witness:
  "DOMtoCanvas sample_renderer (canvasToDOM sample_renderer (3, 4)) = (3, 4)"
  using coordinates_roundtrip [of sample_renderer "(3, 4)"] by (simp add: sample_renderer_def)

text \<open>
  Lemma: a wheel step keeps the graph point under the pointer where it is on the screen, and the
  scale inside 0.05 .. 10.
\<close>

theorem wheel_keeps_point:
  assumes "0 < cam_scale (rn_camera r)"
  shows "canvasToDOM (wheel_zoom p dy r) (DOMtoCanvas r p) = p
    \<and> 5 / 100 \<le> cam_scale (rn_camera (wheel_zoom p dy r))
    \<and> cam_scale (rn_camera (wheel_zoom p dy r)) \<le> 10"
proof -
  let ?ns = "min 10 (max (5 / 100) (cam_scale (rn_camera r) * exp (- dy * (15 / 10000))))"
  have "0 < ?ns" by simp
  then have "?ns \<noteq> 0" by linarith
  then show ?thesis
    by (simp add: wheel_zoom_def Let_def canvasToDOM_def prod_eq_iff)
qed

theorem wheel_keeps_point_witness:
  "canvasToDOM (wheel_zoom (10, 20) 100 sample_renderer) (DOMtoCanvas sample_renderer (10, 20)) = (10, 20)"
  using wheel_keeps_point [of sample_renderer "(10, 20)" 100] by (simp add: sample_renderer_def)

subsection \<open>Sizes\<close>

lemma node_size_range: "12 \<le> node_size rng b \<and> node_size rng b \<le> 30"
  by (auto simp: node_size_def split: option.splits)

lemma clamp01_mono: "x \<le> y \<Longrightarrow> max 0 (min 1 x) \<le> max 0 (min 1 (y :: real))"
  by (simp add: max_def min_def)

lemma node_size_circle: "\<not> b_isGroup b \<Longrightarrow> 20 \<le> node_size rng b"
  by (auto simp: node_size_def split: option.splits)

lemma node_size_mono:
  assumes "\<not> b_isGroup a" and "\<not> b_isGroup a'" and "b_value a = Some u" and "b_value a' = Some v"
    and "u \<le> v"
  shows "node_size rng a \<le> node_size rng a'"
proof (cases rng)
  case None
  then show ?thesis using assms by (simp add: node_size_def)
next
  case (Some p)
  obtain lo hi where p: "p = (lo, hi)" by (cases p)
  have frac: "(u - lo) / (hi - lo) \<le> (v - lo) / (hi - lo)" if "\<not> hi \<le> lo"
    using that assms(5) by (intro divide_right_mono) simp_all
  have "max 0 (min 1 ((u - lo) / (hi - lo))) \<le> max 0 (min 1 ((v - lo) / (hi - lo)))" if "\<not> hi \<le> lo"
    by (rule clamp01_mono [OF frac [OF that]])
  then show ?thesis by (cases "hi \<le> lo") (simp_all add: node_size_def Some p assms)
qed

text \<open>
  Lemma: after a sizing pass every node's radius is 12 for a group box and otherwise between 20 and 30,
  and for two hosts in the same pass the one with more traffic is never drawn smaller.
\<close>

theorem sizes_bounded_monotone:
  assumes "(k, b) \<in> set (rn_nodes (recomputeSizes r))" and "(k', b') \<in> set (rn_nodes (recomputeSizes r))"
  shows "12 \<le> b_size b \<and> b_size b \<le> 30
    \<and> (\<not> b_isGroup b \<longrightarrow> \<not> b_isGroup b' \<longrightarrow> b_value b = Some u \<longrightarrow> b_value b' = Some v \<longrightarrow> u \<le> v
        \<longrightarrow> b_size b \<le> b_size b')"
proof -
  obtain a a' where a: "b = a\<lparr>b_size := node_size (size_domain r) a\<rparr>"
    and a': "b' = a'\<lparr>b_size := node_size (size_domain r) a'\<rparr>"
    using assms by (auto simp: recomputeSizes_def)
  have "node_size (size_domain r) a \<le> node_size (size_domain r) a'"
    if "\<not> b_isGroup a" "\<not> b_isGroup a'" "b_value a = Some u" "b_value a' = Some v" "u \<le> v"
    using that by (rule node_size_mono)
  then show ?thesis using node_size_range [of "size_domain r" a] by (simp add: a a')
qed

definition sized_sample :: renderer where
  "sized_sample = sample_renderer\<lparr>rn_nodes :=
     [(''a'', new_body_node\<lparr>b_value := Some 1\<rparr>), (''b'', new_body_node\<lparr>b_value := Some 3\<rparr>)]\<rparr>"

theorem sizes_bounded_monotone_witness:
  "\<exists>b b'. (''a'', b) \<in> set (rn_nodes (recomputeSizes sized_sample))
     \<and> (''b'', b') \<in> set (rn_nodes (recomputeSizes sized_sample)) \<and> b_size b \<le> b_size b'"
proof -
  have ns: "rn_nodes (recomputeSizes sized_sample) =
    [(''a'', new_body_node\<lparr>b_value := Some 1, b_size := 20\<rparr>),
     (''b'', new_body_node\<lparr>b_value := Some 3, b_size := 30\<rparr>)]"
    by (simp add: recomputeSizes_def sized_sample_def sample_renderer_def size_domain_def
        node_values_def map_filter_def node_size_def new_body_node_def)
  from sizes_bounded_monotone
    [of "''a''" "new_body_node\<lparr>b_value := Some 1, b_size := 20\<rparr>" sized_sample
        "''b''" "new_body_node\<lparr>b_value := Some 3, b_size := 30\<rparr>" 1 3]
  show ?thesis unfolding ns by (auto simp: new_body_node_def)
qed

subsection \<open>Fit\<close>

lemma fold_min_le: "fold min xs (a :: real) \<le> a \<and> (\<forall>x \<in> set xs. fold min xs a \<le> x)"
proof (induction xs arbitrary: a)
  case Nil
  then show ?case by simp
next
  case (Cons x xs)
  from Cons.IH [of "min x a"] show ?case by auto
qed

lemma fold_max_ge: "(a :: real) \<le> fold max xs a \<and> (\<forall>x \<in> set xs. x \<le> fold max xs a)"
proof (induction xs arbitrary: a)
  case Nil
  then show ?case by simp
next
  case (Cons x xs)
  from Cons.IH [of "max x a"] show ?case by auto
qed

lemma bounds_contain:
  assumes "bounds ns = ((minX, maxX), (minY, maxY))" and "(k, n) \<in> set ns"
  shows "minX \<le> b_x n \<and> b_x n \<le> maxX \<and> minY \<le> b_y n \<and> b_y n \<le> maxY"
proof -
  obtain p ps where ns: "ns = p # ps" using assms(2) by (cases ns) auto
  have "n = snd p \<or> n \<in> snd ` set ps" using assms(2) by (force simp: ns)
  then show ?thesis using assms(1)
      fold_min_le [of "map (b_x \<circ> snd) ps" "b_x (snd p)"] fold_max_ge [of "b_x (snd p)" "map (b_x \<circ> snd) ps"]
      fold_min_le [of "map (b_y \<circ> snd) ps" "b_y (snd p)"] fold_max_ge [of "b_y (snd p)" "map (b_y \<circ> snd) ps"]
    by (auto simp: bounds_def Let_def ns)
qed

lemma centred_inside:
  fixes lo hi s v x :: real
  assumes "lo \<le> x" and "x \<le> hi" and "0 < s" and "s \<le> v / max (hi - lo + 160) 1" and "0 < v"
  shows "0 \<le> (x - (lo + hi) / 2) * s + v / 2 \<and> (x - (lo + hi) / 2) * s + v / 2 \<le> v"
proof -
  have w: "1 \<le> hi - lo + 160" using assms by linarith
  then have "s \<le> v / (hi - lo + 160)" using assms(4) by (simp add: max_absorb1)
  then have "s * (hi - lo + 160) \<le> v" using w by (simp add: pos_le_divide_eq)
  moreover have "\<bar>x - (lo + hi) / 2\<bar> \<le> (hi - lo) / 2" using assms by (simp add: abs_le_iff field_simps)
  then have "\<bar>(x - (lo + hi) / 2) * s\<bar> \<le> (hi - lo) / 2 * s"
    using assms(3) by (simp add: abs_mult mult_right_mono)
  moreover have "(hi - lo) / 2 * s \<le> s * (hi - lo + 160) / 2"
    using assms(3) by (simp add: field_simps)
  ultimately have "\<bar>(x - (lo + hi) / 2) * s\<bar> \<le> v / 2" by linarith
  then show ?thesis by (simp add: abs_le_iff) linarith
qed

text \<open>
  Lemma: fitting without animation puts every node of the graph inside the viewport.
\<close>

theorem fit_shows_all:
  assumes "(k, n) \<in> set (rn_nodes r)" and "0 < rn_viewW r" and "0 < rn_viewH r"
  shows "let (sx, sy) = canvasToDOM (fit t None r) (b_x n, b_y n)
         in 0 \<le> sx \<and> sx \<le> rn_viewW r \<and> 0 \<le> sy \<and> sy \<le> rn_viewH r"
proof -
  obtain minX maxX minY maxY where b: "bounds (rn_nodes r) = ((minX, maxX), (minY, maxY))"
    by (metis surj_pair)
  note inb = bounds_contain [OF b assms(1)]
  define s where "s = min 2 (min (rn_viewW r / max (maxX - minX + 160) 1)
      (rn_viewH r / max (maxY - minY + 160) 1))"
  have s0: "0 < s" using assms(2,3) by (simp add: s_def max_def)
  have sW: "s \<le> rn_viewW r / max (maxX - minX + 160) 1"
    and sH: "s \<le> rn_viewH r / max (maxY - minY + 160) 1" by (simp_all add: s_def)
  have "0 \<le> (b_x n - (minX + maxX) / 2) * s + rn_viewW r / 2
      \<and> (b_x n - (minX + maxX) / 2) * s + rn_viewW r / 2 \<le> rn_viewW r"
    by (rule centred_inside) (use inb s0 sW assms(2) in simp_all)
  moreover have "0 \<le> (b_y n - (minY + maxY) / 2) * s + rn_viewH r / 2
      \<and> (b_y n - (minY + maxY) / 2) * s + rn_viewH r / 2 \<le> rn_viewH r"
    by (rule centred_inside) (use inb s0 sH assms(3) in simp_all)
  moreover have "rn_nodes r \<noteq> []" using assms(1) by auto
  ultimately show ?thesis
    by (simp add: fit_def moveCamera_def fit_camera_def b canvasToDOM_def Let_def s_def [symmetric])
qed

theorem fit_shows_all_witness:
  "let (sx, sy) = canvasToDOM (fit 0 None sized_sample) (0, 0) in 0 \<le> sx \<and> sx \<le> 800 \<and> 0 \<le> sy \<and> sy \<le> 600"
  using fit_shows_all [of "''a''" "new_body_node\<lparr>b_value := Some 1\<rparr>" sized_sample 0]
  by (simp add: sized_sample_def sample_renderer_def new_body_node_def)

subsection \<open>Camera animation\<close>

lemma ease_range: "0 \<le> t \<Longrightarrow> t \<le> 1 \<Longrightarrow> 0 \<le> easeInOutQuad t \<and> easeInOutQuad t \<le> 1"
proof -
  assume t: "0 \<le> t" "t \<le> 1"
  have "2 * t * t \<le> 1" if "t < 1 / 2" using t that
    using mult_mono [of t "1 / 2" t "1 / 2"] by simp
  moreover have "(- 2 * t + 2) ^ 2 \<le> 1" if "\<not> t < 1 / 2"
    using t that by (intro power_le_one) auto
  ultimately show ?thesis using t by (auto simp: easeInOutQuad_def)
qed

text \<open>
  Lemma: an animation ends exactly on its target: the first step at or after its duration puts the
  camera there and clears the animation.
\<close>

theorem animation_lands:
  assumes "rn_anim r = Some a" and "0 < an_duration a" and "an_start a + an_duration a \<le> t"
  shows "rn_camera (snd (stepAnim t r)) = an_to a \<and> rn_anim (snd (stepAnim t r)) = None"
proof -
  have "1 \<le> (t - an_start a) / an_duration a" using assms by (simp add: field_simps)
  then show ?thesis using assms(1)
    by (simp add: stepAnim_def Let_def easeInOutQuad_def min_def)
qed

theorem animation_lands_witness:
  "rn_anim (snd (stepAnim 1000 (moveTo 500 None (Some 2) (Some 400) sample_renderer))) = None"
  using animation_lands [of "moveTo 500 None (Some 2) (Some 400) sample_renderer" _ 1000]
  by (simp add: moveTo_def moveCamera_def redraw_def sample_renderer_def)

subsection \<open>Particles\<close>

lemma stepParticles_progress: "\<forall>p \<in> set (rn_particles (snd (stepParticles r))). gp_progress p < 1"
  by (auto simp: stepParticles_def Let_def)

lemma particleCap_le: "particleCap r \<le> MAX_PARTICLES"
  by (simp add: particleCap_def Let_def MAX_PARTICLES_def)

lemma spawn_cap: "length (rn_particles (spawnParticles flows r)) \<le> MAX_PARTICLES"
  using particleCap_le [of r] by (simp add: spawnParticles_def)

end
