(* ===== verification/GraphState.thy ===== *)
theory GraphState
  imports Packets Renderer
begin

text \<open>
  The live graph of \<^verbatim>\<open>static/app.js\<close>: the two \<^verbatim>\<open>vis.DataSet\<close>s and the renderer that
  mirrors them, the per-item caches, smooth position animation, focus mode and flow particles.
  A \<^verbatim>\<open>DataSet.update\<close> merges each item into the stored one and then tells the renderer which
  items were added and which were updated; the renderer reads the merged items.
\<close>

section \<open>State\<close>

record traffic_flow =
  tf_edgeId :: string
  tf_from :: string
  tf_to :: string
  tf_packets :: nat
  tf_bytes :: nat
  tf_protocol :: string
  tf_color :: string

record active_flow =
  af_edgeId :: string
  af_from :: string
  af_to :: string
  af_color :: string
  af_progress :: real
  af_speed :: real

record island =
  is_x :: real
  is_y :: real
  is_radius :: real
  is_cidr :: string
  is_vlanId :: nat

record traffic_event =
  te_src :: string
  te_dst :: string
  te_protocol :: string
  te_color :: string
  te_timestamp :: real
  te_bytes :: nat
  te_packets :: nat

text \<open>A topology message: a full snapshot, one chunk of it, or a delta.\<close>

record graph_msg =
  m_nodes :: "vnode list"
  m_edges :: "vedge list"
  m_removedNodes :: "string list"
  m_removedEdges :: "string list"
  m_isFull :: bool
  m_partial :: bool
  m_fullDone :: bool
  m_packets :: "packet list"
  m_stats :: "(nat \<times> nat \<times> nat) option"
  m_protocolStats :: "(string \<times> nat) list option"
  m_trafficFlows :: "traffic_flow list"
  m_subnetIslands :: "island list option"
  m_valueRange :: "(real \<times> real) option"

type_synonym positions = "(string \<times> (real \<times> real)) list"

record gstate = pstate +
  network :: "renderer option"
  nodes :: "(string \<times> node_item) list"
  edges :: "(string \<times> edge_item) list"
  nodeTargetPos :: positions
  nodeRenderPos :: positions
  positionAnimationActive :: bool
  fullSyncIds :: "(string list \<times> string list) option"
  focusActive :: bool
  focusPinned :: bool
  focusKeepNodes :: "string list"
  focusKeepEdges :: "string list"
  nodeMeta :: "(string \<times> vnode) list"
  edgeMeta :: "(string \<times> vedge) list"
  lastNodeSig :: "(string \<times> string) list"
  lastEdgeSig :: "(string \<times> string) list"
  lastHoverNodeId :: "string option"
  detailsNodeId :: "string option"
  nodeDetailPending :: "string list"
  currentTier :: "tier option"
  edgeLabelsVisible :: bool
  activeFlows :: "active_flow list"
  flowAnimationActive :: bool
  updateThrottleMs :: real
  lastUpdateTime :: real
  pendingUpdate :: "graph_msg option"
  updateScheduled :: bool
  updateTimerSet :: bool
  subnetIslands :: "island list"
  currentClusterLayout :: string
  nodeOverrides :: "(string \<times> override) list"
  visValueRange :: "(real \<times> real) option"
  doc_hidden :: bool
  gm_active :: bool
  trafficEvents :: "traffic_event list"

definition MAX_FLOW_PARTICLES :: nat where "MAX_FLOW_PARTICLES = 220"
definition FLOW_MIN_PACKETS :: nat where "FLOW_MIN_PACKETS = 3"
definition POSITION_EASE :: real where "POSITION_EASE = 28 / 100"
definition EDGE_LABEL_MAX_NODES :: nat where "EDGE_LABEL_MAX_NODES = 100"

section \<open>The renderer behind the client\<close>

definition with_net :: "(renderer \<Rightarrow> renderer) \<Rightarrow> 'a gstate_scheme \<Rightarrow> 'a gstate_scheme" where
  "with_net f s = s\<lparr>network := map_option f (network s)\<rparr>"

definition net_is :: "(renderer \<Rightarrow> bool) \<Rightarrow> 'a gstate_scheme \<Rightarrow> bool" where
  "net_is P s = (case network s of None \<Rightarrow> False | Some r \<Rightarrow> P r)"

text \<open>\<^verbatim>\<open>typeof network.markSceneDirty === 'function' ? markSceneDirty(kind) : redraw()\<close>\<close>

definition mark_or_redraw :: "string \<Rightarrow> renderer \<Rightarrow> renderer" where
  "mark_or_redraw kind r = (if hasMarkSceneDirty r then markSceneDirty kind r else redraw r)"

definition overlay_or_redraw :: "renderer \<Rightarrow> renderer" where
  "overlay_or_redraw r = (if hasInvalidateOverlay r then invalidateOverlay r else redraw r)"

definition body_nodes :: "'a gstate_scheme \<Rightarrow> (string \<times> body_node) list" where
  "body_nodes s = (case network s of None \<Rightarrow> [] | Some r \<Rightarrow> rn_nodes r)"

section \<open>DataSets\<close>

definition merge_node :: "node_item option \<Rightarrow> node_item \<Rightarrow> node_item" where
  "merge_node old item =
     (case old of
        None \<Rightarrow> item
      | Some o' \<Rightarrow> item\<lparr>i_pos := (case i_pos item of None \<Rightarrow> i_pos o' | Some p \<Rightarrow> Some p)\<rparr>)"

definition put_node :: "string \<Rightarrow> node_item \<Rightarrow> (string \<times> node_item) list \<Rightarrow> (string \<times> node_item) list" where
  "put_node k item ds = AList.update k (merge_node (map_of ds k) item) ds"

interpretation node_ds: keyed_store map_of put_node AList.delete map_keys merge_node
  by unfold_locales (auto simp: put_node_def map_keys_def map_of_eq_None_iff image_iff)

text \<open>Ids of a batch that are new to the DataSet, and the others (repeats included).\<close>

fun split_ids :: "string list \<Rightarrow> string list \<Rightarrow> string list \<times> string list" where
  "split_ids present [] = ([], [])"
| "split_ids present (k # ks) =
     (if k \<in> set present then (let (a, u) = split_ids present ks in (a, k # u))
      else (let (a, u) = split_ids (k # present) ks in (k # a, u)))"

definition items_of :: "(string \<times> 'b) list \<Rightarrow> string list \<Rightarrow> 'b list" where
  "items_of ds ks = List.map_filter (map_of ds) ks"

definition nodes_put :: "node_item list \<Rightarrow> 'a gstate_scheme \<Rightarrow> 'a gstate_scheme" where
  "nodes_put items s =
     (let (added, updated) = split_ids (map_keys (nodes s)) (map i_id items);
          ds = fold (\<lambda>i. put_node (i_id i) i) items (nodes s);
          s = s\<lparr>nodes := ds\<rparr>;
          s = (if added = [] then s else with_net (onNodesChanged (now s) (items_of ds added)) s)
      in if updated = [] then s else with_net (onNodesChanged (now s) (items_of ds updated)) s)"

definition edges_put :: "edge_item list \<Rightarrow> 'a gstate_scheme \<Rightarrow> 'a gstate_scheme" where
  "edges_put items s =
     (let (added, updated) = split_ids (map_keys (edges s)) (map j_id items);
          ds = fold (\<lambda>i. AList.update (j_id i) i) items (edges s);
          s = s\<lparr>edges := ds\<rparr>;
          s = (if added = [] then s else with_net (onEdgesChanged (items_of ds added)) s)
      in if updated = [] then s else with_net (onEdgesChanged (items_of ds updated)) s)"

definition nodes_remove :: "string list \<Rightarrow> 'a gstate_scheme \<Rightarrow> 'a gstate_scheme" where
  "nodes_remove ids s =
     (let gone = filter (\<lambda>k. k \<in> set (map_keys (nodes s))) (remdups ids);
          s = s\<lparr>nodes := fold AList.delete ids (nodes s)\<rparr>
      in if gone = [] then s else with_net (onNodesRemoved (now s) gone) s)"

definition edges_remove :: "string list \<Rightarrow> 'a gstate_scheme \<Rightarrow> 'a gstate_scheme" where
  "edges_remove ids s =
     (let gone = filter (\<lambda>k. k \<in> set (map_keys (edges s))) (remdups ids);
          s = s\<lparr>edges := fold AList.delete ids (edges s)\<rparr>
      in if gone = [] then s else with_net (onEdgesRemoved gone) s)"

section \<open>Caches\<close>

definition forgetNodePosition :: "string \<Rightarrow> 'a gstate_scheme \<Rightarrow> 'a gstate_scheme" where
  "forgetNodePosition k s =
     s\<lparr>nodeTargetPos := AList.delete k (nodeTargetPos s),
       nodeRenderPos := AList.delete k (nodeRenderPos s),
       nodeMeta := AList.delete k (nodeMeta s),
       lastNodeSig := AList.delete k (lastNodeSig s)\<rparr>"

definition forgetEdge :: "string \<Rightarrow> 'a gstate_scheme \<Rightarrow> 'a gstate_scheme" where
  "forgetEdge k s =
     s\<lparr>edgeMeta := AList.delete k (edgeMeta s), lastEdgeSig := AList.delete k (lastEdgeSig s)\<rparr>"

definition resetGraphCaches :: "'a gstate_scheme \<Rightarrow> 'a gstate_scheme" where
  "resetGraphCaches s =
     s\<lparr>nodeTargetPos := [], nodeRenderPos := [], nodeMeta := [], edgeMeta := [],
       lastNodeSig := [], lastEdgeSig := []\<rparr>"

section \<open>Position animation\<close>

definition startPositionAnimation :: "'a gstate_scheme \<Rightarrow> 'a gstate_scheme" where
  "startPositionAnimation s =
     (if positionAnimationActive s \<or> network s = None then s
      else emit (NextFrame PositionFrames) (s\<lparr>positionAnimationActive := True\<rparr>))"

definition set_body_pos :: "string \<Rightarrow> real \<times> real \<Rightarrow> renderer \<Rightarrow> renderer" where
  "set_body_pos k p r =
     r\<lparr>rn_nodes := AList.map_entry k (\<lambda>b. b\<lparr>b_x := fst p, b_y := snd p\<rparr>) (rn_nodes r)\<rparr>"

definition dist2 :: "real \<times> real \<Rightarrow> real \<times> real \<Rightarrow> real" where
  "dist2 a b = (fst a - fst b) * (fst a - fst b) + (snd a - snd b) * (snd a - snd b)"

definition ease_toward :: "real \<times> real \<Rightarrow> real \<times> real \<Rightarrow> real \<times> real" where
  "ease_toward t r = (fst r + (fst t - fst r) * POSITION_EASE, snd r + (snd t - snd r) * POSITION_EASE)"

text \<open>One entry of the target map: new rendered position, still moving, position written.\<close>

definition ease_one :: "bool \<Rightarrow> real \<times> real \<Rightarrow> (real \<times> real) option \<Rightarrow> (real \<times> real) \<times> bool \<times> bool" where
  "ease_one hidden t rendered =
     (let r = (case rendered of None \<Rightarrow> t | Some r \<Rightarrow> r)
      in if hidden \<or> dist2 t r < 1 / 4 then (t, False, r \<noteq> t)
         else (ease_toward t r, True, True))"

definition ease_step ::
    "bool \<Rightarrow> string \<times> (real \<times> real) \<Rightarrow> positions \<times> renderer \<times> bool \<times> bool
     \<Rightarrow> positions \<times> renderer \<times> bool \<times> bool" where
  "ease_step hidden e acc =
     (let (k, t) = e; (rp, net, moving, moved) = acc;
          (p, still, wrote) = ease_one hidden t (map_of rp k);
          inBody = (map_of (rn_nodes net) k \<noteq> None)
      in (AList.update k p rp, if wrote then set_body_pos k p net else net,
          moving \<or> still, moved \<or> (wrote \<and> inBody)))"

definition stepPositionAnimation :: "'a gstate_scheme \<Rightarrow> 'a gstate_scheme" where
  "stepPositionAnimation s =
     (case network s of
        None \<Rightarrow> s\<lparr>positionAnimationActive := False\<rparr>
      | Some net \<Rightarrow>
          let hidden = doc_hidden s;
              (rp, net, moving, moved) =
                fold (ease_step hidden) (nodeTargetPos s) (nodeRenderPos s, net, False, False);
              net = (if moved then mark_or_redraw ''nodes'' net else net);
              s = s\<lparr>nodeRenderPos := rp, network := Some net\<rparr>
          in if moving \<and> \<not> hidden then emit (NextFrame PositionFrames) s
             else s\<lparr>positionAnimationActive := False\<rparr>)"

definition visibility_changed :: "bool \<Rightarrow> 'a gstate_scheme \<Rightarrow> 'a gstate_scheme" where
  "visibility_changed hidden s =
     (let s = s\<lparr>doc_hidden := hidden\<rparr> in if hidden then s else startPositionAnimation s)"

section \<open>Focus\<close>

definition dim_node :: "'a gstate_scheme \<Rightarrow> string \<times> body_node \<Rightarrow> string \<times> body_node" where
  "dim_node s kb =
     (fst kb, (snd kb)\<lparr>b_opacity := (if \<not> focusActive s \<or> fst kb \<in> set (focusKeepNodes s) then 1 else 12 / 100)\<rparr>)"

definition dim_edge :: "'a gstate_scheme \<Rightarrow> string \<times> body_edge \<Rightarrow> string \<times> body_edge" where
  "dim_edge s kb =
     (fst kb, (snd kb)\<lparr>be_opacity := (if \<not> focusActive s \<or> fst kb \<in> set (focusKeepEdges s) then 1 else 6 / 100)\<rparr>)"

definition applyFocusDim :: "'a gstate_scheme \<Rightarrow> 'a gstate_scheme" where
  "applyFocusDim s =
     with_net (\<lambda>r. mark_or_redraw ''all''
       (r\<lparr>rn_nodes := map (dim_node s) (rn_nodes r), rn_edges := map (dim_edge s) (rn_edges r)\<rparr>)) s"

definition focusNode :: "string \<Rightarrow> bool \<Rightarrow> 'a gstate_scheme \<Rightarrow> 'a gstate_scheme" where
  "focusNode nodeId pin s =
     (case network s of
        None \<Rightarrow> s
      | Some r \<Rightarrow>
          if map_of (nodes s) nodeId = None then s
          else applyFocusDim
            (s\<lparr>focusPinned := pin, focusActive := True,
               focusKeepNodes := fold set_add (getConnectedNodes r nodeId) [nodeId],
               focusKeepEdges := fold set_add (getConnectedEdges r nodeId) []\<rparr>))"

definition clearFocus :: "'a gstate_scheme \<Rightarrow> 'a gstate_scheme" where
  "clearFocus s =
     (if \<not> focusActive s then s
      else applyFocusDim
        (s\<lparr>focusActive := False, focusPinned := False, focusKeepNodes := [], focusKeepEdges := []\<rparr>))"

section \<open>Flow particles\<close>

definition flowParticleSpeed :: "nat \<Rightarrow> real" where
  "flowParticleSpeed n =
     min (5 / 100) (max (5 / 1000)
       (5 / 1000 + ln (real (if n = 0 then 1 else n) + 1) / ln 10 * (14 / 1000)))"

definition flow_color :: "'a gstate_scheme \<Rightarrow> string \<Rightarrow> traffic_flow \<Rightarrow> string" where
  "flow_color s fallback f = or_else (tf_color f) (lookup_or (PROTOCOL_COLORS s) (tf_protocol f) fallback)"

definition startFlowAnimation :: "'a gstate_scheme \<Rightarrow> 'a gstate_scheme" where
  "startFlowAnimation s =
     (if flowAnimationActive s \<or> network s = None then s
      else emit (NextFrame FlowFrames) (s\<lparr>flowAnimationActive := True\<rparr>))"

definition feedFlowParticles :: "traffic_flow list \<Rightarrow> 'a gstate_scheme \<Rightarrow> 'a gstate_scheme" where
  "feedFlowParticles flows s =
     (if net_is (\<lambda>r. rn_ownsLayout r \<and> \<not> hasSpawnParticles r) s then s
      else
        let significant = filter (\<lambda>f. FLOW_MIN_PACKETS \<le> tf_packets f) flows
        in if significant = [] then s
           else if net_is hasSpawnParticles s
           then with_net (spawnParticles
                  (map (\<lambda>f. \<lparr> pt_from = tf_from f, pt_to = tf_to f, pt_color = flow_color s ''#7fd3ff'' f,
                             pt_speed = flowParticleSpeed (tf_packets f) \<rparr>) significant)) s
           else
             let visible = filter (\<lambda>f. map_of (nodes s) (tf_from f) \<noteq> None \<and> map_of (nodes s) (tf_to f) \<noteq> None)
                             significant;
                 fresh = map (\<lambda>f. \<lparr> af_edgeId = tf_edgeId f, af_from = tf_from f, af_to = tf_to f,
                                   af_color = flow_color s ''#7fd3ff'' f, af_progress = 0,
                                   af_speed = flowParticleSpeed (tf_packets f) \<rparr>) visible
             in startFlowAnimation
                  (s\<lparr>activeFlows := keep_newest MAX_FLOW_PARTICLES (activeFlows s @ fresh)\<rparr>))"

definition stepFlowAnimation :: "'a gstate_scheme \<Rightarrow> 'a gstate_scheme" where
  "stepFlowAnimation s =
     (if network s = None \<or> activeFlows s = [] then s\<lparr>flowAnimationActive := False\<rparr>
      else
        let s = s\<lparr>activeFlows := filter (\<lambda>f. af_progress f < 1)
                    (map (\<lambda>f. f\<lparr>af_progress := af_progress f + af_speed f\<rparr>) (activeFlows s))\<rparr>
        in if activeFlows s \<noteq> [] then emit (NextFrame FlowFrames) s
           else s\<lparr>flowAnimationActive := False\<rparr>)"

section \<open>The renderer mirrors the DataSets\<close>

definition keyed_by :: "('v \<Rightarrow> string) \<Rightarrow> (string \<times> 'v) list \<Rightarrow> bool" where
  "keyed_by kf ds \<longleftrightarrow> (\<forall>k v. map_of ds k = Some v \<longrightarrow> kf v = k)"

definition mirrored :: "'a gstate_scheme \<Rightarrow> bool" where
  "mirrored s \<longleftrightarrow> keyed_by i_id (nodes s) \<and> keyed_by j_id (edges s) \<and>
     (\<forall>r. network s = Some r \<longrightarrow> \<not> rn_destroyed r \<and>
        set (map_keys (rn_nodes r)) = set (map_keys (nodes s)) \<and>
        set (map_keys (rn_edges r)) = set (map_keys (edges s)))"

lemma merge_node_id [simp]: "i_id (merge_node old i) = i_id i"
  by (simp add: merge_node_def split: option.splits)

lemma keyed_by_put_node: "keyed_by i_id ds \<Longrightarrow> keyed_by i_id (put_node (i_id i) i ds)"
  unfolding keyed_by_def node_ds.get_put by (metis merge_node_id option.inject)

lemma keyed_by_put_nodes:
  "keyed_by i_id ds \<Longrightarrow> keyed_by i_id (fold (\<lambda>i. put_node (i_id i) i) items ds)"
  by (induction items arbitrary: ds) (simp_all add: keyed_by_put_node)

lemma keyed_by_put_edge: "keyed_by kf ds \<Longrightarrow> keyed_by kf (AList.update (kf i) i ds)"
  unfolding keyed_by_def js_map.get_put by (metis option.inject)

lemma keyed_by_put_edges:
  "keyed_by kf ds \<Longrightarrow> keyed_by kf (fold (\<lambda>i. AList.update (kf i) i) items ds)"
  by (induction items arbitrary: ds) (simp_all add: keyed_by_put_edge)

lemma keyed_by_del: "keyed_by kf ds \<Longrightarrow> keyed_by kf (fold AList.delete ks ds)"
  unfolding keyed_by_def js_map.get_del_all by (metis option.distinct(1))

lemma split_ids_set:
  "split_ids present ks = (a, u) \<Longrightarrow> set a \<union> set u = set ks \<and> set u \<subseteq> set present \<union> set a \<and> set a \<inter> set present = {}"
proof (induction ks arbitrary: present a u)
  case Nil
  then show ?case by simp
next
  case (Cons k ks)
  show ?case
  proof (cases "k \<in> set present")
    case True
    obtain a' u' where s: "split_ids present ks = (a', u')" by fastforce
    then show ?thesis using Cons.IH [OF s] Cons.prems True by auto
  next
    case False
    obtain a' u' where s: "split_ids (k # present) ks = (a', u')" by fastforce
    then show ?thesis using Cons.IH [OF s] Cons.prems False by auto
  qed
qed

lemma items_of_ids:
  assumes "keyed_by kf ds" and "set ks \<subseteq> set (map_keys ds)"
  shows "kf ` set (items_of ds ks) = set ks"
proof -
  have m: "v \<in> set (items_of ds ks) \<longleftrightarrow> (\<exists>k \<in> set ks. map_of ds k = Some v)" for v
    by (induction ks) (auto simp: items_of_def map_filter_simps split: option.splits)
  have ex: "\<exists>v. map_of ds k = Some v \<and> kf v = k" if "k \<in> set ks" for k
  proof -
    have "k \<in> set (map_keys ds)" using that assms(2) by (rule rev_subsetD)
    then have "map_of ds k \<noteq> None" by (rule js_map.keys_get [THEN iffD1])
    then show ?thesis using assms(1) unfolding keyed_by_def by blast
  qed
  show ?thesis
  proof (intro equalityI subsetI)
    fix x assume "x \<in> kf ` set (items_of ds ks)"
    then obtain v where v: "x = kf v" "v \<in> set (items_of ds ks)" by blast
    then obtain k where "k \<in> set ks" "map_of ds k = Some v" using m by blast
    then show "x \<in> set ks" using assms(1) v(1) unfolding keyed_by_def by metis
  next
    fix x assume "x \<in> set ks"
    then show "x \<in> kf ` set (items_of ds ks)" using ex [of x] m by (metis imageI)
  qed
qed

lemma with_net_fields [simp]:
  "nodes (with_net f s) = nodes s" "edges (with_net f s) = edges s"
  "network (with_net f s) = map_option f (network s)" "now (with_net f s) = now s"
  "nodeMeta (with_net f s) = nodeMeta s" "edgeMeta (with_net f s) = edgeMeta s"
  "lastNodeSig (with_net f s) = lastNodeSig s" "lastEdgeSig (with_net f s) = lastEdgeSig s"
  "nodeTargetPos (with_net f s) = nodeTargetPos s" "nodeRenderPos (with_net f s) = nodeRenderPos s"
  "fullSyncIds (with_net f s) = fullSyncIds s"
  by (simp_all add: with_net_def)

lemma onNodesChanged_other [simp]:
  "rn_edges (onNodesChanged t items r) = rn_edges r"
  "rn_destroyed (onNodesChanged t items r) = rn_destroyed r"
  "rn_kind (onNodesChanged t items r) = rn_kind r"
  by (simp_all add: onNodesChanged_def Let_def)

lemma onNodesRemoved_other [simp]:
  "rn_edges (onNodesRemoved t items r) = rn_edges r"
  "rn_destroyed (onNodesRemoved t items r) = rn_destroyed r"
  "rn_kind (onNodesRemoved t items r) = rn_kind r"
  by (simp_all add: onNodesRemoved_def Let_def)

lemma fold_syncEdge_other [simp]:
  "rn_nodes (fold syncEdge es r) = rn_nodes r" "rn_destroyed (fold syncEdge es r) = rn_destroyed r"
  "rn_kind (fold syncEdge es r) = rn_kind r"
  by (induction es arbitrary: r) (simp_all add: syncEdge_def Let_def)

lemma onEdges_other [simp]:
  "rn_nodes (onEdgesChanged items r) = rn_nodes r" "rn_destroyed (onEdgesChanged items r) = rn_destroyed r"
  "rn_nodes (onEdgesRemoved ids r) = rn_nodes r" "rn_destroyed (onEdgesRemoved ids r) = rn_destroyed r"
  "rn_kind (onEdgesChanged items r) = rn_kind r" "rn_kind (onEdgesRemoved ids r) = rn_kind r"
  by (simp_all add: onEdgesChanged_def onEdgesRemoved_def)

lemma nodes_nodes_put: "nodes (nodes_put items s) = fold (\<lambda>i. put_node (i_id i) i) items (nodes s)"
  by (simp add: nodes_put_def Let_def split: prod.splits)

lemma nodes_put_other [simp]:
  "edges (nodes_put items s) = edges s" "nodeMeta (nodes_put items s) = nodeMeta s"
  "edgeMeta (nodes_put items s) = edgeMeta s" "lastNodeSig (nodes_put items s) = lastNodeSig s"
  "lastEdgeSig (nodes_put items s) = lastEdgeSig s" "nodeTargetPos (nodes_put items s) = nodeTargetPos s"
  "nodeRenderPos (nodes_put items s) = nodeRenderPos s" "fullSyncIds (nodes_put items s) = fullSyncIds s"
  "network (nodes_put items s) = None \<longleftrightarrow> network s = None"
  by (simp_all add: nodes_put_def Let_def split: prod.splits)

lemma keys_nodes_put: "set (map_keys (nodes (nodes_put items s))) = set (map_keys (nodes s)) \<union> i_id ` set items"
  unfolding nodes_nodes_put by (rule node_ds.keys_put_all)

lemma mirrored_nodes_put:
  assumes "mirrored s"
  shows "mirrored (nodes_put items s)"
proof -
  obtain a u where sp: "split_ids (map_keys (nodes s)) (map i_id items) = (a, u)" by fastforce
  let ?ds = "fold (\<lambda>i. put_node (i_id i) i) items (nodes s)"
  have kd: "keyed_by i_id ?ds" using assms keyed_by_put_nodes by (auto simp: mirrored_def)
  have keys: "set (map_keys ?ds) = set (map_keys (nodes s)) \<union> i_id ` set items" by (rule node_ds.keys_put_all)
  have au: "set a \<union> set u = i_id ` set items" "set a \<subseteq> set (map_keys ?ds)" "set u \<subseteq> set (map_keys ?ds)"
    using split_ids_set [OF sp] keys by auto
  have ids: "i_id ` set (items_of ?ds a) = set a" "i_id ` set (items_of ?ds u) = set u"
    using items_of_ids [OF kd] au by auto
  show ?thesis using assms kd keys ids au(1)
    by (auto simp: mirrored_def nodes_put_def sp Let_def keys_onNodesChanged image_Un)
qed

lemma edges_edges_put: "edges (edges_put items s) = fold (\<lambda>i. AList.update (j_id i) i) items (edges s)"
  by (simp add: edges_put_def Let_def split: prod.splits)

lemma keys_edges_put: "set (map_keys (edges (edges_put items s))) = set (map_keys (edges s)) \<union> j_id ` set items"
  unfolding edges_edges_put by (rule js_map.keys_put_all)

lemma edges_put_other [simp]:
  "nodes (edges_put items s) = nodes s" "nodeMeta (edges_put items s) = nodeMeta s"
  "edgeMeta (edges_put items s) = edgeMeta s" "lastNodeSig (edges_put items s) = lastNodeSig s"
  "lastEdgeSig (edges_put items s) = lastEdgeSig s" "fullSyncIds (edges_put items s) = fullSyncIds s"
  "nodeTargetPos (edges_put items s) = nodeTargetPos s" "nodeRenderPos (edges_put items s) = nodeRenderPos s"
  "network (edges_put items s) = None \<longleftrightarrow> network s = None"
  by (simp_all add: edges_put_def Let_def split: prod.splits)

lemma mirrored_edges_put:
  assumes "mirrored s"
  shows "mirrored (edges_put items s)"
proof -
  obtain a u where sp: "split_ids (map_keys (edges s)) (map j_id items) = (a, u)" by fastforce
  let ?ds = "fold (\<lambda>i. AList.update (j_id i) i) items (edges s)"
  have kd: "keyed_by j_id ?ds" using assms keyed_by_put_edges by (auto simp: mirrored_def)
  have keys: "set (map_keys ?ds) = set (map_keys (edges s)) \<union> j_id ` set items" by (rule js_map.keys_put_all)
  have au: "set a \<union> set u = j_id ` set items" "set a \<subseteq> set (map_keys ?ds)" "set u \<subseteq> set (map_keys ?ds)"
    using split_ids_set [OF sp] keys by auto
  have ids: "j_id ` set (items_of ?ds a) = set a" "j_id ` set (items_of ?ds u) = set u"
    using items_of_ids [OF kd] au by auto
  show ?thesis using assms kd keys ids au(1)
    by (auto simp: mirrored_def edges_put_def sp Let_def keys_onEdgesChanged image_Un)
qed

lemma nodes_remove_fields [simp]:
  "nodes (nodes_remove ids s) = fold AList.delete ids (nodes s)" "edges (nodes_remove ids s) = edges s"
  "nodeMeta (nodes_remove ids s) = nodeMeta s" "edgeMeta (nodes_remove ids s) = edgeMeta s"
  "lastNodeSig (nodes_remove ids s) = lastNodeSig s" "lastEdgeSig (nodes_remove ids s) = lastEdgeSig s"
  "fullSyncIds (nodes_remove ids s) = fullSyncIds s"
  "network (nodes_remove ids s) = None \<longleftrightarrow> network s = None"
  by (simp_all add: nodes_remove_def Let_def)

lemma edges_remove_fields [simp]:
  "edges (edges_remove ids s) = fold AList.delete ids (edges s)" "nodes (edges_remove ids s) = nodes s"
  "nodeMeta (edges_remove ids s) = nodeMeta s" "edgeMeta (edges_remove ids s) = edgeMeta s"
  "lastNodeSig (edges_remove ids s) = lastNodeSig s" "lastEdgeSig (edges_remove ids s) = lastEdgeSig s"
  "fullSyncIds (edges_remove ids s) = fullSyncIds s"
  "network (edges_remove ids s) = None \<longleftrightarrow> network s = None"
  by (simp_all add: edges_remove_def Let_def)

lemma mirrored_nodes_remove: "mirrored s \<Longrightarrow> mirrored (nodes_remove ids s)"
  by (auto simp: mirrored_def nodes_remove_def Let_def keyed_by_del js_map.keys_del_all
      keys_onNodesRemoved filter_empty_conv)

lemma mirrored_edges_remove: "mirrored s \<Longrightarrow> mirrored (edges_remove ids s)"
  by (auto simp: mirrored_def edges_remove_def Let_def keyed_by_del js_map.keys_del_all
      keys_onEdgesRemoved filter_empty_conv)

section \<open>The easing loop reaches every target\<close>

lemma dist2_nonneg [simp]: "0 \<le> dist2 a b"
  by (simp add: dist2_def)

lemma dist2_ease: "dist2 t (ease_toward t r) = (72 / 100) ^ 2 * dist2 t r"
  by (simp add: dist2_def ease_toward_def POSITION_EASE_def power2_eq_square field_simps)

text \<open>What a frame does to one target, and to the map of rendered positions.\<close>

definition eased :: "bool \<Rightarrow> real \<times> real \<Rightarrow> (real \<times> real) option \<Rightarrow> real \<times> real" where
  "eased hidden t r = fst (ease_one hidden t r)"

definition still_moving :: "bool \<Rightarrow> real \<times> real \<Rightarrow> (real \<times> real) option \<Rightarrow> bool" where
  "still_moving hidden t r = fst (snd (ease_one hidden t r))"

lemma eased_alt:
  "eased h t r = (let q = (case r of None \<Rightarrow> t | Some q \<Rightarrow> q) in
     if h \<or> dist2 t q < 1 / 4 then t else ease_toward t q)"
  "still_moving h t r = (\<not> (h \<or> dist2 t (case r of None \<Rightarrow> t | Some q \<Rightarrow> q) < 1 / 4))"
  by (simp_all add: eased_def still_moving_def ease_one_def Let_def)

lemma ease_step_spec:
  "ease_step h (k, t) (rp, net, mv, md) = (rp', net', mv', md') \<Longrightarrow>
     rp' = AList.update k (eased h t (map_of rp k)) rp \<and> mv' = (mv \<or> still_moving h t (map_of rp k))"
  by (auto simp: ease_step_def eased_def still_moving_def Let_def split: prod.splits)

lemma fold_ease_step:
  assumes "fold (ease_step h) ts (rp, net, mv, md) = (rp', net', mv', md')" and "distinct (map fst ts)"
  shows "(\<forall>k t. (k, t) \<in> set ts \<longrightarrow> map_of rp' k = Some (eased h t (map_of rp k)))
    \<and> (\<forall>k. k \<notin> fst ` set ts \<longrightarrow> map_of rp' k = map_of rp k)
    \<and> mv' = (mv \<or> (\<exists>(k, t) \<in> set ts. still_moving h t (map_of rp k)))"
  using assms
proof (induction ts arbitrary: rp net mv md)
  case Nil
  then show ?case by simp
next
  case (Cons e ts)
  obtain k t where e: "e = (k, t)" by (cases e)
  obtain rp1 net1 mv1 md1 where st: "ease_step h (k, t) (rp, net, mv, md) = (rp1, net1, mv1, md1)"
    by (metis prod_cases4)
  note one = ease_step_spec [OF st]
  have f: "fold (ease_step h) ts (rp1, net1, mv1, md1) = (rp', net', mv', md')"
    using Cons.prems(1) by (simp add: e st)
  have fresh: "k \<notin> fst ` set ts" "distinct (map fst ts)" using Cons.prems(2) by (auto simp: e)
  then have same: "map_of rp1 k' = map_of rp k'" if "(k', t') \<in> set ts" for k' t'
    using that one by (force simp: image_iff)
  note IH = Cons.IH [OF f fresh(2)]
  show ?case
  proof (intro conjI allI impI)
    fix k' t' assume "(k', t') \<in> set (e # ts)"
    then consider "k' = k" "t' = t" | "(k', t') \<in> set ts" using e by auto
    then show "map_of rp' k' = Some (eased h t' (map_of rp k'))"
    proof cases
      case 1
      then show ?thesis using IH fresh(1) one by simp
    next
      case 2
      then show ?thesis using IH same [OF 2] by metis
    qed
  next
    fix k' assume "k' \<notin> fst ` set (e # ts)"
    then show "map_of rp' k' = map_of rp k'" using IH one by (auto simp: e)
  next
    have "(\<exists>(k', t') \<in> set ts. still_moving h t' (map_of rp1 k'))
        = (\<exists>(k', t') \<in> set ts. still_moving h t' (map_of rp k'))"
      using same by (metis (no_types, lifting) case_prodE case_prodI2 split_conv)
    then show "mv' = (mv \<or> (\<exists>(k', t') \<in> set (e # ts). still_moving h t' (map_of rp k')))"
      using IH one by (auto simp: e)
  qed
qed

lemma mark_or_redraw_fields [simp]:
  "rn_nodes (mark_or_redraw kd r) = rn_nodes r" "rn_edges (mark_or_redraw kd r) = rn_edges r"
  "rn_destroyed (mark_or_redraw kd r) = rn_destroyed r" "rn_kind (mark_or_redraw kd r) = rn_kind r"
  by (simp_all add: mark_or_redraw_def markSceneDirty_def Let_def)

lemma step_animation_spec:
  assumes "network s \<noteq> None" and "distinct (map fst (nodeTargetPos s))"
  defines "s' \<equiv> stepPositionAnimation s"
  shows "nodeTargetPos s' = nodeTargetPos s" and "network s' \<noteq> None" and "doc_hidden s' = doc_hidden s"
    and "(k, t) \<in> set (nodeTargetPos s) \<Longrightarrow>
      map_of (nodeRenderPos s') k = Some (eased (doc_hidden s) t (map_of (nodeRenderPos s) k))"
    and "positionAnimationActive s' \<Longrightarrow>
      \<exists>(k, t) \<in> set (nodeTargetPos s). still_moving (doc_hidden s) t (map_of (nodeRenderPos s) k)"
proof -
  obtain net where net: "network s = Some net" using assms(1) by blast
  obtain rp net' mv md where f: "fold (ease_step (doc_hidden s)) (nodeTargetPos s)
      (nodeRenderPos s, net, False, False) = (rp, net', mv, md)" by (metis prod_cases4)
  note sp = fold_ease_step [OF f assms(2)]
  show "nodeTargetPos s' = nodeTargetPos s" "network s' \<noteq> None" "doc_hidden s' = doc_hidden s"
    by (simp_all add: s'_def stepPositionAnimation_def net f Let_def emit_def)
  have rp: "nodeRenderPos s' = rp"
    by (simp add: s'_def stepPositionAnimation_def net f Let_def emit_def)
  show "map_of (nodeRenderPos s') k = Some (eased (doc_hidden s) t (map_of (nodeRenderPos s) k))"
    if "(k, t) \<in> set (nodeTargetPos s)" unfolding rp using sp that by blast
  have "positionAnimationActive s' \<Longrightarrow> mv"
    by (simp add: s'_def stepPositionAnimation_def net f Let_def split: if_splits)
  then show "\<exists>(k, t) \<in> set (nodeTargetPos s). still_moving (doc_hidden s) t (map_of (nodeRenderPos s) k)"
    if "positionAnimationActive s'" using sp that by blast
qed

definition rendered :: "'a gstate_scheme \<Rightarrow> string \<Rightarrow> real \<times> real \<Rightarrow> real \<times> real" where
  "rendered s k t = (case map_of (nodeRenderPos s) k of None \<Rightarrow> t | Some r \<Rightarrow> r)"

lemma eased_closer:
  "dist2 t (eased h t r) \<le> (72 / 100) ^ 2 * dist2 t (case r of None \<Rightarrow> t | Some q \<Rightarrow> q)"
proof -
  have "dist2 t t = 0" by (simp add: dist2_def)
  then show ?thesis by (simp add: eased_alt Let_def dist2_ease)
qed

lemma animation_frames:
  assumes "network s \<noteq> None" and "distinct (map fst (nodeTargetPos s))"
  shows "nodeTargetPos ((stepPositionAnimation ^^ n) s) = nodeTargetPos s
    \<and> network ((stepPositionAnimation ^^ n) s) \<noteq> None
    \<and> doc_hidden ((stepPositionAnimation ^^ n) s) = doc_hidden s
    \<and> (\<forall>(k, t) \<in> set (nodeTargetPos s).
         dist2 t (rendered ((stepPositionAnimation ^^ n) s) k t)
           \<le> (72 / 100) ^ (2 * n) * dist2 t (rendered s k t))"
proof (induction n)
  case 0
  then show ?case using assms(1) by simp
next
  case (Suc n)
  let ?u = "(stepPositionAnimation ^^ n) s"
  have u: "network ?u \<noteq> None" "distinct (map fst (nodeTargetPos ?u))" using Suc assms by simp_all
  note sp = step_animation_spec [OF u]
  have "dist2 t (rendered (stepPositionAnimation ?u) k t) \<le> (72 / 100) ^ (2 * Suc n) * dist2 t (rendered s k t)"
    if kt: "(k, t) \<in> set (nodeTargetPos s)" for k t
  proof -
    have "(k, t) \<in> set (nodeTargetPos ?u)" using kt Suc by simp
    then have "rendered (stepPositionAnimation ?u) k t = eased (doc_hidden ?u) t (map_of (nodeRenderPos ?u) k)"
      using sp(4) by (simp only: rendered_def option.case)
    then have "dist2 t (rendered (stepPositionAnimation ?u) k t) \<le> (72 / 100) ^ 2 * dist2 t (rendered ?u k t)"
      unfolding rendered_def [of ?u] by (metis eased_closer)
    also have "\<dots> \<le> (72 / 100) ^ 2 * ((72 / 100) ^ (2 * n) * dist2 t (rendered s k t))"
      using Suc kt by (intro mult_left_mono) auto
    also have "\<dots> = (72 / 100) ^ (2 * Suc n) * dist2 t (rendered s k t)"
      by (simp add: power_add power2_eq_square)
    finally show ?thesis .
  qed
  then show ?case using Suc sp(1-3) by auto
qed

text \<open>
  C37: the easing loop ends on its targets: if every rendered position starts within squared distance
  D of its target and 0.72^(2N) * D is below a quarter, then after N + 1 frames each node is exactly
  on its target and the loop has stopped requesting frames.
\<close>

theorem easing_settles:
  assumes "network s \<noteq> None" and "distinct (map fst (nodeTargetPos s))"
    and "\<forall>(k, t) \<in> set (nodeTargetPos s). dist2 t (rendered s k t) \<le> D"
    and "(72 / 100) ^ (2 * N) * D < 1 / 4"
  shows "let s' = (stepPositionAnimation ^^ Suc N) s
    in \<not> positionAnimationActive s'
       \<and> (\<forall>(k, t) \<in> set (nodeTargetPos s). map_of (nodeRenderPos s') k = Some t)"
proof -
  let ?u = "(stepPositionAnimation ^^ N) s"
  note fr = animation_frames [OF assms(1,2), of N]
  have u: "network ?u \<noteq> None" "distinct (map fst (nodeTargetPos ?u))" using fr assms(2) by simp_all
  note sp = step_animation_spec [OF u]
  have near: "dist2 t (rendered ?u k t) < 1 / 4" if "(k, t) \<in> set (nodeTargetPos s)" for k t
  proof -
    have "dist2 t (rendered ?u k t) \<le> (72 / 100) ^ (2 * N) * dist2 t (rendered s k t)" using fr that by blast
    also have "\<dots> \<le> (72 / 100) ^ (2 * N) * D" using assms(3) that by (intro mult_left_mono) auto
    finally show ?thesis using assms(4) by linarith
  qed
  have landed: "eased (doc_hidden ?u) t (map_of (nodeRenderPos ?u) k) = t
      \<and> \<not> still_moving (doc_hidden ?u) t (map_of (nodeRenderPos ?u) k)"
    if "(k, t) \<in> set (nodeTargetPos s)" for k t
    using near [OF that] unfolding eased_alt rendered_def Let_def by argo
  have "\<not> positionAnimationActive (stepPositionAnimation ?u)"
    using sp(5) landed fr by fastforce
  moreover have "map_of (nodeRenderPos (stepPositionAnimation ?u)) k = Some t"
    if "(k, t) \<in> set (nodeTargetPos s)" for k t
    using sp(4) [of k t] landed [OF that] that fr by simp
  ultimately show ?thesis by (simp only: Let_def funpow.simps comp_apply) blast
qed

definition sample_gstate :: gstate where
  "sample_gstate = pstate.extend sample_pstate
     (gstate.fields (Some sample_renderer) [] [] [] [] False None False False [] [] [] [] [] [] None None []
        None True [] False 150 0 None False False [] ''force'' [] None False False [])"

lemma sample_gstate_fields [simp]:
  "network sample_gstate = Some sample_renderer" "nodes sample_gstate = []" "edges sample_gstate = []"
  "nodeTargetPos sample_gstate = []" "nodeRenderPos sample_gstate = []"
  "nodeMeta sample_gstate = []" "edgeMeta sample_gstate = []" "lastNodeSig sample_gstate = []"
  "lastEdgeSig sample_gstate = []" "fullSyncIds sample_gstate = None" "activeFlows sample_gstate = []"
  "focusActive sample_gstate = False" "pendingUpdate sample_gstate = None"
  "updateScheduled sample_gstate = False" "updateTimerSet sample_gstate = False" "currentClusterLayout sample_gstate = ''force''"
  "doc_hidden sample_gstate = False" "gm_active sample_gstate = False"
  "lastUpdateTime sample_gstate = 0" "now sample_gstate = 0" "replayMode sample_gstate = no_replay"
  "body_light sample_gstate = False" "nodeColorMode sample_gstate = ''traffic''"
  "PROTOCOL_COLORS sample_gstate = default_colors" "edgeLabelsVisible sample_gstate = True"
  by (simp_all add: sample_gstate_def gstate.defs pstate.extend_def sample_pstate_defs)

theorem easing_settles_witness:
  "\<not> positionAnimationActive ((stepPositionAnimation ^^ 11)
       (sample_gstate\<lparr>nodeTargetPos := [(''a'', (10, 0))], nodeRenderPos := [(''a'', (0, 0))]\<rparr>))"
  using easing_settles [of "sample_gstate\<lparr>nodeTargetPos := [(''a'', (10, 0))], nodeRenderPos := [(''a'', (0, 0))]\<rparr>"
      100 10]
  by (simp add: rendered_def dist2_def Let_def eval_nat_numeral)

section \<open>Focus dims everything else\<close>

lemma set_fold_set_add: "set (fold set_add xs ys) = set xs \<union> set ys"
  by (induction xs arbitrary: ys) auto

text \<open>
  Lemma: focusing a node shows it, its neighbours and its links at full opacity and dims everything else;
  leaving focus restores full opacity everywhere.
\<close>

theorem focus_dims_rest:
  assumes "network s = Some r" and "map_of (nodes s) nodeId \<noteq> None"
  shows "let f = focusNode nodeId pin s; c = clearFocus f
    in (\<forall>(k, b) \<in> set (rn_nodes (the (network f))). b_opacity b =
          (if k = nodeId \<or> k \<in> set (getConnectedNodes r nodeId) then 1 else 12 / 100))
     \<and> (\<forall>(k, b) \<in> set (rn_edges (the (network f))). be_opacity b =
          (if k \<in> set (getConnectedEdges r nodeId) then 1 else 6 / 100))
     \<and> (\<forall>(k, b) \<in> set (rn_nodes (the (network c))). b_opacity b = 1)
     \<and> (\<forall>(k, b) \<in> set (rn_edges (the (network c))). be_opacity b = 1)
     \<and> \<not> focusActive c \<and> \<not> focusPinned c"
  using assms
  by (auto simp: focusNode_def clearFocus_def applyFocusDim_def with_net_def Let_def dim_node_def dim_edge_def
      set_fold_set_add)

theorem focus_dims_rest_witness:
  "focusPinned (clearFocus (focusNode ''a'' True (sample_gstate\<lparr>nodes := [(''a'', undefined)]\<rparr>))) = False"
  using focus_dims_rest [of "sample_gstate\<lparr>nodes := [(''a'', undefined)]\<rparr>" sample_renderer "''a''" True]
  by (simp add: Let_def)

section \<open>Flow particles are few and short-lived\<close>

definition flows_ok :: "'a gstate_scheme \<Rightarrow> bool" where
  "flows_ok s \<longleftrightarrow> length (activeFlows s) \<le> MAX_FLOW_PARTICLES
     \<and> (\<forall>f \<in> set (activeFlows s). 0 \<le> af_progress f \<and> 5 / 1000 \<le> af_speed f)"

lemma between: "(lo :: real) \<le> hi \<Longrightarrow> lo \<le> min hi (max lo x) \<and> min hi (max lo x) \<le> hi"
  by (simp add: min_def max_def)

lemma flowParticleSpeed_range: "5 / 1000 \<le> flowParticleSpeed n \<and> flowParticleSpeed n \<le> 5 / 100"
  unfolding flowParticleSpeed_def by (rule between) simp

lemma startFlowAnimation_fields [simp]:
  "activeFlows (startFlowAnimation s) = activeFlows s" "network (startFlowAnimation s) = network s"
  by (simp_all add: startFlowAnimation_def emit_def)

lemma feed_flows_ok: "flows_ok s \<Longrightarrow> flows_ok (feedFlowParticles fs s)"
proof -
  assume ok: "flows_ok s"
  have "flows_ok (startFlowAnimation (s\<lparr>activeFlows := keep_newest MAX_FLOW_PARTICLES (activeFlows s @ new)\<rparr>))"
    if "\<forall>f \<in> set new. 0 \<le> af_progress f \<and> 5 / 1000 \<le> af_speed f" for new
    using ok that set_keep_newest [of MAX_FLOW_PARTICLES "activeFlows s @ new"]
    by (auto simp: flows_ok_def)
  moreover have "flows_ok (with_net g s)" for g using ok by (simp add: flows_ok_def with_net_def)
  moreover have "1 \<le> flowParticleSpeed n * 200" for n using flowParticleSpeed_range [of n] by simp
  ultimately show ?thesis using ok by (simp add: feedFlowParticles_def Let_def)
qed

definition advance_flows :: "active_flow list \<Rightarrow> active_flow list" where
  "advance_flows fs =
     filter (\<lambda>f. af_progress f < 1) (map (\<lambda>f. f\<lparr>af_progress := af_progress f + af_speed f\<rparr>) fs)"

lemma stepFlowAnimation_fields:
  assumes "network u \<noteq> None"
  shows "activeFlows (stepFlowAnimation u) = advance_flows (activeFlows u)"
    and "network (stepFlowAnimation u) = network u"
    and "activeFlows (stepFlowAnimation u) = [] \<Longrightarrow> \<not> flowAnimationActive (stepFlowAnimation u)"
  using assms by (auto simp: stepFlowAnimation_def Let_def emit_def advance_flows_def)

lemma advance_flows_progress:
  assumes "\<forall>f \<in> set fs. p \<le> af_progress f \<and> 0 \<le> af_progress f \<and> 5 / 1000 \<le> af_speed f"
  shows "\<forall>f \<in> set (advance_flows fs). p + 5 / 1000 \<le> af_progress f \<and> af_progress f < 1
    \<and> 0 \<le> af_progress f \<and> 5 / 1000 \<le> af_speed f"
  using assms by (fastforce simp: advance_flows_def)

lemma flow_frames:
  assumes "flows_ok s" and "network s \<noteq> None"
  shows "flows_ok ((stepFlowAnimation ^^ n) s) \<and> network ((stepFlowAnimation ^^ n) s) \<noteq> None
    \<and> (\<forall>f \<in> set (activeFlows ((stepFlowAnimation ^^ n) s)).
          real n * (5 / 1000) \<le> af_progress f \<and> (0 < n \<longrightarrow> af_progress f < 1))
    \<and> (0 < n \<longrightarrow> activeFlows ((stepFlowAnimation ^^ n) s) = []
         \<longrightarrow> \<not> flowAnimationActive ((stepFlowAnimation ^^ n) s))"
proof (induction n)
  case 0
  then show ?case using assms by (simp add: flows_ok_def)
next
  case (Suc n)
  let ?u = "(stepFlowAnimation ^^ n) s"
  have net: "network ?u \<noteq> None" using Suc by simp
  have len: "length (advance_flows (activeFlows ?u)) \<le> MAX_FLOW_PARTICLES"
    using Suc unfolding advance_flows_def by (intro order_trans [OF length_filter_le]) (simp add: flows_ok_def)
  have "\<forall>f \<in> set (activeFlows ?u). real n * (5 / 1000) \<le> af_progress f \<and> 0 \<le> af_progress f \<and> 5 / 1000 \<le> af_speed f"
    using Suc by (auto simp: flows_ok_def)
  note prog = advance_flows_progress [OF this]
  have "\<forall>f \<in> set (advance_flows (activeFlows ?u)). real (Suc n) \<le> af_progress f * 200"
    using prog by auto
  then show ?case using len prog net stepFlowAnimation_fields [OF net]
    by (simp add: flows_ok_def del: of_nat_Suc)
qed

text \<open>
  Lemma: the particle list never exceeds 220, whatever traffic is fed, and every particle dies: 200
  frames after the last feed the list is empty and the frame loop has stopped.
\<close>

theorem flow_particles_end:
  assumes "flows_ok s" and "network s \<noteq> None"
  shows "flows_ok (feedFlowParticles fs s)
    \<and> activeFlows ((stepFlowAnimation ^^ 200) s) = []
    \<and> \<not> flowAnimationActive ((stepFlowAnimation ^^ 200) s)"
proof -
  note fr = flow_frames [OF assms, of 200]
  have "activeFlows ((stepFlowAnimation ^^ 200) s) = []"
  proof (rule ccontr)
    assume "activeFlows ((stepFlowAnimation ^^ 200) s) \<noteq> []"
    then obtain f where "f \<in> set (activeFlows ((stepFlowAnimation ^^ 200) s))" by (meson last_in_set)
    then show False using fr by fastforce
  qed
  moreover from this have "\<not> flowAnimationActive ((stepFlowAnimation ^^ 200) s)"
    using fr by (metis zero_less_numeral)
  ultimately show ?thesis using feed_flows_ok [OF assms(1)] by blast
qed

theorem flow_particles_end_witness:
  "activeFlows ((stepFlowAnimation ^^ 200) sample_gstate) = []"
  using flow_particles_end [of sample_gstate]
  by (simp add: flows_ok_def)

text \<open>
  Lemma: the WebGL renderer keeps at most 220 particles, at most 60 while frames are slow, and spawns
  none for a link one of whose ends is not drawn.
\<close>

theorem gl_particles_capped:
  "length (rn_particles (spawnParticles flows r)) \<le> particleCap r
   \<and> particleCap r \<le> MAX_PARTICLES \<and> (12 < rn_lastFrameMs r \<longrightarrow> particleCap r \<le> 60)
   \<and> set (rn_particles (spawnParticles flows r)) \<subseteq> set (rn_particles r) \<union>
       {p. map_of (rn_nodes r) (gp_from p) \<noteq> None \<and> map_of (rn_nodes r) (gp_to p) \<noteq> None \<and> gp_progress p = 0}"
proof -
  have "set (fold (spawn_one r) fs ps) \<subseteq> set ps \<union>
      {p. map_of (rn_nodes r) (gp_from p) \<noteq> None \<and> map_of (rn_nodes r) (gp_to p) \<noteq> None \<and> gp_progress p = 0}"
    for fs ps
  proof (induction fs arbitrary: ps)
    case (Cons f fs)
    show ?case using Cons.IH [of "spawn_one r f ps"] by (auto simp: spawn_one_def split: if_splits)
  qed simp
  then show ?thesis using set_keep_newest [of "particleCap r" "fold (spawn_one r) flows (rn_particles r)"]
    by (fastforce simp: spawnParticles_def particleCap_def MAX_PARTICLES_def Let_def)
qed

end
