(* ===== verification/GraphSync.thy ===== *)
theory GraphSync
  imports GraphState
begin

text \<open>
  Applying topology messages (\<^verbatim>\<open>updateGraph\<close> of \<^verbatim>\<open>static/app.js\<close>): removals, the node and
  edge passes with their render signatures, chunked full snapshots and their reconciliation,
  performance tiers, and the throttle in front of it all (\<^verbatim>\<open>throttledUpdateGraph\<close>).
\<close>

section \<open>Positions\<close>

datatype placed = Moved | Snapped | Unmoved

definition applyTargetPosition ::
    "string \<Rightarrow> real \<times> real \<Rightarrow> bool \<Rightarrow> 'a gstate_scheme \<Rightarrow> placed \<times> 'a gstate_scheme" where
  "applyTargetPosition k p pinned s =
     (let still = (case map_of (nodeTargetPos s) k of
                     Some prevT \<Rightarrow> \<not> pinned \<and> dist2 prevT p < 1 / 4 | None \<Rightarrow> False)
      in if still then (Unmoved, s)
         else
           let s = s\<lparr>nodeTargetPos := AList.update k p (nodeTargetPos s)\<rparr>;
               snapLayout = (pinned \<or> net_is isCosmos s \<or> currentClusterLayout s = ''solar'')
           in if snapLayout \<or> map_of (nodeRenderPos s) k = None
              then
                let s = s\<lparr>nodeRenderPos := AList.update k p (nodeRenderPos s)\<rparr>
                in case map_of (body_nodes s) k of
                     None \<Rightarrow> (Unmoved, s)
                   | Some bn \<Rightarrow>
                       if b_x bn \<noteq> fst p \<or> b_y bn \<noteq> snd p
                       then (Snapped, with_net (set_body_pos k p) s) else (Unmoved, s)
              else (Moved, s))"

fun spawn_neighbour :: "positions \<Rightarrow> string \<Rightarrow> vedge list \<Rightarrow> (real \<times> real) option" where
  "spawn_neighbour rp k [] = None"
| "spawn_neighbour rp k (e # es) =
     (let other = (if w_from e = k then w_to e else if w_to e = k then w_from e else [])
      in if other \<noteq> [] \<and> map_of rp other \<noteq> None then map_of rp other else spawn_neighbour rp k es)"

definition replaySpawnPos :: "positions \<Rightarrow> string \<Rightarrow> vedge list \<Rightarrow> real \<times> real" where
  "replaySpawnPos rp k edgeList =
     (case spawn_neighbour rp k edgeList of
        Some p \<Rightarrow> p
      | None \<Rightarrow>
          let n = length rp; sx = sum_list (map (fst \<circ> snd) rp); sy = sum_list (map (snd \<circ> snd) rp)
          in if 0 < n then (sx / real n, sy / real n) else (0, 0))"

section \<open>The steps of updateGraph\<close>

text \<open>Replay snapshots fix the value domain of node sizes.\<close>

definition apply_value_range :: "graph_msg \<Rightarrow> 'a gstate_scheme \<Rightarrow> 'a gstate_scheme" where
  "apply_value_range data s =
     (case m_valueRange data of
        None \<Rightarrow> s
      | Some rng \<Rightarrow>
          if net_is hasSetValueRange s then with_net (setValueRange (Some rng)) s
          else if net_is (\<lambda>r. rn_kind r = VisKind) s \<and> visValueRange s \<noteq> Some rng
          then emit (Net (SetScaling (fst rng) (snd rng))) (s\<lparr>visValueRange := Some rng\<rparr>)
          else s)"

text \<open>Ids seen so far in a chunked full snapshot.\<close>

definition collect_ids :: "graph_msg \<Rightarrow> 'a gstate_scheme \<Rightarrow> 'a gstate_scheme" where
  "collect_ids data s =
     (let s = (if m_isFull data then s\<lparr>fullSyncIds := (if m_partial data then Some ([], []) else None)\<rparr> else s)
      in case fullSyncIds s of
           None \<Rightarrow> s
         | Some (ns, es) \<Rightarrow>
             s\<lparr>fullSyncIds := Some (fold (\<lambda>n. set_add (v_id n)) (m_nodes data) ns,
                                   fold (\<lambda>e. set_add (w_id e)) (m_edges data) es)\<rparr>)"

definition apply_removals :: "graph_msg \<Rightarrow> 'a gstate_scheme \<Rightarrow> 'a gstate_scheme" where
  "apply_removals data s =
     (let s = (if m_removedNodes data \<noteq> []
               then fold forgetNodePosition (m_removedNodes data) (nodes_remove (m_removedNodes data) s) else s)
      in if m_removedEdges data \<noteq> []
         then fold forgetEdge (m_removedEdges data) (edges_remove (m_removedEdges data) s) else s)"

text \<open>Detail fetched for a node survives the replacement of its metadata.\<close>

definition carry_detail :: "vnode option \<Rightarrow> vnode \<Rightarrow> vnode" where
  "carry_detail prev node =
     (case prev of
        Some old \<Rightarrow>
          if v_detailLoaded old
          then node\<lparr>v_detailLoaded := True,
                    v_ips := (case v_ips node of Some (x # xs) \<Rightarrow> v_ips node | _ \<Rightarrow> v_ips old),
                    v_deviceInfo := or_else (v_deviceInfo node) (v_deviceInfo old),
                    v_peers := v_peers old, v_detailEdges := v_detailEdges old\<rparr>
          else node
      | None \<Rightarrow> node)"

definition place_node ::
    "vedge list \<Rightarrow> vnode \<Rightarrow> 'a gstate_scheme \<Rightarrow> placed \<times> (real \<times> real) option \<times> 'a gstate_scheme" where
  "place_node incomingEdges node s =
     (case v_pos node of
        None \<Rightarrow> (Unmoved, None, s)
      | Some p \<Rightarrow>
          if net_is rn_ownsLayout s then (Unmoved, Some p, s)
          else
            let s = (if rm_active (replayMode s) \<and> map_of (nodeRenderPos s) (v_id node) = None
                     then s\<lparr>nodeRenderPos := AList.update (v_id node)
                              (replaySpawnPos (nodeRenderPos s) (v_id node) incomingEdges) (nodeRenderPos s)\<rparr>
                     else s);
                (r, s) = applyTargetPosition (v_id node) p (v_pinned node) s
            in (r, map_of (nodeRenderPos s) (v_id node), s))"

definition node_up_to_date :: "string \<Rightarrow> string \<Rightarrow> 'a gstate_scheme \<Rightarrow> bool" where
  "node_up_to_date k sig s = (map_of (lastNodeSig s) k = Some sig \<and> map_of (nodes s) k \<noteq> None)"

text \<open>One turn of the node loop; the accumulator is the pending batch and the movement flags.\<close>

definition sync_node ::
    "vedge list \<Rightarrow> vnode \<Rightarrow> 'a gstate_scheme \<times> node_item list \<times> bool \<times> bool
      \<Rightarrow> 'a gstate_scheme \<times> node_item list \<times> bool \<times> bool" where
  "sync_node incomingEdges node0 acc =
     (let (s, ups, moved, snapped) = acc;
          node = carry_detail (map_of (nodeMeta s) (v_id node0)) node0;
          s = s\<lparr>nodeMeta := AList.update (v_id node) node (nodeMeta s)\<rparr>;
          (r, renderPos, s) = place_node incomingEdges node s;
          moved = (moved \<or> r = Moved);
          snapped = (snapped \<or> r = Snapped);
          cosmos = net_is isCosmos s;
          sig = node_sig cosmos (nodeColorMode s) (body_light s) node
      in if node_up_to_date (v_id node) sig s then (s, ups, moved, snapped)
         else
           let s = s\<lparr>lastNodeSig := AList.update (v_id node) sig (lastNodeSig s)\<rparr>;
               pos = (if cosmos \<and> map_of (nodes s) (v_id node) \<noteq> None then None else renderPos)
           in (s, ups @ [build_node_item (nodeColorMode s) (body_light s) pos node], moved, snapped))"

definition flush_nodes ::
    "'a gstate_scheme \<times> node_item list \<times> bool \<times> bool \<Rightarrow> 'a gstate_scheme" where
  "flush_nodes acc =
     (let (s, ups, moved, snapped) = acc;
          s = (if ups = [] then s else nodes_put ups s)
      in if moved then startPositionAnimation s
         else if snapped \<and> net_is (\<lambda>r. \<not> isCosmos r) s then with_net redraw s
         else if snapped \<and> net_is (\<lambda>r. isCosmos r \<and> hasMarkSceneDirty r) s
         then with_net (markSceneDirty ''nodes'') s
         else s)"

definition edge_up_to_date :: "string \<Rightarrow> string \<Rightarrow> 'a gstate_scheme \<Rightarrow> bool" where
  "edge_up_to_date k sig s = (map_of (lastEdgeSig s) k = Some sig \<and> map_of (edges s) k \<noteq> None)"

definition sync_edge ::
    "vedge \<Rightarrow> 'a gstate_scheme \<times> edge_item list \<Rightarrow> 'a gstate_scheme \<times> edge_item list" where
  "sync_edge edge acc =
     (let (s, ups) = acc;
          s = s\<lparr>edgeMeta := AList.update (w_id edge) edge (edgeMeta s)\<rparr>;
          sig = edge_sig (net_is isCosmos s) (PROTOCOL_COLORS s) (edgeLabelsVisible s) edge
      in if edge_up_to_date (w_id edge) sig s then (s, ups)
         else (s\<lparr>lastEdgeSig := AList.update (w_id edge) sig (lastEdgeSig s)\<rparr>,
               ups @ [build_edge_item (PROTOCOL_COLORS s) (edgeLabelsVisible s) edge]))"

definition flush_edges :: "'a gstate_scheme \<times> edge_item list \<Rightarrow> 'a gstate_scheme" where
  "flush_edges acc = (let (s, ups) = acc in if ups = [] then s else edges_put ups s)"

definition drop_stale_nodes :: "string list \<Rightarrow> 'a gstate_scheme \<Rightarrow> 'a gstate_scheme" where
  "drop_stale_nodes keepNodes s =
     (let staleNodes = filter (\<lambda>k. k \<notin> set keepNodes) (map_keys (nodes s))
      in if staleNodes = [] then s else fold forgetNodePosition staleNodes (nodes_remove staleNodes s))"

definition drop_stale_edges :: "string list \<Rightarrow> 'a gstate_scheme \<Rightarrow> 'a gstate_scheme" where
  "drop_stale_edges keepEdges s =
     (let staleEdges = filter (\<lambda>k. k \<notin> set keepEdges) (map_keys (edges s))
      in if staleEdges = [] then s else fold forgetEdge staleEdges (edges_remove staleEdges s))"

text \<open>A completed full snapshot drops what the server no longer lists, then fits the camera.\<close>

definition reconcile :: "graph_msg \<Rightarrow> 'a gstate_scheme \<Rightarrow> 'a gstate_scheme" where
  "reconcile data s =
     (if \<not> m_fullDone data then s
      else
        let keepNodes = (case fullSyncIds s of Some (ns, _) \<Rightarrow> ns | None \<Rightarrow> map v_id (m_nodes data));
            keepEdges = (case fullSyncIds s of Some (_, es) \<Rightarrow> es | None \<Rightarrow> map w_id (m_edges data));
            s = s\<lparr>fullSyncIds := None\<rparr>;
            s = drop_stale_edges keepEdges (drop_stale_nodes keepNodes s);
            s = (if fitOnNextFull s \<and> network s \<noteq> None \<and> nodes s \<noteq> []
                 then with_net (fit (now s) (Some 400)) s else s)
        in s\<lparr>fitOnNextFull := False\<rparr>)"

definition update_islands :: "graph_msg \<Rightarrow> 'a gstate_scheme \<Rightarrow> 'a gstate_scheme" where
  "update_islands data s =
     (case m_subnetIslands data of
        Some rings \<Rightarrow> with_net overlay_or_redraw (s\<lparr>subnetIslands := rings\<rparr>)
      | None \<Rightarrow>
          if currentClusterLayout s \<noteq> ''subnet'' \<and> subnetIslands s \<noteq> []
          then with_net overlay_or_redraw (s\<lparr>subnetIslands := []\<rparr>) else s)"

definition update_stats :: "graph_msg \<Rightarrow> 'a gstate_scheme \<Rightarrow> 'a gstate_scheme" where
  "update_stats data s =
     (case m_stats data of
        Some (n, e, p) \<Rightarrow> updateStatistics n e p s
      | None \<Rightarrow> updateStatistics (length (nodes s)) (length (edges s))
                  (sum_list (map (v_packetCount \<circ> snd) (nodeMeta s))) s)"

text \<open>Labels are toggled in the live edges; the DataSet cannot clear one.\<close>

definition relabel_edges :: "bool \<Rightarrow> (string \<times> vedge) list \<Rightarrow> renderer \<Rightarrow> renderer" where
  "relabel_edges on meta r =
     r\<lparr>rn_edges := map (\<lambda>(k, b). (k, b\<lparr>be_label :=
         (if on then map_option formatEdgeLabel (map_of meta k) else None)\<rparr>)) (rn_edges r)\<rparr>"

definition maybeApplyPerformanceTier :: "'a gstate_scheme \<Rightarrow> 'a gstate_scheme" where
  "maybeApplyPerformanceTier s =
     (if network s = None then s
      else
        let tr = getPerformanceTier (length (nodes s))
        in if currentTier s = Some tr then s
           else
             let s = s\<lparr>currentTier := Some tr\<rparr>;
                 s = with_net (setOptions (getNetworkOptions (body_light s) (length (nodes s)))) s;
                 on = (length (nodes s) \<le> EDGE_LABEL_MAX_NODES)
             in if on \<noteq> edgeLabelsVisible s
                then with_net (redraw \<circ> relabel_edges on (edgeMeta s)) (s\<lparr>edgeLabelsVisible := on\<rparr>)
                else s)"

definition traffic_event_of :: "'a gstate_scheme \<Rightarrow> traffic_flow \<Rightarrow> traffic_event" where
  "traffic_event_of s f =
     \<lparr> te_src = tf_from f, te_dst = tf_to f, te_protocol = tf_protocol f,
       te_color = flow_color s ''#ecf0f1'' f, te_timestamp = now s,
       te_bytes = (if tf_bytes f = 0 then 100 else tf_bytes f),
       te_packets = (if tf_packets f = 0 then 1 else tf_packets f) \<rparr>"

definition feed_traffic :: "graph_msg \<Rightarrow> 'a gstate_scheme \<Rightarrow> 'a gstate_scheme" where
  "feed_traffic data s =
     (if m_trafficFlows data = [] then s
      else if gm_active s
      then s\<lparr>trafficEvents := keep_newest 200 (trafficEvents s @ map (traffic_event_of s) (m_trafficFlows data))\<rparr>
      else feedFlowParticles (m_trafficFlows data) s)"

text \<open>Everything up to the passes that add and change items.\<close>

definition sync_items :: "graph_msg \<Rightarrow> 'a gstate_scheme \<Rightarrow> 'a gstate_scheme" where
  "sync_items data s =
     (let s = apply_removals data (collect_ids data (apply_value_range data s));
          na = fold (sync_node (m_edges data)) (m_nodes data) (s, [], False, False);
          s = flush_nodes na;
          ea = fold sync_edge (m_edges data) (s, []);
          s = flush_edges ea;
          changed = (fst (snd na) \<noteq> [] \<or> snd ea \<noteq> [])
      in if focusActive s \<and> changed then applyFocusDim s else s)"

definition updateGraph :: "graph_msg \<Rightarrow> 'a gstate_scheme \<Rightarrow> 'a gstate_scheme" where
  "updateGraph data s =
     (let s = reconcile data (sync_items data s);
          s = update_islands data s;
          s = updatePacketCache (m_packets data) s;
          s = update_stats data s;
          s = maybeApplyPerformanceTier s;
          s = (case m_protocolStats data of Some st \<Rightarrow> updateProtocolCounts st s | None \<Rightarrow> s)
      in feed_traffic data s)"

section \<open>Throttling\<close>

definition throttle_ms :: "nat \<Rightarrow> real" where
  "throttle_ms nodeCount = (if 50 < nodeCount then 200 else if 25 < nodeCount then 150 else 100)"

definition throttledUpdateGraph :: "graph_msg \<Rightarrow> 'a gstate_scheme \<Rightarrow> 'a gstate_scheme" where
  "throttledUpdateGraph data s =
     (if m_partial data \<and> \<not> m_isFull data then updateGraph data s
      else if m_isFull data then
        let s = (if updateTimerSet s then emit (Cancel UpdateTimer) (s\<lparr>updateTimerSet := False\<rparr>) else s);
            s = s\<lparr>updateScheduled := False, pendingUpdate := None, lastUpdateTime := now s\<rparr>
        in updateGraph data s
      else
        let s = s\<lparr>updateThrottleMs := throttle_ms (length (nodes s)), pendingUpdate := Some data\<rparr>
        in if updateScheduled s then s
           else
             let since = now s - lastUpdateTime s
             in if updateThrottleMs s \<le> since
                then (updateGraph data (s\<lparr>lastUpdateTime := now s\<rparr>))\<lparr>pendingUpdate := None\<rparr>
                else emit (After UpdateTimer (updateThrottleMs s - since))
                       (s\<lparr>updateScheduled := True, updateTimerSet := True\<rparr>))"

definition updateTimer_fires :: "'a gstate_scheme \<Rightarrow> 'a gstate_scheme" where
  "updateTimer_fires s =
     (let s = s\<lparr>updateTimerSet := False, lastUpdateTime := now s\<rparr>;
          s = (case pendingUpdate s of Some d \<Rightarrow> updateGraph d s | None \<Rightarrow> s)
      in s\<lparr>pendingUpdate := None, updateScheduled := False\<rparr>)"

section \<open>What an operation leaves alone\<close>

text \<open>
  The part of the state the mirror invariant speaks about: both DataSets and the keys the renderer
  draws.
\<close>

definition shape :: "renderer \<Rightarrow> bool \<times> renderer_kind \<times> string list \<times> string list" where
  "shape r = (rn_destroyed r, rn_kind r, map_keys (rn_nodes r), map_keys (rn_edges r))"

definition core :: "'a gstate_scheme \<Rightarrow> (string \<times> node_item) list \<times> (string \<times> edge_item) list
    \<times> (bool \<times> renderer_kind \<times> string list \<times> string list) option" where
  "core s = (nodes s, edges s, map_option shape (network s))"

lemma mirrored_core: "core s = core s' \<Longrightarrow> mirrored s \<longleftrightarrow> mirrored s'"
  by (cases "network s"; cases "network s'") (simp_all add: core_def mirrored_def shape_def)

lemma core_nodes: "core s' = core s \<Longrightarrow> nodes s' = nodes s \<and> edges s' = edges s"
  by (simp add: core_def)

lemma shape_redraw [simp]: "shape (redraw r) = shape r"
  by (simp add: shape_def)

lemma shape_mark [simp]: "shape (markSceneDirty k r) = shape r" "shape (mark_or_redraw k r) = shape r"
  by (simp_all add: shape_def markSceneDirty_def Let_def)

lemma shape_overlay [simp]: "shape (overlay_or_redraw r) = shape r"
  by (simp add: overlay_or_redraw_def invalidateOverlay_def shape_def)

lemma shape_options [simp]: "shape (setOptions ops r) = shape r"
  by (simp add: shape_def setOptions_def)

lemma shape_range [simp]: "shape (setValueRange rng r) = shape r"
  using recomputeSizes_keys [of "r\<lparr>rn_valueRange := rng\<rparr>"]
  by (simp add: shape_def setValueRange_def del: recomputeSizes_keys)

lemma shape_fit [simp]: "shape (fit t d r) = shape r"
  by (simp add: shape_def)

lemma map_keys_map_entry [simp]: "map_keys (AList.map_entry k f m) = map_keys m"
  unfolding map_keys_def by (induction m) (auto split: prod.splits)

lemma map_keys_map_snd: "(\<And>k b. fst (g (k, b)) = k) \<Longrightarrow> map_keys (map g m) = map_keys m"
  by (auto simp: map_keys_def)

lemma shape_body_pos [simp]: "shape (set_body_pos k p r) = shape r"
  by (simp add: shape_def set_body_pos_def)

lemma shape_relabel [simp]: "shape (relabel_edges on meta r) = shape r"
  by (simp add: shape_def relabel_edges_def map_keys_map_snd)

lemma shape_spawn [simp]: "shape (spawnParticles fs r) = shape r"
  by (simp add: shape_def spawnParticles_def)

lemma core_with_net [simp]: "(\<And>r. shape (f r) = shape r) \<Longrightarrow> core (with_net f s) = core s"
  by (cases "network s") (simp_all add: core_def with_net_def)

lemma core_page [simp]:
  "core (emit ev s) = core s" "core (upd_el k f s) = core s" "core (create_el k e s) = core s"
  by (simp_all add: core_def page_defs)

lemma core_dim [simp]: "core (applyFocusDim s) = core s"
proof -
  have "shape (mark_or_redraw ''all''
      (r\<lparr>rn_nodes := map (dim_node s) (rn_nodes r), rn_edges := map (dim_edge s) (rn_edges r)\<rparr>)) = shape r" for r
    by (simp add: shape_def map_keys_map_snd dim_node_def dim_edge_def)
  then show ?thesis by (simp add: applyFocusDim_def)
qed

lemma core_start [simp]: "core (startPositionAnimation s) = core s" "core (startFlowAnimation s) = core s"
  by (simp_all add: startPositionAnimation_def startFlowAnimation_def core_def emit_def)

lemma core_packets [simp]: "core (updatePacketCache ps s) = core s"
proof -
  have r: "core (renderVisiblePackets t) = core t" for t :: "'a gstate_scheme"
    by (simp add: renderVisiblePackets_def Let_def split: prod.splits)
  have f: "core (t\<lparr>packets := x\<rparr>) = core t" "core (t\<lparr>filteredPacketList := x\<rparr>) = core t"
    "core (t\<lparr>packetCache := y\<rparr>) = core t" "core (t\<lparr>lastPacketPanelRefresh := z\<rparr>) = core t"
    for t :: "'a gstate_scheme" and x y z by (simp_all add: core_def)
  have b: "core (buildFilteredPacketList t) = core t" for t :: "'a gstate_scheme"
    by (simp add: buildFilteredPacketList_def Let_def f)
  show ?thesis by (simp add: updatePacketCache_def Let_def r f b)
qed

lemma core_statistics [simp]: "core (updateStatistics n e t s) = core s"
  by (simp add: core_def updateStatistics_def Let_def page_defs)

lemma core_counts [simp]: "core (updateProtocolCounts st s) = core s"
proof -
  have "core (fold (\<lambda>(el, proto). upd_el el (el_text (count_text st proto))) xs t) = core t"
    for xs and t :: "'a gstate_scheme"
    by (induction xs arbitrary: t) (auto split: prod.splits)
  moreover have "core (t\<lparr>protocolStats := x\<rparr>) = core t" "core (t\<lparr>legendCountEls := y\<rparr>) = core t"
    for t :: "'a gstate_scheme" and x y by (simp_all add: core_def)
  ultimately show ?thesis by (simp add: updateProtocolCounts_def Let_def split: option.splits)
qed

lemma core_islands [simp]: "core (update_islands data s) = core s"
proof -
  have "core (t\<lparr>subnetIslands := x\<rparr>) = core t" for t :: "'a gstate_scheme" and x by (simp add: core_def)
  then show ?thesis by (simp add: update_islands_def split: option.splits)
qed

lemma core_stats [simp]: "core (update_stats data s) = core s"
  by (simp add: update_stats_def split: option.splits)

lemma core_tier [simp]: "core (maybeApplyPerformanceTier s) = core s"
proof -
  have "core (t\<lparr>currentTier := x\<rparr>) = core t" "core (t\<lparr>edgeLabelsVisible := y\<rparr>) = core t"
    for t :: "'a gstate_scheme" and x y by (simp_all add: core_def)
  then show ?thesis by (simp add: maybeApplyPerformanceTier_def Let_def comp_def)
qed

lemma core_feed [simp]: "core (feed_traffic data s) = core s"
proof -
  have "core (t\<lparr>trafficEvents := x\<rparr>) = core t" "core (t\<lparr>activeFlows := y\<rparr>) = core t"
    for t :: "'a gstate_scheme" and x y by (simp_all add: core_def)
  then show ?thesis by (simp add: feed_traffic_def feedFlowParticles_def Let_def)
qed

lemma core_after_sync: "core (updateGraph data s) = core (reconcile data (sync_items data s))"
  by (simp add: updateGraph_def Let_def split: option.splits)

section \<open>The node and edge passes\<close>

lemma core_value_range [simp]: "core (apply_value_range data s) = core s"
proof -
  have "core (t\<lparr>visValueRange := x\<rparr>) = core t" for t :: "'a gstate_scheme" and x by (simp add: core_def)
  then show ?thesis by (simp add: apply_value_range_def split: option.splits)
qed

lemma core_collect [simp]: "core (collect_ids data s) = core s"
  by (simp add: collect_ids_def core_def Let_def split: option.splits prod.splits)

lemma core_target: "applyTargetPosition k p pin s = (r, s') \<Longrightarrow> core s' = core s"
proof -
  have "core (t\<lparr>nodeTargetPos := x\<rparr>) = core t" "core (t\<lparr>nodeRenderPos := y\<rparr>) = core t"
    for t :: "'a gstate_scheme" and x y by (simp_all add: core_def)
  then show "applyTargetPosition k p pin s = (r, s') \<Longrightarrow> core s' = core s"
    by (auto simp: applyTargetPosition_def Let_def split: if_splits option.splits)
qed

text \<open>The caches and modes the passes read, which placing a node does not touch.\<close>

definition caches :: "'a gstate_scheme \<Rightarrow> (string list \<times> string list) option \<times> (string \<times> string) list
    \<times> (string \<times> vnode) list \<times> (string \<times> string) list \<times> (string \<times> vedge) list \<times> string \<times> bool" where
  "caches s = (fullSyncIds s, lastNodeSig s, nodeMeta s, lastEdgeSig s, edgeMeta s, nodeColorMode s, body_light s)"

lemma caches_simps [simp]:
  "caches (with_net f s) = caches s" "caches (s\<lparr>nodeTargetPos := x\<rparr>) = caches s"
  "caches (s\<lparr>nodeRenderPos := x\<rparr>) = caches s"
  by (simp_all add: caches_def with_net_def)

lemma target_caches: "applyTargetPosition k p pin s = (r, s') \<Longrightarrow> caches s' = caches s"
  by (auto simp: applyTargetPosition_def Let_def split: if_splits option.splits)

lemma target_spec: "applyTargetPosition k p pin s = (r, s') \<Longrightarrow> core s' = core s \<and> caches s' = caches s"
  using core_target target_caches by blast

lemma place_node_caches:
  assumes "place_node es node s = (r, pos, s')"
  shows "core s' = core s \<and> caches s' = caches s"
proof -
  have c: "core (t\<lparr>nodeRenderPos := y\<rparr>) = core t" for t :: "'a gstate_scheme" and y by (simp add: core_def)
  show ?thesis using assms
    by (auto simp: place_node_def Let_def c split: option.splits if_splits prod.splits dest!: target_spec)
qed

lemma place_node_spec:
  assumes "place_node es node s = (r, pos, s')"
  shows "core s' = core s \<and> fullSyncIds s' = fullSyncIds s \<and> lastNodeSig s' = lastNodeSig s
     \<and> nodeMeta s' = nodeMeta s \<and> lastEdgeSig s' = lastEdgeSig s \<and> edgeMeta s' = edgeMeta s
     \<and> nodeColorMode s' = nodeColorMode s \<and> body_light s' = body_light s"
  using place_node_caches [OF assms] by (simp add: caches_def)

lemma cosmos_core: "core s' = core s \<Longrightarrow> net_is isCosmos s' = net_is isCosmos s"
  by (cases "network s"; cases "network s'") (simp_all add: core_def shape_def net_is_def isCosmos_def)

lemma carry_detail_id [simp]: "v_id (carry_detail prev node) = v_id node"
  by (simp add: carry_detail_def split: option.splits)

text \<open>What one turn of the node loop does, for whatever was carried over and wherever it is placed.\<close>

definition carried :: "'a gstate_scheme \<Rightarrow> vnode \<Rightarrow> vnode" where
  "carried s node = carry_detail (map_of (nodeMeta s) (v_id node)) node"

definition sig_of :: "'a gstate_scheme \<Rightarrow> vnode \<Rightarrow> string" where
  "sig_of s node = node_sig (net_is isCosmos s) (nodeColorMode s) (body_light s) node"

definition sync_effect ::
    "'a gstate_scheme \<Rightarrow> vnode \<Rightarrow> 'a gstate_scheme \<Rightarrow> node_item list \<Rightarrow> bool" where
  "sync_effect s node0 s' new \<longleftrightarrow>
     core s' = core s \<and> fullSyncIds s' = fullSyncIds s \<and> lastEdgeSig s' = lastEdgeSig s
     \<and> edgeMeta s' = edgeMeta s \<and> nodeColorMode s' = nodeColorMode s \<and> body_light s' = body_light s
     \<and> nodeMeta s' = AList.update (v_id node0) (carried s node0) (nodeMeta s)
     \<and> (if node_up_to_date (v_id node0) (sig_of s (carried s node0)) s
         then new = [] \<and> lastNodeSig s' = lastNodeSig s
         else (\<exists>pos. new = [build_node_item (nodeColorMode s) (body_light s) pos (carried s node0)])
            \<and> lastNodeSig s' = AList.update (v_id node0) (sig_of s (carried s node0)) (lastNodeSig s))"

lemma carried_id [simp]: "v_id (carried s node) = v_id node"
  by (simp add: carried_def)

lemma sync_node_spec:
  assumes "sync_node es node0 (s, ups, mv, sn) = (s', ups', mv', sn')"
  shows "\<exists>new. ups' = ups @ new \<and> sync_effect s node0 s' new"
proof -
  let ?node = "carried s node0"
  let ?s1 = "s\<lparr>nodeMeta := AList.update (v_id node0) ?node (nodeMeta s)\<rparr>"
  obtain r rp s2 where pl: "place_node es ?node ?s1 = (r, rp, s2)" by (metis prod_cases3)
  have c1: "core ?s1 = core s" by (simp add: core_def)
  note ps = place_node_spec [OF pl]
  have cos: "net_is isCosmos s2 = net_is isCosmos s" using ps c1 by (intro cosmos_core) simp
  have nds: "nodes s2 = nodes s" using ps c1 core_nodes by metis
  let ?sig = "sig_of s ?node"
  have upd: "node_up_to_date (v_id node0) ?sig s2 = node_up_to_date (v_id node0) ?sig s"
    using ps nds by (simp add: node_up_to_date_def)
  have c2: "core (t\<lparr>lastNodeSig := x\<rparr>) = core t" for t :: "'a gstate_scheme" and x by (simp add: core_def)
  show ?thesis
  proof (cases "node_up_to_date (v_id node0) ?sig s")
    case True
    then have "s' = s2" "ups' = ups"
      using assms pl ps cos upd by (auto simp: sync_node_def Let_def carried_def sig_of_def)
    then show ?thesis using ps c1 True by (auto simp: sync_effect_def)
  next
    case False
    then have e: "s' = s2\<lparr>lastNodeSig := AList.update (v_id node0) ?sig (lastNodeSig s2)\<rparr>"
      "ups' = ups @ [build_node_item (nodeColorMode s) (body_light s)
          (if net_is isCosmos s \<and> map_of (nodes s2) (v_id node0) \<noteq> None then None else rp) ?node]"
      using assms pl ps cos upd by (auto simp: sync_node_def Let_def carried_def sig_of_def)
    show ?thesis using ps c1 False by (auto simp: e c2 sync_effect_def)
  qed
qed

lemma sync_effect_ids:
  assumes "sync_effect s n s' new"
  shows "i_id ` set new \<subseteq> {v_id n}" and "v_id n \<in> set (map_keys (nodes s)) \<union> i_id ` set new"
proof -
  show "i_id ` set new \<subseteq> {v_id n}" using assms
    by (auto simp: sync_effect_def build_node_item_def split: if_splits)
  have "v_id n \<in> set (map_keys (nodes s))" if "map_of (nodes s) (v_id n) \<noteq> None"
    using that by (rule js_map.keys_get [THEN iffD2])
  then show "v_id n \<in> set (map_keys (nodes s)) \<union> i_id ` set new" using assms
    by (auto simp: sync_effect_def build_node_item_def node_up_to_date_def split: if_splits)
qed

lemma fold_sync_node:
  assumes "fold (sync_node es) ns (s, ups, mv, sn) = (s', ups', mv', sn')"
  shows "core s' = core s \<and> fullSyncIds s' = fullSyncIds s \<and> lastEdgeSig s' = lastEdgeSig s
    \<and> edgeMeta s' = edgeMeta s \<and> nodeColorMode s' = nodeColorMode s \<and> body_light s' = body_light s
    \<and> i_id ` set ups' \<subseteq> i_id ` set ups \<union> v_id ` set ns
    \<and> v_id ` set ns \<subseteq> set (map_keys (nodes s)) \<union> i_id ` set ups' \<and> set ups \<subseteq> set ups'"
  using assms
proof (induction ns arbitrary: s ups mv sn)
  case Nil
  then show ?case by simp
next
  case (Cons n ns)
  obtain s1 ups1 mv1 sn1 where one: "sync_node es n (s, ups, mv, sn) = (s1, ups1, mv1, sn1)"
    by (metis prod_cases4)
  have rest: "fold (sync_node es) ns (s1, ups1, mv1, sn1) = (s', ups', mv', sn')"
    using Cons.prems by (simp add: one)
  note IH = Cons.IH [OF rest]
  obtain new where new: "ups1 = ups @ new" "sync_effect s n s1 new"
    using sync_node_spec [OF one] by blast
  note ids = sync_effect_ids [OF new(2)]
  have st: "core s1 = core s" "fullSyncIds s1 = fullSyncIds s" "lastEdgeSig s1 = lastEdgeSig s"
    "edgeMeta s1 = edgeMeta s" "nodeColorMode s1 = nodeColorMode s" "body_light s1 = body_light s"
    using new(2) unfolding sync_effect_def by blast+
  have nds: "nodes s1 = nodes s" using core_nodes [OF st(1)] by simp
  have "i_id ` set ups' \<subseteq> i_id ` set ups \<union> v_id ` set (n # ns)"
  proof -
    have h: "i_id ` set ups' \<subseteq> i_id ` set ups1 \<union> v_id ` set ns" using IH by blast
    have "i_id ` set ups1 \<subseteq> i_id ` set ups \<union> {v_id n}" using ids(1) unfolding new(1) by auto
    then have "i_id ` set ups1 \<union> v_id ` set ns \<subseteq> i_id ` set ups \<union> v_id ` set (n # ns)" by auto
    with h show ?thesis by (rule subset_trans)
  qed
  moreover have "v_id ` set (n # ns) \<subseteq> set (map_keys (nodes s)) \<union> i_id ` set ups'"
  proof -
    have "v_id n \<in> set (map_keys (nodes s)) \<union> i_id ` set ups'"
    proof -
      have "set new \<subseteq> set ups'" using IH unfolding new(1) by simp
      then show ?thesis using ids(2) by blast
    qed
    moreover have "v_id ` set ns \<subseteq> set (map_keys (nodes s)) \<union> i_id ` set ups'"
      using IH unfolding nds by blast
    ultimately show ?thesis by simp
  qed
  ultimately show ?case using IH st new(1) by simp
qed

lemma flush_nodes_core:
  "core (flush_nodes (s, ups, mv, sn)) = core (nodes_put ups s)"
proof -
  have "nodes_put [] s = s" by (simp add: nodes_put_def)
  then show ?thesis by (simp add: flush_nodes_def Let_def)
qed

lemma flush_nodes_fields:
  "fullSyncIds (flush_nodes (s, ups, mv, sn)) = fullSyncIds s"
  "lastEdgeSig (flush_nodes (s, ups, mv, sn)) = lastEdgeSig s"
  "lastNodeSig (flush_nodes (s, ups, mv, sn)) = lastNodeSig s"
  by (simp_all add: flush_nodes_def Let_def startPositionAnimation_def emit_def)

lemma sync_edge_spec:
  assumes "sync_edge e (s, ups) = (s', ups')"
  shows "core s' = core s \<and> fullSyncIds s' = fullSyncIds s \<and> lastNodeSig s' = lastNodeSig s
    \<and> set ups \<subseteq> set ups' \<and> j_id ` set ups' \<subseteq> insert (w_id e) (j_id ` set ups)
    \<and> w_id e \<in> set (map_keys (edges s)) \<union> j_id ` set ups'"
  using assms js_map.keys_get [of "w_id e" "edges s"]
  by (auto simp: sync_edge_def Let_def core_def edge_up_to_date_def build_edge_item_def split: if_splits)

lemma fold_sync_edge:
  assumes "fold sync_edge es (s, ups) = (s', ups')"
  shows "core s' = core s \<and> fullSyncIds s' = fullSyncIds s \<and> lastNodeSig s' = lastNodeSig s
    \<and> j_id ` set ups' \<subseteq> j_id ` set ups \<union> w_id ` set es
    \<and> w_id ` set es \<subseteq> set (map_keys (edges s)) \<union> j_id ` set ups' \<and> set ups \<subseteq> set ups'"
  using assms
proof (induction es arbitrary: s ups)
  case Nil
  then show ?case by simp
next
  case (Cons e es)
  obtain s1 ups1 where one: "sync_edge e (s, ups) = (s1, ups1)" by fastforce
  have "fold sync_edge es (s1, ups1) = (s', ups')" using Cons.prems by (simp add: one)
  note IH = Cons.IH [OF this]
  note st = sync_edge_spec [OF one]
  have "edges s1 = edges s" using core_nodes st by blast
  then show ?case using IH st by (auto 0 3)
qed

lemma flush_edges_core: "core (flush_edges (s, ups)) = core (edges_put ups s)"
proof -
  have "edges_put [] s = s" by (simp add: edges_put_def)
  then show ?thesis by (simp add: flush_edges_def)
qed

lemma flush_edges_fields:
  "fullSyncIds (flush_edges (s, ups)) = fullSyncIds s" "lastNodeSig (flush_edges (s, ups)) = lastNodeSig s"
  by (simp_all add: flush_edges_def)

lemma core_nodes_put: "core s = core s' \<Longrightarrow> now s = now s' \<Longrightarrow> nodes (nodes_put ups s) = nodes (nodes_put ups s')"
  unfolding nodes_nodes_put by (simp add: core_def)

lemma forget_core [simp]: "core (fold forgetNodePosition ks s) = core s" "core (fold forgetEdge ks s) = core s"
proof -
  have "core (forgetNodePosition k t) = core t" "core (forgetEdge k t) = core t" for k and t :: "'a gstate_scheme"
    by (simp_all add: core_def forgetNodePosition_def forgetEdge_def)
  then show "core (fold forgetNodePosition ks s) = core s" "core (fold forgetEdge ks s) = core s"
    by (induction ks arbitrary: s) simp_all
qed

lemma fold_forget_fields [simp]:
  "fullSyncIds (fold forgetNodePosition ks s) = fullSyncIds s" "fullSyncIds (fold forgetEdge ks s) = fullSyncIds s"
  by (induction ks arbitrary: s) (simp_all add: forgetNodePosition_def forgetEdge_def)

lemma removals_spec:
  "set (map_keys (nodes (apply_removals data s))) = set (map_keys (nodes s)) - set (m_removedNodes data)
   \<and> set (map_keys (edges (apply_removals data s))) = set (map_keys (edges s)) - set (m_removedEdges data)
   \<and> fullSyncIds (apply_removals data s) = fullSyncIds s
   \<and> (mirrored s \<longrightarrow> mirrored (apply_removals data s))"
proof -
  let ?s1 = "if m_removedNodes data \<noteq> []
      then fold forgetNodePosition (m_removedNodes data) (nodes_remove (m_removedNodes data) s) else s"
  have n1: "nodes (fold forgetNodePosition ks (nodes_remove ks s)) = nodes (nodes_remove ks s)
      \<and> edges (fold forgetNodePosition ks (nodes_remove ks s)) = edges (nodes_remove ks s)" for ks
    by (rule core_nodes) simp
  have m1: "mirrored s \<Longrightarrow> mirrored (fold forgetNodePosition ks (nodes_remove ks s))" for ks
    using mirrored_nodes_remove mirrored_core [OF forget_core(1)] by metis
  have s1: "set (map_keys (nodes ?s1)) = set (map_keys (nodes s)) - set (m_removedNodes data)"
    "edges ?s1 = edges s" "mirrored s \<longrightarrow> mirrored ?s1" "fullSyncIds ?s1 = fullSyncIds s"
    using n1 m1 by (simp_all add: js_map.keys_del_all)
  have n2: "nodes (fold forgetEdge ks (edges_remove ks t)) = nodes t
      \<and> edges (fold forgetEdge ks (edges_remove ks t)) = fold AList.delete ks (edges t)" for ks and t :: "'a gstate_scheme"
    using core_nodes [OF forget_core(2), of ks "edges_remove ks t"] by simp
  have m2: "mirrored t \<Longrightarrow> mirrored (fold forgetEdge ks (edges_remove ks t))" for ks and t :: "'a gstate_scheme"
    using mirrored_edges_remove mirrored_core [OF forget_core(2)] by metis
  show ?thesis using s1 n2 m2 by (simp add: apply_removals_def Let_def js_map.keys_del_all)
qed

section \<open>The view holds exactly what the server lists\<close>

definition node_ids :: "'a gstate_scheme \<Rightarrow> string set" where
  "node_ids s = set (map_keys (nodes s))"

definition edge_ids :: "'a gstate_scheme \<Rightarrow> string set" where
  "edge_ids s = set (map_keys (edges s))"

lemma ids_core: "core s' = core s \<Longrightarrow> node_ids s' = node_ids s \<and> edge_ids s' = edge_ids s"
  unfolding node_ids_def edge_ids_def using core_nodes by metis

lemma ids_nodes_put:
  "node_ids (nodes_put ups s) = node_ids s \<union> i_id ` set ups" "edge_ids (nodes_put ups s) = edge_ids s"
  by (simp_all add: node_ids_def edge_ids_def keys_nodes_put)

lemma ids_edges_put:
  "edge_ids (edges_put ups s) = edge_ids s \<union> j_id ` set ups" "node_ids (edges_put ups s) = node_ids s"
  by (simp_all add: node_ids_def edge_ids_def keys_edges_put)

lemma node_pass:
  fixes s :: "'a gstate_scheme" and es :: "vedge list" and ns :: "vnode list"
  defines "s' \<equiv> flush_nodes (fold (sync_node es) ns (s, [], False, False))"
  shows "node_ids s' = node_ids s \<union> v_id ` set ns" and "edge_ids s' = edge_ids s"
    and "fullSyncIds s' = fullSyncIds s" and "mirrored s \<Longrightarrow> mirrored s'"
proof -
  obtain s1 ups mv sn where f: "fold (sync_node es) ns (s, [], False, False) = (s1, ups, mv, sn)"
    by (metis prod_cases4)
  note sp = fold_sync_node [OF f]
  have c: "core s1 = core s" using sp by blast
  have p: "core s' = core (nodes_put ups s1)" by (simp add: s'_def f flush_nodes_core)
  have "i_id ` set ups \<subseteq> v_id ` set ns" "v_id ` set ns \<subseteq> node_ids s \<union> i_id ` set ups"
    using sp by (simp_all add: node_ids_def)
  moreover have "node_ids s' = node_ids s \<union> i_id ` set ups"
    using ids_core [OF p] ids_core [OF c] ids_nodes_put by metis
  ultimately show "node_ids s' = node_ids s \<union> v_id ` set ns" by blast
  show "edge_ids s' = edge_ids s" using ids_core [OF p] ids_core [OF c] ids_nodes_put by metis
  show "fullSyncIds s' = fullSyncIds s" using sp by (simp add: s'_def f flush_nodes_fields)
  show "mirrored s \<Longrightarrow> mirrored s'"
    using mirrored_nodes_put mirrored_core [OF p] mirrored_core [OF c] by metis
qed

lemma edge_pass:
  fixes s :: "'a gstate_scheme" and es :: "vedge list"
  defines "s' \<equiv> flush_edges (fold sync_edge es (s, []))"
  shows "edge_ids s' = edge_ids s \<union> w_id ` set es" and "node_ids s' = node_ids s"
    and "fullSyncIds s' = fullSyncIds s" and "mirrored s \<Longrightarrow> mirrored s'"
proof -
  obtain s1 ups where f: "fold sync_edge es (s, []) = (s1, ups)" by fastforce
  note sp = fold_sync_edge [OF f]
  have c: "core s1 = core s" using sp by blast
  have p: "core s' = core (edges_put ups s1)" by (simp add: s'_def f flush_edges_core)
  have "j_id ` set ups \<subseteq> w_id ` set es" "w_id ` set es \<subseteq> edge_ids s \<union> j_id ` set ups"
    using sp by (simp_all add: edge_ids_def)
  moreover have "edge_ids s' = edge_ids s \<union> j_id ` set ups"
    using ids_core [OF p] ids_core [OF c] ids_edges_put by metis
  ultimately show "edge_ids s' = edge_ids s \<union> w_id ` set es" by blast
  show "node_ids s' = node_ids s" using ids_core [OF p] ids_core [OF c] ids_edges_put by metis
  show "fullSyncIds s' = fullSyncIds s" using sp by (simp add: s'_def f flush_edges_fields)
  show "mirrored s \<Longrightarrow> mirrored s'"
    using mirrored_edges_put mirrored_core [OF p] mirrored_core [OF c] by metis
qed

lemma fullSync_dim [simp]: "fullSyncIds (applyFocusDim s) = fullSyncIds s"
  by (simp add: applyFocusDim_def)

lemma fullSync_range [simp]: "fullSyncIds (apply_value_range data s) = fullSyncIds s"
  by (simp add: apply_value_range_def emit_def split: option.splits)

lemma sync_items_spec:
  "node_ids (sync_items data s) = (node_ids s - set (m_removedNodes data)) \<union> v_id ` set (m_nodes data)
   \<and> edge_ids (sync_items data s) = (edge_ids s - set (m_removedEdges data)) \<union> w_id ` set (m_edges data)
   \<and> fullSyncIds (sync_items data s) = fullSyncIds (collect_ids data (apply_value_range data s))
   \<and> (mirrored s \<longrightarrow> mirrored (sync_items data s))"
proof -
  define c where "c = collect_ids data (apply_value_range data s)"
  define r where "r = apply_removals data c"
  define n where "n = flush_nodes (fold (sync_node (m_edges data)) (m_nodes data) (r, [], False, False))"
  define e where "e = flush_edges (fold sync_edge (m_edges data) (n, []))"
  have cc: "core c = core s" by (simp add: c_def)
  have r: "node_ids r = node_ids s - set (m_removedNodes data)" "edge_ids r = edge_ids s - set (m_removedEdges data)"
    "fullSyncIds r = fullSyncIds c" "mirrored s \<Longrightarrow> mirrored r"
    using removals_spec [of data c] ids_core [OF cc] mirrored_core [OF cc]
    unfolding node_ids_def edge_ids_def r_def by simp_all
  note np = node_pass [where es = "m_edges data" and ns = "m_nodes data" and s = r, folded n_def]
  note ep = edge_pass [where es = "m_edges data" and s = n, folded e_def]
  have "core (sync_items data s) = core e" and f: "fullSyncIds (sync_items data s) = fullSyncIds e"
    by (simp_all add: sync_items_def Let_def e_def n_def r_def c_def)
  then have i: "node_ids (sync_items data s) = node_ids e \<and> edge_ids (sync_items data s) = edge_ids e"
    and m: "mirrored (sync_items data s) = mirrored e" using ids_core mirrored_core by blast+
  show ?thesis unfolding c_def [symmetric] using i m f r np ep by simp
qed

lemma reconcile_open: "\<not> m_fullDone data \<Longrightarrow> reconcile data s = s"
  by (simp add: reconcile_def)

definition kept_nodes :: "graph_msg \<Rightarrow> 'a gstate_scheme \<Rightarrow> string set" where
  "kept_nodes data s = (case fullSyncIds s of Some (ns, _) \<Rightarrow> set ns | None \<Rightarrow> v_id ` set (m_nodes data))"

definition kept_edges :: "graph_msg \<Rightarrow> 'a gstate_scheme \<Rightarrow> string set" where
  "kept_edges data s = (case fullSyncIds s of Some (_, es) \<Rightarrow> set es | None \<Rightarrow> w_id ` set (m_edges data))"

lemma drop_nodes_spec:
  "node_ids (drop_stale_nodes keep s) = node_ids s \<inter> set keep"
  "edges (drop_stale_nodes keep s) = edges s"
  "fullSyncIds (drop_stale_nodes keep s) = fullSyncIds s"
  "mirrored s \<Longrightarrow> mirrored (drop_stale_nodes keep s)"
proof -
  define stale where "stale = filter (\<lambda>k. k \<notin> set keep) (map_keys (nodes s))"
  let ?r = "nodes_remove stale s"
  have d: "drop_stale_nodes keep s = (if stale = [] then s else fold forgetNodePosition stale ?r)"
    by (simp add: drop_stale_nodes_def stale_def Let_def)
  have c: "core (fold forgetNodePosition stale ?r) = core ?r" by simp
  note n = core_nodes [OF c]
  have st: "set stale = node_ids s - set keep" by (auto simp: stale_def node_ids_def)
  have "node_ids ?r = node_ids s - set stale" by (simp add: node_ids_def js_map.keys_del_all)
  then show "node_ids (drop_stale_nodes keep s) = node_ids s \<inter> set keep"
    using st ids_core [OF c] unfolding d by (cases "stale = []") auto
  show "edges (drop_stale_nodes keep s) = edges s" using n by (simp add: d)
  show "fullSyncIds (drop_stale_nodes keep s) = fullSyncIds s" by (simp add: d)
  show "mirrored s \<Longrightarrow> mirrored (drop_stale_nodes keep s)"
    using mirrored_nodes_remove mirrored_core [OF c] unfolding d by (cases "stale = []") simp_all
qed

lemma drop_edges_spec:
  "edge_ids (drop_stale_edges keep s) = edge_ids s \<inter> set keep"
  "nodes (drop_stale_edges keep s) = nodes s"
  "fullSyncIds (drop_stale_edges keep s) = fullSyncIds s"
  "mirrored s \<Longrightarrow> mirrored (drop_stale_edges keep s)"
proof -
  define stale where "stale = filter (\<lambda>k. k \<notin> set keep) (map_keys (edges s))"
  let ?r = "edges_remove stale s"
  have d: "drop_stale_edges keep s = (if stale = [] then s else fold forgetEdge stale ?r)"
    by (simp add: drop_stale_edges_def stale_def Let_def)
  have c: "core (fold forgetEdge stale ?r) = core ?r" by simp
  note n = core_nodes [OF c]
  have st: "set stale = edge_ids s - set keep" by (auto simp: stale_def edge_ids_def)
  have "edge_ids ?r = edge_ids s - set stale" by (simp add: edge_ids_def js_map.keys_del_all)
  then show "edge_ids (drop_stale_edges keep s) = edge_ids s \<inter> set keep"
    using st ids_core [OF c] unfolding d by (cases "stale = []") auto
  show "nodes (drop_stale_edges keep s) = nodes s" using n by (simp add: d)
  show "fullSyncIds (drop_stale_edges keep s) = fullSyncIds s" by (simp add: d)
  show "mirrored s \<Longrightarrow> mirrored (drop_stale_edges keep s)"
    using mirrored_edges_remove mirrored_core [OF c] unfolding d by (cases "stale = []") simp_all
qed

lemma reconcile_spec:
  assumes "m_fullDone data"
  shows "node_ids (reconcile data s) = node_ids s \<inter> kept_nodes data s
    \<and> edge_ids (reconcile data s) = edge_ids s \<inter> kept_edges data s
    \<and> fullSyncIds (reconcile data s) = None \<and> (mirrored s \<longrightarrow> mirrored (reconcile data s))"
proof -
  let ?kn = "case fullSyncIds s of Some (ns, _) \<Rightarrow> ns | None \<Rightarrow> map v_id (m_nodes data)"
  let ?ke = "case fullSyncIds s of Some (_, es) \<Rightarrow> es | None \<Rightarrow> map w_id (m_edges data)"
  define s0 where "s0 = s\<lparr>fullSyncIds := None\<rparr>"
  define dn where "dn = drop_stale_nodes ?kn s0"
  define de where "de = drop_stale_edges ?ke dn"
  have kn: "set ?kn = kept_nodes data s" "set ?ke = kept_edges data s"
    by (auto simp: kept_nodes_def kept_edges_def split: option.splits)
  have c0: "core s0 = core s" "fullSyncIds s0 = None" by (simp_all add: core_def s0_def)
  have cf: "core (t\<lparr>fitOnNextFull := b\<rparr>) = core t" "fullSyncIds (t\<lparr>fitOnNextFull := b\<rparr>) = fullSyncIds t"
    for t :: "'a gstate_scheme" and b by (simp_all add: core_def)
  note ns = drop_nodes_spec [where s = s0 and keep = ?kn, folded dn_def, unfolded kn]
  note es = drop_edges_spec [where s = dn and keep = ?ke, folded de_def, unfolded kn]
  have "core (reconcile data s) = core de" and f: "fullSyncIds (reconcile data s) = fullSyncIds de"
    using assms by (simp_all add: reconcile_def Let_def cf de_def dn_def s0_def)
  then have i: "node_ids (reconcile data s) = node_ids de \<and> edge_ids (reconcile data s) = edge_ids de"
    and m: "mirrored (reconcile data s) = mirrored de" using ids_core mirrored_core by blast+
  have "node_ids de = node_ids dn" "edge_ids dn = edge_ids s0"
    unfolding node_ids_def edge_ids_def ns(2) es(2) by simp_all
  then show ?thesis using i m f ns es c0(2) ids_core [OF c0(1)] mirrored_core [OF c0(1)] by simp
qed

lemma updateGraph_ids:
  "node_ids (updateGraph data s) = node_ids (reconcile data (sync_items data s))"
  "edge_ids (updateGraph data s) = edge_ids (reconcile data (sync_items data s))"
  using ids_core [OF core_after_sync] by auto

text \<open>
  Whatever message arrives, the renderer keeps drawing exactly the nodes and links of the two
  DataSets.
\<close>

lemma mirror_update:
  assumes "mirrored s"
  shows "mirrored (updateGraph data s)"
proof -
  have "mirrored (sync_items data s)" using assms sync_items_spec by blast
  then have "mirrored (reconcile data (sync_items data s))"
    using reconcile_spec [of data "sync_items data s"] by (cases "m_fullDone data") (simp_all add: reconcile_open)
  then show ?thesis using mirrored_core [OF core_after_sync] by blast
qed

lemma delta_ids:
  assumes "\<not> m_fullDone data"
  shows "node_ids (updateGraph data s) = (node_ids s - set (m_removedNodes data)) \<union> v_id ` set (m_nodes data)
    \<and> edge_ids (updateGraph data s) = (edge_ids s - set (m_removedEdges data)) \<union> w_id ` set (m_edges data)"
  using sync_items_spec [of data s] by (simp add: updateGraph_ids reconcile_open [OF assms])

text \<open>
  C4: a delta removes exactly the listed items and adds or keeps exactly the incoming ones.
\<close>

theorem delta_applies_exactly:
  assumes "\<not> m_fullDone data"
  shows "node_ids (updateGraph data s) = (node_ids s - set (m_removedNodes data)) \<union> v_id ` set (m_nodes data)
    \<and> edge_ids (updateGraph data s) = (edge_ids s - set (m_removedEdges data)) \<union> w_id ` set (m_edges data)"
  using delta_ids [OF assms] .

subsection \<open>Chunked snapshots\<close>

lemma fullSync_page [simp]:
  "fullSyncIds (emit ev s) = fullSyncIds s" "fullSyncIds (upd_el k f s) = fullSyncIds s"
  by (simp_all add: page_defs)

lemma fullSync_packets [simp]: "fullSyncIds (updatePacketCache ps s) = fullSyncIds s"
proof -
  have r: "fullSyncIds (renderVisiblePackets t) = fullSyncIds t" for t :: "'a gstate_scheme"
    by (simp add: renderVisiblePackets_def Let_def split: prod.splits)
  have b: "fullSyncIds (buildFilteredPacketList t) = fullSyncIds t" for t :: "'a gstate_scheme"
    by (simp add: buildFilteredPacketList_def Let_def)
  show ?thesis by (simp add: updatePacketCache_def Let_def r b)
qed

lemma fullSync_counts [simp]: "fullSyncIds (updateProtocolCounts st s) = fullSyncIds s"
proof -
  have "fullSyncIds (fold (\<lambda>(el, proto). upd_el el (el_text (count_text st proto))) xs t) = fullSyncIds t"
    for xs and t :: "'a gstate_scheme"
    by (induction xs arbitrary: t) (auto split: prod.splits)
  then show ?thesis by (simp add: updateProtocolCounts_def Let_def split: option.splits)
qed

lemma fullSync_tail [simp]:
  "fullSyncIds (update_islands data s) = fullSyncIds s" "fullSyncIds (update_stats data s) = fullSyncIds s"
  "fullSyncIds (maybeApplyPerformanceTier s) = fullSyncIds s" "fullSyncIds (feed_traffic data s) = fullSyncIds s"
  by (simp_all add: update_islands_def update_stats_def updateStatistics_def maybeApplyPerformanceTier_def
      feed_traffic_def feedFlowParticles_def startFlowAnimation_def Let_def split: option.splits)

lemma updateGraph_sync: "fullSyncIds (updateGraph data s) = fullSyncIds (reconcile data (sync_items data s))"
  by (simp add: updateGraph_def Let_def split: option.splits)

definition no_removals :: "graph_msg \<Rightarrow> bool" where
  "no_removals data \<longleftrightarrow> m_removedNodes data = [] \<and> m_removedEdges data = []"

text \<open>Mid-transfer: the ids collected so far are the given ones and all of them are shown.\<close>

definition collecting :: "'a gstate_scheme \<Rightarrow> string set \<Rightarrow> string set \<Rightarrow> bool" where
  "collecting s N E \<longleftrightarrow> (\<exists>ns es. fullSyncIds s = Some (ns, es) \<and> set ns = N \<and> set es = E
     \<and> N \<subseteq> node_ids s \<and> E \<subseteq> edge_ids s)"

lemma set_add_all: "set (fold (\<lambda>v. set_add (f v)) vs s) = set s \<union> f ` set vs"
  by (rule js_set.add_all)

lemma chunk_first:
  assumes "m_isFull d" and "m_partial d" and "\<not> m_fullDone d"
  shows "collecting (updateGraph d s) (v_id ` set (m_nodes d)) (w_id ` set (m_edges d))"
  using sync_items_spec [of d s] assms
  by (simp add: collecting_def updateGraph_ids updateGraph_sync reconcile_open collect_ids_def set_add_all)

lemma chunk_next:
  assumes "collecting s N E" and "\<not> m_isFull d" and "no_removals d"
  shows "collecting (sync_items d s) (N \<union> v_id ` set (m_nodes d)) (E \<union> w_id ` set (m_edges d))"
  using sync_items_spec [of d s] assms
  by (auto simp: collecting_def collect_ids_def set_add_all no_removals_def)

lemma chunks_middle:
  assumes "collecting s N E" and "\<forall>d \<in> set ds. \<not> m_isFull d \<and> \<not> m_fullDone d \<and> no_removals d"
  shows "collecting (fold updateGraph ds s) (N \<union> (\<Union>d \<in> set ds. v_id ` set (m_nodes d)))
    (E \<union> (\<Union>d \<in> set ds. w_id ` set (m_edges d)))"
  using assms
proof (induction ds arbitrary: s N E)
  case Nil
  then show ?case by simp
next
  case (Cons d ds)
  have "collecting (updateGraph d s) (N \<union> v_id ` set (m_nodes d)) (E \<union> w_id ` set (m_edges d))"
    using chunk_next [OF Cons.prems(1), of d] Cons.prems(2)
    by (simp add: collecting_def updateGraph_ids updateGraph_sync reconcile_open)
  from Cons.IH [OF this] Cons.prems(2) show ?case by (simp add: Un_assoc)
qed

text \<open>
  C3: a full snapshot streamed in chunks ends with exactly the union of what the chunks carried on
  screen, as if it had come in one message, whatever was shown before.
\<close>

theorem chunks_make_whole:
  assumes "m_isFull d0" and "m_partial d0" and "\<not> m_fullDone d0"
    and "\<forall>d \<in> set ds. \<not> m_isFull d \<and> \<not> m_fullDone d \<and> no_removals d"
    and "\<not> m_isFull dn" and "m_fullDone dn" and "no_removals dn"
  shows "node_ids (fold updateGraph (d0 # ds @ [dn]) s) = (\<Union>d \<in> set (d0 # ds @ [dn]). v_id ` set (m_nodes d))
    \<and> edge_ids (fold updateGraph (d0 # ds @ [dn]) s) = (\<Union>d \<in> set (d0 # ds @ [dn]). w_id ` set (m_edges d))
    \<and> fullSyncIds (fold updateGraph (d0 # ds @ [dn]) s) = None"
proof -
  define m where "m = fold updateGraph ds (updateGraph d0 s)"
  define N where "N = v_id ` set (m_nodes d0) \<union> (\<Union>d \<in> set ds. v_id ` set (m_nodes d)) \<union> v_id ` set (m_nodes dn)"
  define E where "E = w_id ` set (m_edges d0) \<union> (\<Union>d \<in> set ds. w_id ` set (m_edges d)) \<union> w_id ` set (m_edges dn)"
  have "collecting (sync_items dn m) N E"
    unfolding N_def E_def m_def
    by (intro chunk_next chunks_middle chunk_first assms)
  then obtain ns es where c: "fullSyncIds (sync_items dn m) = Some (ns, es)" "set ns = N" "set es = E"
    "N \<subseteq> node_ids (sync_items dn m)" "E \<subseteq> edge_ids (sync_items dn m)"
    unfolding collecting_def by blast
  have "node_ids (updateGraph dn m) = N \<and> edge_ids (updateGraph dn m) = E \<and> fullSyncIds (updateGraph dn m) = None"
    using reconcile_spec [OF assms(6), of "sync_items dn m"] c
    by (auto simp: updateGraph_ids updateGraph_sync kept_nodes_def kept_edges_def)
  then show ?thesis by (auto simp: m_def N_def E_def)
qed

lemma snapshot_ids:
  assumes "m_isFull data" and "\<not> m_partial data" and "m_fullDone data"
  shows "node_ids (updateGraph data s) = v_id ` set (m_nodes data)
    \<and> edge_ids (updateGraph data s) = w_id ` set (m_edges data)
    \<and> fullSyncIds (reconcile data (sync_items data s)) = None"
proof -
  have "fullSyncIds (sync_items data s) = None"
    using sync_items_spec [of data s] assms by (simp add: collect_ids_def)
  then show ?thesis
    using reconcile_spec [OF assms(3), of "sync_items data s"] sync_items_spec [of data s]
    by (auto simp: updateGraph_ids kept_nodes_def kept_edges_def)
qed

text \<open>
  Lemma: after an unchunked full snapshot the view holds exactly the nodes and links of the snapshot,
  whatever was shown before (a reconnect leaves no decayed node behind).
\<close>

theorem snapshot_is_exact:
  assumes "m_isFull data" and "\<not> m_partial data" and "m_fullDone data"
  shows "node_ids (updateGraph data s) = v_id ` set (m_nodes data)
    \<and> edge_ids (updateGraph data s) = w_id ` set (m_edges data)
    \<and> fullSyncIds (reconcile data (sync_items data s)) = None"
  using snapshot_ids [OF assms] .

definition empty_msg :: graph_msg where
  "empty_msg = \<lparr> m_nodes = [], m_edges = [], m_removedNodes = [], m_removedEdges = [], m_isFull = False,
     m_partial = False, m_fullDone = False, m_packets = [], m_stats = None, m_protocolStats = None,
     m_trafficFlows = [], m_subnetIslands = None, m_valueRange = None \<rparr>"

definition sample_vnode :: "string \<Rightarrow> vnode" where
  "sample_vnode k = \<lparr> v_id = k, v_label = k, v_pos = Some (1, 2), v_pinned = False, v_isGroup = False,
     v_isSubnet = False, v_isTail = False, v_hostCount = 0, v_role = ''client'', v_value = 3,
     v_colorTier = 1, v_color = [], v_packetCount = 5, v_byteCount = 700, v_ips = None,
     v_deviceInfo = [], v_detailLoaded = False, v_macs = None, v_primaryMac = [], v_vendor = [],
     v_deviceClass = [], v_peers = 0, v_detailEdges = None, v_tooltip = [] \<rparr>"

theorem delta_applies_exactly_witness:
  "node_ids (updateGraph (empty_msg\<lparr>m_nodes := [sample_vnode ''a'']\<rparr>) sample_gstate) = {''a''}"
  using delta_applies_exactly [of "empty_msg\<lparr>m_nodes := [sample_vnode ''a'']\<rparr>" sample_gstate]
  by (simp add: empty_msg_def node_ids_def map_keys_def sample_vnode_def)

theorem snapshot_is_exact_witness:
  "node_ids (updateGraph (empty_msg\<lparr>m_isFull := True, m_fullDone := True, m_nodes := [sample_vnode ''b'']\<rparr>)
     (sample_gstate\<lparr>nodes := [(''a'', undefined)]\<rparr>)) = {''b''}"
  using snapshot_is_exact [of "empty_msg\<lparr>m_isFull := True, m_fullDone := True, m_nodes := [sample_vnode ''b'']\<rparr>"
      "sample_gstate\<lparr>nodes := [(''a'', undefined)]\<rparr>"]
  by (simp add: empty_msg_def sample_vnode_def)

theorem chunks_make_whole_witness:
  "node_ids (fold updateGraph
     [empty_msg\<lparr>m_isFull := True, m_partial := True, m_nodes := [sample_vnode ''b'']\<rparr>,
      empty_msg\<lparr>m_partial := True, m_fullDone := True, m_nodes := [sample_vnode ''c'']\<rparr>]
     (sample_gstate\<lparr>nodes := [(''a'', undefined)]\<rparr>)) = {''b'', ''c''}"
  using chunks_make_whole [of "empty_msg\<lparr>m_isFull := True, m_partial := True, m_nodes := [sample_vnode ''b'']\<rparr>"
      "[]" "empty_msg\<lparr>m_partial := True, m_fullDone := True, m_nodes := [sample_vnode ''c'']\<rparr>"
      "sample_gstate\<lparr>nodes := [(''a'', undefined)]\<rparr>"]
  by (auto simp: empty_msg_def sample_vnode_def no_removals_def)

end
