(* ===== verification/Freshness.thy ===== *)
theory Freshness
  imports GraphSync
begin

text \<open>
  Why \<^verbatim>\<open>updateGraph\<close> may skip a node whose render signature has not changed: the signature
  decides everything that is drawn of the node, so what stays in the DataSet is what would have been
  written again.
\<close>

section \<open>Skipping by signature never leaves a stale item\<close>

text \<open>What is drawn of a node, read off its item and off the node the server sent.\<close>

datatype look = Look string string string string bool bool bool nat

definition item_look :: "node_item \<Rightarrow> look" where
  "item_look i = Look (i_label i) (i_shape i) (json_color (i_color i)) (i_role i) (i_isGroup i)
     (i_isSubnet i) (i_isTail i) (i_hostCount i)"

definition node_look :: "string \<Rightarrow> bool \<Rightarrow> vnode \<Rightarrow> look" where
  "node_look mode light n = Look (formatNodeLabel n) (viewNodeShape n) (json_color (viewNodeColor mode n light))
     (v_role n) (v_isGroup n) (v_isSubnet n) (v_isTail n) (v_hostCount n)"

lemma look_build [simp]: "item_look (build_node_item mode light pos n) = node_look mode light n"
  by (simp add: item_look_def node_look_def build_node_item_def)

lemma look_merge [simp]: "item_look (merge_node old i) = item_look i"
  by (simp add: item_look_def merge_node_def split: option.splits)

lemma sig_decides_look:
  "clean_node a \<Longrightarrow> clean_node b \<Longrightarrow> node_sig False mode l a = node_sig False mode l b \<Longrightarrow>
     node_look mode l a = node_look mode l b"
  using node_sig_fields [of a b mode l] by (simp add: node_look_def)

lemma carry_fields [simp]:
  "v_label (carry_detail p n) = v_label n" "v_isGroup (carry_detail p n) = v_isGroup n"
  "v_isSubnet (carry_detail p n) = v_isSubnet n" "v_isTail (carry_detail p n) = v_isTail n"
  "v_hostCount (carry_detail p n) = v_hostCount n" "v_role (carry_detail p n) = v_role n"
  "v_color (carry_detail p n) = v_color n" "v_colorTier (carry_detail p n) = v_colorTier n"
  "v_value (carry_detail p n) = v_value n"
  by (simp_all add: carry_detail_def split: option.splits)

lemma carry_functions [simp]:
  "formatNodeLabel (carry_detail p n) = formatNodeLabel n" "viewNodeShape (carry_detail p n) = viewNodeShape n"
  "viewNodeColor mode (carry_detail p n) l = viewNodeColor mode n l"
  by (simp_all add: formatNodeLabel_def viewNodeShape_def viewNodeColor_def)

lemma carried_look:
  "node_look mode l (carried s n) = node_look mode l n" "clean_node (carried s n) = clean_node n"
  "node_sig c mode l (carried s n) = node_sig c mode l n"
  by (simp_all add: carried_def node_look_def clean_node_def node_sig_def Let_def)

definition pending :: "(string \<times> node_item) list \<Rightarrow> node_item list \<Rightarrow> string \<Rightarrow> look option" where
  "pending ds ups k =
     (case map_of (rev (map (\<lambda>i. (i_id i, i)) ups)) k of
        Some i \<Rightarrow> Some (item_look i) | None \<Rightarrow> map_option item_look (map_of ds k))"

lemma look_put_all: "map_option item_look (map_of (fold (\<lambda>i. put_node (i_id i) i) ups ds) k) = pending ds ups k"
proof (induction ups arbitrary: ds)
  case Nil
  then show ?case by (simp add: pending_def)
next
  case (Cons u us)
  show ?case by (simp add: Cons.IH) (auto simp: pending_def node_ds.get_put map_add_def split: option.splits)
qed

lemma pending_snoc: "pending ds (ups @ [i]) k = (if k = i_id i then Some (item_look i) else pending ds ups k)"
  by (simp add: pending_def)

definition sound :: "string \<Rightarrow> bool \<Rightarrow> (string \<times> string) list \<Rightarrow> (string \<Rightarrow> look option) \<Rightarrow> bool" where
  "sound mode light sigs shown \<longleftrightarrow> (\<forall>k sig l. map_of sigs k = Some sig \<longrightarrow> shown k = Some l \<longrightarrow>
     (\<exists>n. clean_node n \<and> sig = node_sig False mode light n \<and> l = node_look mode light n))"

lemma pending_present: "map_of ds k \<noteq> None \<Longrightarrow> pending ds ups k \<noteq> None"
  by (auto simp: pending_def split: option.splits)

lemma sync_effect_sound:
  assumes "sync_effect s n s' new" and "\<not> net_is isCosmos s" and "clean_node n"
    and "sound (nodeColorMode s) (body_light s) (lastNodeSig s) (pending (nodes s) ups)"
  shows "sound (nodeColorMode s) (body_light s) (lastNodeSig s') (pending (nodes s) (ups @ new))"
    and "pending (nodes s) (ups @ new) (v_id n) = Some (node_look (nodeColorMode s) (body_light s) n)"
    and "k \<noteq> v_id n \<Longrightarrow> pending (nodes s) (ups @ new) k = pending (nodes s) ups k"
proof -
  let ?m = "nodeColorMode s" and ?l = "body_light s"
  let ?sig = "node_sig False ?m ?l n"
  have sig: "sig_of s (carried s n) = ?sig" using assms(2) by (simp add: sig_of_def carried_look)
  have "sound ?m ?l (lastNodeSig s') (pending (nodes s) (ups @ new))
      \<and> pending (nodes s) (ups @ new) (v_id n) = Some (node_look ?m ?l n)
      \<and> (k \<noteq> v_id n \<longrightarrow> pending (nodes s) (ups @ new) k = pending (nodes s) ups k)"
  proof (cases "node_up_to_date (v_id n) ?sig s")
    case True
    then have e: "new = []" "lastNodeSig s' = lastNodeSig s"
      using assms(1) by (simp_all add: sync_effect_def sig)
    have "map_of (lastNodeSig s) (v_id n) = Some ?sig" "pending (nodes s) ups (v_id n) \<noteq> None"
      using True pending_present by (auto simp: node_up_to_date_def)
    then obtain l n' where l: "pending (nodes s) ups (v_id n) = Some l" "clean_node n'"
      "?sig = node_sig False ?m ?l n'" "l = node_look ?m ?l n'"
      using assms(4) unfolding sound_def by blast
    then have "l = node_look ?m ?l n" using sig_decides_look [OF assms(3) l(2,3)] by simp
    then show ?thesis using assms(4) e l(1) by simp
  next
    case False
    then obtain pos where e: "new = [build_node_item ?m ?l pos (carried s n)]"
      "lastNodeSig s' = AList.update (v_id n) ?sig (lastNodeSig s)"
      using assms(1) unfolding sync_effect_def sig by auto
    have id: "i_id (build_node_item ?m ?l pos (carried s n)) = v_id n" by (simp add: build_node_item_def)
    have p: "pending (nodes s) (ups @ new) k' =
        (if k' = v_id n then Some (node_look ?m ?l n) else pending (nodes s) ups k')" for k'
      unfolding e(1) pending_snoc id by (simp add: carried_look)
    show ?thesis using assms(3,4) unfolding sound_def p e(2) by auto
  qed
  then show "sound ?m ?l (lastNodeSig s') (pending (nodes s) (ups @ new))"
    "pending (nodes s) (ups @ new) (v_id n) = Some (node_look ?m ?l n)"
    "k \<noteq> v_id n \<Longrightarrow> pending (nodes s) (ups @ new) k = pending (nodes s) ups k" by blast+
qed

lemma fold_sync_sound:
  assumes "fold (sync_node es) ns (s, ups, mv, sn) = (s', ups', mv', sn')"
    and "\<not> net_is isCosmos s" and "\<forall>n \<in> set ns. clean_node n" and "distinct (map v_id ns)"
    and "sound (nodeColorMode s) (body_light s) (lastNodeSig s) (pending (nodes s) ups)"
  shows "sound (nodeColorMode s) (body_light s) (lastNodeSig s') (pending (nodes s) ups')
    \<and> (\<forall>n \<in> set ns. pending (nodes s) ups' (v_id n) = Some (node_look (nodeColorMode s) (body_light s) n))
    \<and> (\<forall>k. k \<notin> v_id ` set ns \<longrightarrow> pending (nodes s) ups' k = pending (nodes s) ups k)"
  using assms
proof (induction ns arbitrary: s ups mv sn)
  case Nil
  then show ?case by simp
next
  case (Cons n ns)
  obtain s1 ups1 mv1 sn1 where one: "sync_node es n (s, ups, mv, sn) = (s1, ups1, mv1, sn1)"
    by (metis prod_cases4)
  have rest: "fold (sync_node es) ns (s1, ups1, mv1, sn1) = (s', ups', mv', sn')"
    using Cons.prems by (simp add: one)
  obtain new where new: "ups1 = ups @ new" "sync_effect s n s1 new"
    using sync_node_spec [OF one] by blast
  have st: "core s1 = core s" "nodeColorMode s1 = nodeColorMode s" "body_light s1 = body_light s"
    using new(2) unfolding sync_effect_def by blast+
  have nds: "nodes s1 = nodes s" using core_nodes [OF st(1)] by simp
  have cl: "clean_node n" using Cons.prems(3) by simp
  note ef = sync_effect_sound [OF new(2) Cons.prems(2) cl Cons.prems(5)]
  have "\<not> net_is isCosmos s1" using cosmos_core [OF st(1)] Cons.prems(2) by simp
  from Cons.IH [OF rest this] have IH: "sound (nodeColorMode s) (body_light s) (lastNodeSig s') (pending (nodes s) ups')
    \<and> (\<forall>n \<in> set ns. pending (nodes s) ups' (v_id n) = Some (node_look (nodeColorMode s) (body_light s) n))
    \<and> (\<forall>k. k \<notin> v_id ` set ns \<longrightarrow> pending (nodes s) ups' k = pending (nodes s) (ups @ new) k)"
    using Cons.prems(3,4) ef(1) by (simp add: st nds new(1))
  have "v_id n \<notin> v_id ` set ns" using Cons.prems(4) by simp
  then show ?case using IH ef(2,3) by auto
qed

subsection \<open>The invariant over whole messages\<close>

definition shown :: "'a gstate_scheme \<Rightarrow> string \<Rightarrow> look option" where
  "shown s k = map_option item_look (map_of (nodes s) k)"

text \<open>Every remembered signature is the signature of a node drawn the way its item looks.\<close>

definition view_true :: "'a gstate_scheme \<Rightarrow> bool" where
  "view_true s = sound (nodeColorMode s) (body_light s) (lastNodeSig s) (shown s)"

definition marks :: "'a gstate_scheme \<Rightarrow> (string \<times> string) list \<times> string \<times> bool" where
  "marks s = (lastNodeSig s, nodeColorMode s, body_light s)"

lemma shown_core: "core s' = core s \<Longrightarrow> shown s' = shown s"
  using core_nodes by (fastforce simp: shown_def fun_eq_iff)

lemma view_true_frame: "shown s' = shown s \<Longrightarrow> marks s' = marks s \<Longrightarrow> view_true s' = view_true s"
  by (simp add: view_true_def marks_def)

lemma sound_mono:
  assumes "sound m l sigs sh" and "map_of sigs' \<subseteq>\<^sub>m map_of sigs" and "sh' \<subseteq>\<^sub>m sh"
  shows "sound m l sigs' sh'"
  using assms unfolding sound_def map_le_def by (metis domI)

lemma marks_basic [simp]:
  "marks (with_net f s) = marks s" "marks (emit ev s) = marks s" "marks (upd_el k g s) = marks s"
  "marks (create_el k el s) = marks s" "marks (nodes_put ups s) = marks s" "marks (edges_put eups s) = marks s"
  "marks (edges_remove ks s) = marks s" "marks (nodes_remove ks s) = marks s" "marks (applyFocusDim s) = marks s"
  "marks (startPositionAnimation s) = marks s" "marks (startFlowAnimation s) = marks s"
  by (simp_all add: marks_def with_net_def page_defs nodes_put_def edges_put_def edges_remove_def nodes_remove_def
      applyFocusDim_def startPositionAnimation_def startFlowAnimation_def Let_def split: prod.splits)

lemma marks_forgetEdges [simp]: "marks (fold forgetEdge ks s) = marks s"
  by (induction ks arbitrary: s) (simp_all add: marks_def forgetEdge_def)

lemma marks_packets [simp]: "marks (updatePacketCache ps s) = marks s"
proof -
  have r: "marks (renderVisiblePackets t) = marks t" for t :: "'a gstate_scheme"
    by (simp add: renderVisiblePackets_def Let_def split: prod.splits)
  have b: "marks (buildFilteredPacketList t) = marks t" "marks (t\<lparr>packets := x\<rparr>) = marks t"
    "marks (t\<lparr>packetCache := y\<rparr>) = marks t" "marks (t\<lparr>lastPacketPanelRefresh := z\<rparr>) = marks t"
    for t :: "'a gstate_scheme" and x y z by (simp_all add: buildFilteredPacketList_def marks_def Let_def)
  show ?thesis by (simp add: updatePacketCache_def Let_def r b)
qed

lemma marks_counts [simp]: "marks (updateProtocolCounts st s) = marks s"
proof -
  have "marks (fold (\<lambda>(el, proto). upd_el el (el_text (count_text st proto))) xs t) = marks t"
    for xs and t :: "'a gstate_scheme"
    by (induction xs arbitrary: t) (auto split: prod.splits)
  moreover have "marks (t\<lparr>protocolStats := x\<rparr>) = marks t" "marks (t\<lparr>legendCountEls := y\<rparr>) = marks t"
    for t :: "'a gstate_scheme" and x y by (simp_all add: marks_def)
  ultimately show ?thesis by (simp add: updateProtocolCounts_def Let_def split: option.splits)
qed

lemma marks_tail [simp]:
  "marks (update_islands data s) = marks s" "marks (update_stats data s) = marks s"
  "marks (maybeApplyPerformanceTier s) = marks s" "marks (feed_traffic data s) = marks s"
proof -
  have f: "marks (t\<lparr>subnetIslands := x\<rparr>) = marks t" "marks (t\<lparr>currentTier := a\<rparr>) = marks t"
    "marks (t\<lparr>edgeLabelsVisible := b\<rparr>) = marks t" "marks (t\<lparr>trafficEvents := c\<rparr>) = marks t"
    "marks (t\<lparr>activeFlows := d\<rparr>) = marks t" "marks (updateStatistics n e p t) = marks t"
    for t :: "'a gstate_scheme" and x a b c d n e p
    by (simp_all add: updateStatistics_def Let_def) (simp_all add: marks_def page_defs)
  show "marks (update_islands data s) = marks s" "marks (update_stats data s) = marks s"
    "marks (maybeApplyPerformanceTier s) = marks s" "marks (feed_traffic data s) = marks s"
    by (simp_all add: update_islands_def update_stats_def maybeApplyPerformanceTier_def
      feed_traffic_def feedFlowParticles_def Let_def f split: option.splits)
qed

lemma marks_after_sync: "marks (updateGraph data s) = marks (reconcile data (sync_items data s))"
  by (simp add: updateGraph_def Let_def split: option.splits)

text \<open>Removing nodes takes their signatures with them.\<close>

lemma map_of_delete_all: "map_of (fold AList.delete ks m) k = (if k \<in> set ks then None else map_of m k)"
  by (induction ks arbitrary: m) (auto simp: delete_conv')

lemma marks_forgetNodes: "marks (fold forgetNodePosition ks s) =
    (fold AList.delete ks (lastNodeSig s), nodeColorMode s, body_light s)"
  by (induction ks arbitrary: s) (simp_all add: marks_def forgetNodePosition_def)

lemma shown_remove: "shown (nodes_remove ks s) k = (if k \<in> set ks then None else shown s k)"
  by (simp add: shown_def map_of_delete_all)

lemma view_true_remove:
  assumes "view_true s"
  shows "view_true (fold forgetNodePosition ks (nodes_remove ks s))"
proof -
  let ?s = "fold forgetNodePosition ks (nodes_remove ks s)"
  have m: "lastNodeSig ?s = fold AList.delete ks (lastNodeSig s)" "nodeColorMode ?s = nodeColorMode s"
    "body_light ?s = body_light s"
    using marks_forgetNodes [of ks "nodes_remove ks s"] marks_basic(8) [of ks s] by (simp_all add: marks_def)
  have sh: "shown ?s = shown (nodes_remove ks s)" by (rule shown_core) simp
  show ?thesis using assms unfolding view_true_def m sh
    by (rule sound_mono) (auto simp: map_le_def domIff map_of_delete_all shown_remove split: if_splits)
qed

lemma view_true_removals: "view_true s \<Longrightarrow> view_true (apply_removals data s)"
proof -
  assume s: "view_true s"
  have e: "view_true (fold forgetEdge ks (edges_remove ks t)) = view_true t" for ks and t :: "'a gstate_scheme"
  proof (rule view_true_frame)
    have "shown (fold forgetEdge ks (edges_remove ks t)) = shown (edges_remove ks t)"
      by (rule shown_core) simp
    then show "shown (fold forgetEdge ks (edges_remove ks t)) = shown t" by (simp add: shown_def fun_eq_iff)
  qed simp
  show ?thesis using s by (simp add: apply_removals_def Let_def e view_true_remove)
qed

lemma shown_with_net [simp]: "shown (with_net f s) = shown s" "shown (edges_put ups s) = shown s"
  by (simp_all add: shown_def fun_eq_iff with_net_def edges_put_def Let_def split: prod.splits)

lemma view_true_reconcile: "view_true s \<Longrightarrow> view_true (reconcile data s)"
proof -
  assume s: "view_true s"
  have f: "view_true (t\<lparr>fullSyncIds := x\<rparr>) = view_true t" "view_true (t\<lparr>fitOnNextFull := b\<rparr>) = view_true t"
    "view_true (with_net g t) = view_true t" for t :: "'a gstate_scheme" and x b g
    by (rule view_true_frame; simp add: marks_def shown_def fun_eq_iff with_net_def)+
  have n: "view_true t \<Longrightarrow> view_true (drop_stale_nodes ks t)" for ks and t :: "'a gstate_scheme"
    by (simp add: drop_stale_nodes_def Let_def view_true_remove)
  have e: "view_true (drop_stale_edges ks t) = view_true t" for ks and t :: "'a gstate_scheme"
  proof (rule view_true_frame)
    show "shown (drop_stale_edges ks t) = shown t"
      using drop_edges_spec(2) [of ks t] by (simp add: shown_def fun_eq_iff)
  qed (simp add: drop_stale_edges_def Let_def)
  show ?thesis using s n by (simp add: reconcile_def Let_def f e split: option.splits)
qed

text \<open>The node pass, for nodes with distinct ids.\<close>

definition drawn :: "'a gstate_scheme \<Rightarrow> vnode \<Rightarrow> bool" where
  "drawn s n \<longleftrightarrow> shown s (v_id n) = Some (node_look (nodeColorMode s) (body_light s) n)"

lemma node_pass_fresh:
  fixes s :: "'a gstate_scheme" and es :: "vedge list" and ns :: "vnode list"
  defines "s' \<equiv> flush_nodes (fold (sync_node es) ns (s, [], False, False))"
  assumes "\<not> net_is isCosmos s" and "\<forall>n \<in> set ns. clean_node n" and "distinct (map v_id ns)" and "view_true s"
  shows "view_true s' \<and> (\<forall>n \<in> set ns. drawn s' n)"
proof -
  obtain s1 ups mv sn where f: "fold (sync_node es) ns (s, [], False, False) = (s1, ups, mv, sn)"
    by (metis prod_cases4)
  note sp = fold_sync_node [OF f]
  have p0: "pending (nodes s) [] = shown s" by (simp add: pending_def shown_def fun_eq_iff)
  have "sound (nodeColorMode s) (body_light s) (lastNodeSig s) (pending (nodes s) [])"
    using assms(5) by (simp add: p0 view_true_def)
  note r = fold_sync_sound [OF f assms(2-4) this]
  have "nodes s1 = nodes s" using sp core_nodes by blast
  moreover have "shown s' = shown (nodes_put ups s1)"
    by (rule shown_core) (simp add: s'_def f flush_nodes_core)
  ultimately have sh: "shown s' = pending (nodes s) ups"
    by (simp add: shown_def fun_eq_iff nodes_nodes_put look_put_all)
  have "marks s' = marks s1" unfolding s'_def f by (simp add: flush_nodes_def Let_def)
  then have mk: "lastNodeSig s' = lastNodeSig s1" "nodeColorMode s' = nodeColorMode s" "body_light s' = body_light s"
    using sp by (simp_all add: marks_def)
  show ?thesis using r by (simp add: view_true_def drawn_def sh mk)
qed

lemma edge_pass_frame:
  fixes s :: "'a gstate_scheme" and es :: "vedge list"
  defines "s' \<equiv> flush_edges (fold sync_edge es (s, []))"
  shows "shown s' = shown s" and "marks s' = marks s"
proof -
  obtain s1 ups where f: "fold sync_edge es (s, []) = (s1, ups)" by fastforce
  have "shown s1 = shown s" using fold_sync_edge [OF f] by (intro shown_core) blast
  then show "shown s' = shown s" by (simp add: s'_def f flush_edges_def)
  have "marks (fst (fold sync_edge es acc)) = marks (fst acc)" for acc :: "'a gstate_scheme \<times> edge_item list"
    by (induction es arbitrary: acc) (auto simp: sync_edge_def marks_def Let_def split: prod.splits)
  from this [of "(s, [])"] have "marks s1 = marks s" by (simp add: f)
  then show "marks s' = marks s" by (simp add: s'_def f flush_edges_def)
qed

lemma drawn_frame: "shown s' = shown s \<Longrightarrow> marks s' = marks s \<Longrightarrow> drawn s' = drawn s"
  by (simp add: drawn_def marks_def fun_eq_iff)

lemma cosmos_removals: "net_is isCosmos (apply_removals data s) = net_is isCosmos s"
proof -
  have f: "net_is isCosmos (fold forgetNodePosition ks t) = net_is isCosmos t"
    "net_is isCosmos (fold forgetEdge ks t) = net_is isCosmos t" for ks and t :: "'a gstate_scheme"
    by (rule cosmos_core, rule forget_core)+
  have "net_is isCosmos (nodes_remove ks t) = net_is isCosmos t"
    "net_is isCosmos (edges_remove ks t) = net_is isCosmos t" for ks and t :: "'a gstate_scheme"
    by (cases "network t"; simp add: nodes_remove_def edges_remove_def net_is_def with_net_def isCosmos_def Let_def)+
  then show ?thesis by (simp add: apply_removals_def Let_def f)
qed

lemma sync_items_fresh:
  assumes "\<not> net_is isCosmos s" and "\<forall>n \<in> set (m_nodes data). clean_node n"
    and "distinct (map v_id (m_nodes data))" and "view_true s"
  shows "view_true (sync_items data s) \<and> (\<forall>n \<in> set (m_nodes data). drawn (sync_items data s) n)"
proof -
  define c where "c = collect_ids data (apply_value_range data s)"
  define r where "r = apply_removals data c"
  define n where "n = flush_nodes (fold (sync_node (m_edges data)) (m_nodes data) (r, [], False, False))"
  define e where "e = flush_edges (fold sync_edge (m_edges data) (n, []))"
  have cc: "core c = core s" by (simp add: c_def)
  have mc: "marks c = marks s"
    by (auto simp: c_def collect_ids_def apply_value_range_def Let_def split: option.splits)
      (simp_all add: marks_def page_defs with_net_def)
  have vr: "view_true r" unfolding r_def
    using assms(4) view_true_frame [OF shown_core [OF cc] mc] by (simp add: view_true_removals)
  have kr: "\<not> net_is isCosmos r" using assms(1) cosmos_core [OF cc]
    by (simp add: r_def cosmos_removals)
  note np = node_pass_fresh [OF kr assms(2,3) vr, where es = "m_edges data", folded n_def]
  note ep = edge_pass_frame [where es = "m_edges data" and s = n, folded e_def]
  have s': "sync_items data s = e \<or> sync_items data s = applyFocusDim e"
    by (simp add: sync_items_def Let_def e_def n_def r_def c_def)
  have "shown (sync_items data s) = shown e" "marks (sync_items data s) = marks e"
    using s' shown_core [OF core_dim, of e] by auto
  then show ?thesis using np ep view_true_frame drawn_frame by metis
qed

lemma collected_nodes:
  "n \<in> set (m_nodes data) \<Longrightarrow> fullSyncIds (collect_ids data t) = Some (ns, es) \<Longrightarrow> v_id n \<in> set ns"
  by (cases "fullSyncIds t") (auto simp: collect_ids_def Let_def set_add_all split: if_splits)

lemma reconcile_shown:
  assumes "n \<in> set (m_nodes data)" and "fullSyncIds s = fullSyncIds (collect_ids data t)"
  shows "shown (reconcile data s) (v_id n) = shown s (v_id n)"
proof (cases "m_fullDone data")
  case False
  then show ?thesis by (simp add: reconcile_open)
next
  case True
  define keep where "keep = (case fullSyncIds s of Some (ns, _) \<Rightarrow> ns | None \<Rightarrow> map v_id (m_nodes data))"
  have k: "v_id n \<in> set keep"
  proof (cases "fullSyncIds s")
    case None
    then show ?thesis using assms(1) by (simp add: keep_def)
  next
    case (Some x)
    then show ?thesis using collected_nodes [OF assms(1)] assms(2) by (cases x) (simp add: keep_def)
  qed
  have sh: "shown u = shown u'" if "nodes u = nodes u'" for u u' :: "'a gstate_scheme"
    using that by (simp add: shown_def fun_eq_iff)
  have d: "shown (drop_stale_nodes keep u) (v_id n) = shown u (v_id n)" for u :: "'a gstate_scheme"
    using k by (simp add: drop_stale_nodes_def Let_def shown_core [OF forget_core(1)] shown_remove)
  have e: "shown (drop_stale_edges ks u) = shown u" for ks and u :: "'a gstate_scheme"
    by (rule sh) (rule drop_edges_spec(2))
  have f: "shown (u\<lparr>fullSyncIds := x\<rparr>) = shown u" "shown (u\<lparr>fitOnNextFull := b\<rparr>) = shown u"
    for u :: "'a gstate_scheme" and x b by (rule sh, simp)+
  show ?thesis using True by (simp add: reconcile_def Let_def f e d keep_def [symmetric])
qed

lemma reconcile_marks: "snd (marks (reconcile data s)) = snd (marks s)"
proof -
  have "snd (marks (drop_stale_nodes ks t)) = snd (marks t)" "snd (marks (drop_stale_edges ks t)) = snd (marks t)"
    "marks (t\<lparr>fullSyncIds := x\<rparr>) = marks t" "marks (t\<lparr>fitOnNextFull := b\<rparr>) = marks t"
    for ks x b and t :: "'a gstate_scheme"
    by (simp_all add: drop_stale_nodes_def drop_stale_edges_def Let_def marks_forgetNodes)
      (simp_all add: marks_def nodes_remove_def with_net_def Let_def)
  then show ?thesis by (simp add: reconcile_def Let_def)
qed



end
