(* ===== verification/Throttle.thy ===== *)
theory Throttle
  imports Freshness
begin

text \<open>
  What the throttle in front of \<^verbatim>\<open>updateGraph\<close> promises (\<^verbatim>\<open>throttledUpdateGraph\<close> of
  \<^verbatim>\<open>static/app.js\<close>): a delta is applied at once or held by a running timer, full snapshots and
  their chunks are never held, and a burst of deltas is reduced to its last one, whose listed items
  alone are applied.
\<close>

section \<open>Coalescing buffers\<close>

text \<open>
  A buffer with one slot: while it is busy an offer replaces what is held, and firing hands the held
  value on. Only some values (\<open>plain\<close>) are held.
\<close>

locale coalescing =
  fixes plain :: "'d \<Rightarrow> bool" and busy :: "'s \<Rightarrow> bool" and offer :: "'d \<Rightarrow> 's \<Rightarrow> 's"
    and fire :: "'s \<Rightarrow> 's" and deliver :: "'d \<Rightarrow> 's \<Rightarrow> 's"
  assumes stays_busy: "plain d \<Longrightarrow> busy s \<Longrightarrow> busy (offer d s)"
    and replaces: "plain d \<Longrightarrow> plain e \<Longrightarrow> busy s \<Longrightarrow> offer e (offer d s) = offer e s"
    and delivers: "plain d \<Longrightarrow> busy s \<Longrightarrow> fire (offer d s) = deliver d s"
begin

lemma burst: "busy s \<Longrightarrow> \<forall>d \<in> set ds. plain d \<Longrightarrow> plain e \<Longrightarrow> fold offer (ds @ [e]) s = offer e s"
proof (induction ds arbitrary: s)
  case (Cons d ds)
  then have "fold offer ((d # ds) @ [e]) s = offer e (offer d s)" by (simp add: stays_busy)
  then show ?case using Cons.prems by (simp add: replaces)
qed simp

lemma burst_delivers_last:
  "busy s \<Longrightarrow> \<forall>d \<in> set ds. plain d \<Longrightarrow> plain e \<Longrightarrow> fire (fold offer (ds @ [e]) s) = deliver e s"
  by (simp only: burst delivers)

end

section \<open>The throttle is such a buffer\<close>

definition is_delta :: "graph_msg \<Rightarrow> bool" where
  "is_delta d \<longleftrightarrow> \<not> m_isFull d \<and> \<not> m_partial d"

text \<open>The held delta is applied with the timer state of the moment the timer fires.\<close>

definition apply_held :: "graph_msg \<Rightarrow> 'a gstate_scheme \<Rightarrow> 'a gstate_scheme" where
  "apply_held d s =
     (updateGraph d (s\<lparr>updateThrottleMs := throttle_ms (length (nodes s)), pendingUpdate := Some d,
        updateTimerSet := False, lastUpdateTime := now s\<rparr>))\<lparr>pendingUpdate := None, updateScheduled := False\<rparr>"

lemma held_while_scheduled:
  "is_delta d \<Longrightarrow> updateScheduled s \<Longrightarrow> throttledUpdateGraph d s =
     s\<lparr>updateThrottleMs := throttle_ms (length (nodes s)), pendingUpdate := Some d\<rparr>"
  by (simp add: throttledUpdateGraph_def is_delta_def)

interpretation throttle: coalescing is_delta updateScheduled throttledUpdateGraph updateTimer_fires apply_held
  by unfold_locales (simp_all add: held_while_scheduled updateTimer_fires_def apply_held_def)

lemma core_apply_held: "core (apply_held d s) = core (updateGraph d (s\<lparr>updateThrottleMs := throttle_ms (length (nodes s)),
    pendingUpdate := Some d, updateTimerSet := False, lastUpdateTime := now s\<rparr>))"
  by (simp add: apply_held_def core_def)

lemma node_ids_apply_held:
  assumes "\<not> m_fullDone d"
  shows "node_ids (apply_held d s) = (node_ids s - set (m_removedNodes d)) \<union> v_id ` set (m_nodes d)"
proof -
  define t where "t = s\<lparr>updateThrottleMs := throttle_ms (length (nodes s)),
    pendingUpdate := Some d, updateTimerSet := False, lastUpdateTime := now s\<rparr>"
  have "node_ids t = node_ids s" by (simp add: t_def node_ids_def)
  moreover have "node_ids (apply_held d s) = node_ids (updateGraph d t)"
    using ids_core [OF core_apply_held] unfolding t_def by blast
  ultimately show ?thesis using delta_ids [OF assms, of t] by simp
qed

section \<open>Applying a message leaves the throttle alone\<close>

definition clock :: "'a gstate_scheme \<Rightarrow> real \<times> real \<times> graph_msg option \<times> bool \<times> bool" where
  "clock s = (updateThrottleMs s, lastUpdateTime s, pendingUpdate s, updateScheduled s, updateTimerSet s)"

lemma clock_basic [simp]:
  "clock (with_net f s) = clock s" "clock (emit ev s) = clock s" "clock (upd_el k g s) = clock s"
  "clock (nodes_put ups s) = clock s" "clock (edges_put eups s) = clock s"
  "clock (edges_remove ks s) = clock s" "clock (nodes_remove ks s) = clock s" "clock (applyFocusDim s) = clock s"
  "clock (startPositionAnimation s) = clock s" "clock (startFlowAnimation s) = clock s"
  by (simp_all add: clock_def with_net_def page_defs nodes_put_def edges_put_def edges_remove_def nodes_remove_def
      applyFocusDim_def startPositionAnimation_def startFlowAnimation_def Let_def split: prod.splits)

lemma clock_fields [simp]:
  "clock (s\<lparr>nodeMeta := a\<rparr>) = clock s" "clock (s\<lparr>lastNodeSig := b\<rparr>) = clock s"
  "clock (s\<lparr>edgeMeta := c\<rparr>) = clock s" "clock (s\<lparr>lastEdgeSig := b\<rparr>) = clock s"
  "clock (s\<lparr>nodeTargetPos := d\<rparr>) = clock s" "clock (s\<lparr>nodeRenderPos := d\<rparr>) = clock s"
  "clock (s\<lparr>fullSyncIds := e\<rparr>) = clock s" "clock (s\<lparr>fitOnNextFull := f\<rparr>) = clock s"
  "clock (s\<lparr>visValueRange := g\<rparr>) = clock s" "clock (s\<lparr>packets := h\<rparr>) = clock s"
  "clock (s\<lparr>packetCache := i\<rparr>) = clock s" "clock (s\<lparr>lastPacketPanelRefresh := j\<rparr>) = clock s"
  "clock (s\<lparr>filteredPacketList := k\<rparr>) = clock s" "clock (s\<lparr>protocolStats := l\<rparr>) = clock s"
  "clock (s\<lparr>legendCountEls := m\<rparr>) = clock s" "clock (s\<lparr>subnetIslands := n\<rparr>) = clock s"
  "clock (s\<lparr>currentTier := p\<rparr>) = clock s" "clock (s\<lparr>edgeLabelsVisible := f\<rparr>) = clock s"
  "clock (s\<lparr>trafficEvents := q\<rparr>) = clock s" "clock (s\<lparr>activeFlows := r\<rparr>) = clock s"
  by (simp_all add: clock_def)

lemma clock_forget [simp]: "clock (fold forgetEdge ks s) = clock s" "clock (fold forgetNodePosition ks s) = clock s"
  by (induction ks arbitrary: s) (simp_all add: clock_def forgetEdge_def forgetNodePosition_def)

lemma clock_target: "clock (snd (applyTargetPosition k p pin s)) = clock s"
  by (simp add: applyTargetPosition_def Let_def split: option.splits)

lemma clock_place: "clock (snd (snd (place_node es n s))) = clock s"
proof -
  have "applyTargetPosition k p pin t = (a, u) \<Longrightarrow> clock u = clock t" for k p pin t a and u :: "'a gstate_scheme"
    using clock_target [of k p pin t] by simp
  then show ?thesis
    by (auto simp: place_node_def Let_def split: option.splits prod.splits)
qed

lemma clock_sync_node: "clock (fst (sync_node es n acc)) = clock (fst acc)"
proof -
  have "place_node es m t = (a, b, u) \<Longrightarrow> clock u = clock t" for m t a b and u :: "'a gstate_scheme"
    using clock_place [of es m t] by simp
  then show ?thesis by (cases acc) (auto simp: sync_node_def Let_def split: prod.splits)
qed

lemma clock_passes [simp]:
  "clock (fst (fold (sync_node es) ns acc)) = clock (fst acc)" "clock (flush_nodes acc) = clock (fst acc)"
proof -
  show "clock (fst (fold (sync_node es) ns acc)) = clock (fst acc)"
    by (induction ns arbitrary: acc) (simp_all add: clock_sync_node)
  show "clock (flush_nodes acc) = clock (fst acc)"
    by (simp add: flush_nodes_def Let_def split: prod.splits)
qed

lemma clock_sync_edge: "clock (fst (sync_edge e acc)) = clock (fst acc)"
  by (simp add: sync_edge_def Let_def split: prod.splits)

lemma clock_edge_passes [simp]:
  "clock (fst (fold sync_edge es acc)) = clock (fst acc)" "clock (flush_edges acc) = clock (fst acc)"
proof -
  show "clock (fst (fold sync_edge es acc)) = clock (fst acc)"
    by (induction es arbitrary: acc) (simp_all add: clock_sync_edge)
  show "clock (flush_edges acc) = clock (fst acc)"
    by (simp add: flush_edges_def Let_def split: prod.splits)
qed

lemma clock_steps [simp]:
  "clock (apply_value_range d s) = clock s" "clock (collect_ids d s) = clock s"
  "clock (apply_removals d s) = clock s" "clock (drop_stale_nodes ks s) = clock s"
  "clock (drop_stale_edges ks s) = clock s"
  by (simp_all add: apply_value_range_def collect_ids_def apply_removals_def drop_stale_nodes_def
      drop_stale_edges_def Let_def split: option.splits prod.splits)

lemma clock_sync_items [simp]: "clock (sync_items d s) = clock s"
  by (simp add: sync_items_def Let_def)

lemma clock_reconcile [simp]: "clock (reconcile d s) = clock s"
  by (simp add: reconcile_def Let_def)

lemma clock_packets [simp]: "clock (updatePacketCache ps s) = clock s"
proof -
  have r: "clock (renderVisiblePackets t) = clock t" for t :: "'a gstate_scheme"
    by (simp add: renderVisiblePackets_def Let_def split: prod.splits)
  have b: "clock (buildFilteredPacketList t) = clock t" for t :: "'a gstate_scheme"
    by (simp add: buildFilteredPacketList_def Let_def)
  show ?thesis by (simp add: updatePacketCache_def Let_def r b)
qed

lemma clock_counts [simp]: "clock (updateProtocolCounts st s) = clock s"
proof -
  have "clock (fold (\<lambda>(el, proto). upd_el el (el_text (count_text st proto))) xs t) = clock t"
    for xs and t :: "'a gstate_scheme"
    by (induction xs arbitrary: t) (auto split: prod.splits)
  then show ?thesis by (simp add: updateProtocolCounts_def Let_def split: option.splits)
qed

lemma clock_tail [simp]:
  "clock (update_islands d s) = clock s" "clock (update_stats d s) = clock s"
  "clock (maybeApplyPerformanceTier s) = clock s" "clock (feed_traffic d s) = clock s"
proof -
  have u: "clock (updateStatistics n e p t) = clock t" for n e p and t :: "'a gstate_scheme"
    by (simp add: updateStatistics_def Let_def)
  show "clock (update_islands d s) = clock s" "clock (update_stats d s) = clock s"
    "clock (maybeApplyPerformanceTier s) = clock s" "clock (feed_traffic d s) = clock s"
    by (simp_all add: update_islands_def update_stats_def maybeApplyPerformanceTier_def
      feed_traffic_def feedFlowParticles_def Let_def u split: option.splits)
qed

lemma clock_updateGraph: "clock (updateGraph d s) = clock s"
  by (simp add: updateGraph_def Let_def split: option.splits)

section \<open>What the throttle promises\<close>

text \<open>A delta is held only while a timer is running that will apply it.\<close>

definition timer_ok :: "'a gstate_scheme \<Rightarrow> bool" where
  "timer_ok s \<longleftrightarrow> updateScheduled s = updateTimerSet s \<and> (pendingUpdate s = None \<longleftrightarrow> \<not> updateScheduled s)"

lemma clock_same:
  "updateScheduled (updateGraph d s) = updateScheduled s" "updateTimerSet (updateGraph d s) = updateTimerSet s"
  "pendingUpdate (updateGraph d s) = pendingUpdate s" "lastUpdateTime (updateGraph d s) = lastUpdateTime s"
  using clock_updateGraph [of d s] by (simp_all add: clock_def)

lemma timer_ok_throttled: "timer_ok s \<Longrightarrow> timer_ok (throttledUpdateGraph d s)"
  by (simp add: timer_ok_def throttledUpdateGraph_def Let_def clock_same emit_def)

lemma timer_ok_fires: "timer_ok (updateTimer_fires s)"
  by (simp add: timer_ok_def updateTimer_fires_def clock_same Let_def split: option.splits)

lemma throttled_now:
  assumes "is_delta d" and "\<not> updateScheduled s" and "throttle_ms (length (nodes s)) \<le> now s - lastUpdateTime s"
    and "\<not> m_fullDone d"
  shows "node_ids (throttledUpdateGraph d s) = (node_ids s - set (m_removedNodes d)) \<union> v_id ` set (m_nodes d)"
proof -
  define t where "t = s\<lparr>updateThrottleMs := throttle_ms (length (nodes s)),
    pendingUpdate := Some d, lastUpdateTime := now s\<rparr>"
  have "node_ids t = node_ids s" by (simp add: t_def node_ids_def)
  moreover have "node_ids (throttledUpdateGraph d s) = node_ids (updateGraph d t)"
    using assms by (simp add: throttledUpdateGraph_def is_delta_def Let_def node_ids_def t_def)
  ultimately show ?thesis using delta_ids [OF assms(4), of t] by simp
qed

lemma throttled_later:
  assumes "is_delta d" and "\<not> updateScheduled s" and "now s - lastUpdateTime s < throttle_ms (length (nodes s))"
  shows "throttledUpdateGraph d s =
    emit (After UpdateTimer (throttle_ms (length (nodes s)) - (now s - lastUpdateTime s)))
      (s\<lparr>updateThrottleMs := throttle_ms (length (nodes s)), pendingUpdate := Some d,
        updateScheduled := True, updateTimerSet := True\<rparr>)"
  using assms by (simp add: throttledUpdateGraph_def is_delta_def Let_def)

text \<open>
  C8: no delta is stranded: after any message the throttle is in a state where a held delta has its
  timer running, and a delta is either the held one or has been applied.
\<close>

theorem no_delta_stranded:
  assumes "timer_ok s" and "is_delta d" and "\<not> m_fullDone d"
  defines "s' \<equiv> throttledUpdateGraph d s"
  shows "timer_ok s' \<and> timer_ok (updateTimer_fires s')
    \<and> (pendingUpdate s' = Some d \<and> updateTimerSet s'
       \<or> pendingUpdate s' = None \<and> node_ids s' = (node_ids s - set (m_removedNodes d)) \<union> v_id ` set (m_nodes d))"
proof -
  have t: "timer_ok s'" unfolding s'_def using assms(1) by (rule timer_ok_throttled)
  consider (held) "updateScheduled s" | (wait) "\<not> updateScheduled s" "now s - lastUpdateTime s < throttle_ms (length (nodes s))"
    | (run) "\<not> updateScheduled s" "throttle_ms (length (nodes s)) \<le> now s - lastUpdateTime s" by linarith
  then show ?thesis
  proof cases
    case held
    then show ?thesis using t assms(1) timer_ok_fires
      by (simp add: s'_def held_while_scheduled [OF assms(2)] timer_ok_def)
  next
    case wait
    then show ?thesis using t timer_ok_fires unfolding s'_def throttled_later [OF assms(2) wait]
      by (simp add: emit_def)
  next
    case run
    have "\<not> updateScheduled s'" using run assms(2)
      by (simp add: s'_def throttledUpdateGraph_def is_delta_def Let_def clock_same)
    then have "pendingUpdate s' = None" using t by (simp add: timer_ok_def)
    moreover have "node_ids s' = (node_ids s - set (m_removedNodes d)) \<union> v_id ` set (m_nodes d)"
      unfolding s'_def by (rule throttled_now [OF assms(2) run assms(3)])
    ultimately show ?thesis using t timer_ok_fires by blast
  qed
qed

text \<open>
  Lemma: within the throttle window a burst of deltas changes nothing on screen and starts one timer, for
  the time that is left of the window; the newest delta is the one held.
\<close>

theorem burst_starts_one_timer:
  assumes "\<forall>d \<in> set ds. is_delta d" and "is_delta e" and "\<not> updateScheduled s"
    and "now s - lastUpdateTime s < throttle_ms (length (nodes s))"
  defines "s' \<equiv> fold throttledUpdateGraph (e # ds) s"
  shows "core s' = core s \<and> pendingUpdate s' = Some (last (e # ds))
    \<and> log s' = log s @ [After UpdateTimer (throttle_ms (length (nodes s)) - (now s - lastUpdateTime s))]"
proof -
  define s1 where "s1 = throttledUpdateGraph e s"
  note d = throttled_later [OF assms(2-4), folded s1_def]
  have s1: "core s1 = core s" "updateScheduled s1" "pendingUpdate s1 = Some e"
    "log s1 = log s @ [After UpdateTimer (throttle_ms (length (nodes s)) - (now s - lastUpdateTime s))]"
    by (simp_all add: d core_def emit_def)
  show ?thesis
  proof (cases ds rule: rev_cases)
    case Nil
    then show ?thesis using s1 by (simp add: s'_def s1_def)
  next
    case (snoc es f)
    then have "s' = throttledUpdateGraph f s1" unfolding s'_def
      using throttle.burst [OF s1(2), of es f] assms(1) by (simp add: s1_def)
    then show ?thesis using s1 snoc assms(1) by (simp add: held_while_scheduled core_def)
  qed
qed

text \<open>
  C9: of a burst of deltas only the last one reaches the graph when the timer fires; the removals and
  additions of the earlier ones are lost, although each delta lists only its own changes.
\<close>

theorem burst_loses_earlier_deltas:
  assumes "updateScheduled s" and "\<forall>d \<in> set ds. is_delta d" and "is_delta e" and "\<not> m_fullDone e"
  shows "node_ids (updateTimer_fires (fold throttledUpdateGraph (ds @ [e]) s))
    = (node_ids s - set (m_removedNodes e)) \<union> v_id ` set (m_nodes e)"
  by (simp only: throttle.burst_delivers_last [OF assms(1-3)] node_ids_apply_held [OF assms(4)])

text \<open>
  Lemma: a full snapshot is never held back: it cancels the running timer and the held delta, and is
  applied at once.
\<close>

theorem full_snapshot_not_held:
  assumes "m_isFull d" and "\<not> m_partial d" and "m_fullDone d" and "timer_ok s"
  defines "s' \<equiv> throttledUpdateGraph d s"
  shows "node_ids s' = v_id ` set (m_nodes d) \<and> pendingUpdate s' = None \<and> \<not> updateTimerSet s'
    \<and> lastUpdateTime s' = now s"
proof -
  define s0 where "s0 = (if updateTimerSet s then emit (Cancel UpdateTimer) (s\<lparr>updateTimerSet := False\<rparr>) else s)
    \<lparr>updateScheduled := False, pendingUpdate := None, lastUpdateTime := now s\<rparr>"
  have "s' = updateGraph d s0" using assms(1) by (simp add: s'_def s0_def throttledUpdateGraph_def Let_def emit_def)
  then show ?thesis using snapshot_ids [OF assms(1-3), of s0] by (simp add: clock_same s0_def emit_def)
qed

theorem no_delta_stranded_witness:
  "timer_ok (throttledUpdateGraph (empty_msg\<lparr>m_nodes := [sample_vnode ''a'']\<rparr>) sample_gstate)"
  by (rule no_delta_stranded [THEN conjunct1]) (simp_all add: timer_ok_def is_delta_def empty_msg_def)

theorem burst_starts_one_timer_witness:
  "pendingUpdate (fold throttledUpdateGraph [empty_msg, empty_msg\<lparr>m_removedNodes := [''a'']\<rparr>]
     (sample_gstate\<lparr>now := 40\<rparr>)) = Some (empty_msg\<lparr>m_removedNodes := [''a'']\<rparr>)"
  using burst_starts_one_timer [of "[empty_msg\<lparr>m_removedNodes := [''a'']\<rparr>]" empty_msg "sample_gstate\<lparr>now := 40\<rparr>"]
  by (simp add: is_delta_def empty_msg_def throttle_ms_def)

theorem burst_loses_earlier_deltas_witness:
  "node_ids (updateTimer_fires (fold throttledUpdateGraph [empty_msg\<lparr>m_removedNodes := [''a'']\<rparr>, empty_msg]
     (sample_gstate\<lparr>nodes := [(''a'', undefined)], updateScheduled := True\<rparr>))) = {''a''}"
  using burst_loses_earlier_deltas [of "sample_gstate\<lparr>nodes := [(''a'', undefined)], updateScheduled := True\<rparr>"
      "[empty_msg\<lparr>m_removedNodes := [''a'']\<rparr>]" empty_msg]
  by (simp add: is_delta_def empty_msg_def node_ids_def map_keys_def)

theorem full_snapshot_not_held_witness:
  "node_ids (throttledUpdateGraph (empty_msg\<lparr>m_isFull := True, m_fullDone := True, m_nodes := [sample_vnode ''b'']\<rparr>)
     (sample_gstate\<lparr>updateScheduled := True, updateTimerSet := True, pendingUpdate := Some empty_msg\<rparr>)) = {''b''}"
  using full_snapshot_not_held [of "empty_msg\<lparr>m_isFull := True, m_fullDone := True, m_nodes := [sample_vnode ''b'']\<rparr>"
      "sample_gstate\<lparr>updateScheduled := True, updateTimerSet := True, pendingUpdate := Some empty_msg\<rparr>"]
  by (simp add: timer_ok_def empty_msg_def sample_vnode_def)

end
