(* ===== verification/Wire.thy ===== *)
theory Wire
  imports Throttle PacketData
begin

text \<open>
  The binary and counter messages of the WebSocket (\<^verbatim>\<open>static/app.js\<close>): position frames, raw
  topology frames and counts frames, with the server's encoders (\<^verbatim>\<open>server/websocket.go\<close>,
  \<^verbatim>\<open>server/rawstream.go\<close>) for the round trips.  A frame is a list of bytes; reading past its end
  throws a \<^verbatim>\<open>RangeError\<close>, which \<^verbatim>\<open>onmessage\<close> catches and logs, so what was applied before
  stays applied.  Node ids are UTF-8 on both sides and are kept as bytes.
\<close>

section \<open>State\<close>

record wire_stats =
  ws_deltas :: nat
  ws_posFrames :: nat
  ws_posNodes :: nat
  ws_countsFrames :: nat
  ws_bytesIn :: nat
  ws_rawFrames :: nat

record wstate = gstate +
  wireStats :: wire_stats
  rawProtoTable :: "(string \<times> string) list"

section \<open>Reading a DataView\<close>

definition u8_at :: "bytes \<Rightarrow> nat \<Rightarrow> nat option" where
  "u8_at buf off = (if off < length buf then Some (unat (buf ! off)) else None)"

definition u16_at :: "bytes \<Rightarrow> nat \<Rightarrow> nat option" where
  "u16_at buf off =
     (if off + 2 \<le> length buf then Some (unat (buf ! off) + 256 * unat (buf ! (off + 1))) else None)"

definition u32_at :: "bytes \<Rightarrow> nat \<Rightarrow> nat option" where
  "u32_at buf off =
     (if off + 4 \<le> length buf
      then Some (unat (buf ! off) + 256 * unat (buf ! (off + 1)) + 256 ^ 2 * unat (buf ! (off + 2))
                 + 256 ^ 3 * unat (buf ! (off + 3)))
      else None)"

definition text_at :: "bytes \<Rightarrow> nat \<Rightarrow> nat \<Rightarrow> string option" where
  "text_at buf off n =
     (if off + n \<le> length buf then Some (map (\<lambda>b. char_of (unat b)) (take n (drop off buf))) else None)"

text \<open>The value of a single-precision pattern; \<open>None\<close> for infinities and NaN.\<close>

definition f32_value :: "nat \<Rightarrow> real option" where
  "f32_value bits =
     (let sgn = (if bits div 2 ^ 31 mod 2 = 1 then - 1 else 1);
          e = bits div 2 ^ 23 mod 2 ^ 8;
          m = bits mod 2 ^ 23
      in if e = 255 then None
         else if e = 0 then Some (sgn * real m / 2 ^ 149)
         else Some (sgn * real (2 ^ 23 + m) * 2 ^ e / 2 ^ 150))"

text \<open>A \<^verbatim>\<open>Float32Array\<close> keeps 24 significant bits of an integer, rounding to even.\<close>

definition fround_nat :: "nat \<Rightarrow> nat" where
  "fround_nat n =
     (let k = length (filter (\<lambda>i. 2 ^ (24 + i) \<le> n) [0..<8]);
          q = n div 2 ^ k; r = n mod 2 ^ k
      in if 2 * r < 2 ^ k \<or> 2 * r = 2 ^ k \<and> even q then q * 2 ^ k else (q + 1) * 2 ^ k)"

section \<open>Position frames\<close>

text \<open>How handling a frame ends; coordinates that are not finite are outside the model.\<close>

datatype wire_end = Done | RangeError | NotFinite

definition pos_entry :: "bytes \<Rightarrow> nat \<Rightarrow> (string \<times> nat \<times> nat \<times> nat) option" where
  "pos_entry buf off =
     (case u16_at buf off of
        None \<Rightarrow> None
      | Some idLen \<Rightarrow>
          (case (text_at buf (off + 2) idLen, u32_at buf (off + 2 + idLen), u32_at buf (off + 6 + idLen)) of
             (Some k, Some x, Some y) \<Rightarrow> Some (k, x, y, off + 10 + idLen)
           | _ \<Rightarrow> None))"

definition place_at ::
    "string \<Rightarrow> real \<times> real \<Rightarrow> 'a gstate_scheme \<times> bool \<times> bool \<Rightarrow> 'a gstate_scheme \<times> bool \<times> bool" where
  "place_at k p acc =
     (let (s, moved, snapped) = acc;
          pinned = (case map_of (nodeMeta s) k of Some meta \<Rightarrow> v_pinned meta | None \<Rightarrow> False);
          (r, s) = applyTargetPosition k p pinned s
      in (s, moved \<or> r = Moved, snapped \<or> r = Snapped))"

fun apply_positions ::
    "bytes \<Rightarrow> nat \<Rightarrow> nat \<Rightarrow> 'a gstate_scheme \<times> bool \<times> bool
      \<Rightarrow> wire_end \<times> 'a gstate_scheme \<times> bool \<times> bool" where
  "apply_positions buf 0 off acc = (Done, acc)"
| "apply_positions buf (Suc n) off acc =
     (case pos_entry buf off of
        None \<Rightarrow> (RangeError, acc)
      | Some (k, xb, yb, off') \<Rightarrow>
          (case (f32_value xb, f32_value yb) of
             (Some x, Some y) \<Rightarrow> apply_positions buf n off' (place_at k (x, y) acc)
           | _ \<Rightarrow> (NotFinite, acc)))"

definition finish_positions :: "nat \<Rightarrow> 'a wstate_scheme \<times> bool \<times> bool \<Rightarrow> 'a wstate_scheme" where
  "finish_positions n acc =
     (let (s, moved, snapped) = acc;
          w = wireStats s;
          s = s\<lparr>wireStats := w\<lparr>ws_posFrames := ws_posFrames w + 1, ws_posNodes := ws_posNodes w + n\<rparr>\<rparr>
      in if moved then startPositionAnimation s
         else if snapped
         then (if net_is (\<lambda>r. isCosmos r \<and> hasMarkSceneDirty r) s
               then with_net (markSceneDirty ''nodes'') s else with_net redraw s)
         else s)"

definition applyPositionFrame :: "bytes \<Rightarrow> 'a wstate_scheme \<Rightarrow> wire_end \<times> 'a wstate_scheme" where
  "applyPositionFrame buf s =
     (if net_is rn_ownsLayout s then (Done, s)
      else
        case u8_at buf 0 of
          None \<Rightarrow> (RangeError, s)
        | Some t \<Rightarrow>
            if t \<noteq> 1 then (Done, s)
            else
              case u16_at buf 1 of
                None \<Rightarrow> (RangeError, s)
              | Some n \<Rightarrow>
                  let (e, acc) = apply_positions buf n 3 (s, False, False)
                  in if e = Done then (Done, finish_positions n acc) else (e, fst acc))"

section \<open>Raw topology frames\<close>

fun raw_nodes :: "bytes \<Rightarrow> nat \<Rightarrow> nat \<Rightarrow> ((string \<times> nat \<times> nat) list \<times> nat) option" where
  "raw_nodes buf 0 off = Some ([], off)"
| "raw_nodes buf (Suc n) off =
     (case u16_at buf off of
        None \<Rightarrow> None
      | Some idLen \<Rightarrow>
          (case (text_at buf (off + 2) idLen, u8_at buf (off + 2 + idLen), u8_at buf (off + 3 + idLen)) of
             (Some k, Some tr, Some fl) \<Rightarrow>
               map_option (\<lambda>(xs, off'). ((k, tr, fl) # xs, off')) (raw_nodes buf n (off + 4 + idLen))
           | _ \<Rightarrow> None))"

fun raw_links :: "bytes \<Rightarrow> nat \<Rightarrow> nat \<Rightarrow> (nat \<times> nat \<times> nat) list option" where
  "raw_links buf 0 off = Some []"
| "raw_links buf (Suc m) off =
     (case (u32_at buf off, u32_at buf (off + 4), u8_at buf (off + 8)) of
        (Some a, Some b, Some p) \<Rightarrow>
          map_option (\<lambda>ls. (fround_nat a, fround_nat b, p) # ls) (raw_links buf m (off + 9))
      | _ \<Rightarrow> None)"

definition decode_raw :: "bytes \<Rightarrow> ((string \<times> nat \<times> nat) list \<times> (nat \<times> nat \<times> nat) list) option" where
  "decode_raw buf =
     (case u32_at buf 1 of
        None \<Rightarrow> None
      | Some n \<Rightarrow>
          (case raw_nodes buf n 5 of
             None \<Rightarrow> None
           | Some (ns, off) \<Rightarrow>
               (case u32_at buf off of
                  None \<Rightarrow> None
                | Some m \<Rightarrow> map_option (Pair ns) (raw_links buf m (off + 4)))))"

definition applyRawTopologyFrame :: "bytes \<Rightarrow> 'a wstate_scheme \<Rightarrow> wire_end \<times> 'a wstate_scheme" where
  "applyRawTopologyFrame buf s =
     (if \<not> net_is hasSetRawTopology s then (Done, s)
      else
        case decode_raw buf of
          None \<Rightarrow> (RangeError, s)
        | Some (ns, ls) \<Rightarrow>
            let w = wireStats s;
                s = s\<lparr>wireStats := w\<lparr>ws_rawFrames := ws_rawFrames w + 1\<rparr>\<rparr>
            in (Done, emit (Net (SetRawTopology (map fst ns) (map (fst \<circ> snd) ns) (map (snd \<circ> snd) ns)
                      (map (\<lambda>(a, b, p). (a, b)) ls) (map (snd \<circ> snd) ls)))
                  (with_net (\<lambda>r. r\<lparr>rn_rawMode := True\<rparr>) s)))"

section \<open>Counts frames\<close>

record counts_frame =
  cf_nodes :: "(string \<times> nat \<times> nat) list"
  cf_edges :: "(string \<times> nat \<times> nat \<times> nat \<times> nat \<times> nat \<times> nat) list"
  cf_stats :: "(nat \<times> nat \<times> nat) option"
  cf_protocolStats :: "(string \<times> nat) list option"

definition count_node :: "string \<times> nat \<times> nat \<Rightarrow> (string \<times> vnode) list \<Rightarrow> (string \<times> vnode) list" where
  "count_node e meta =
     (case map_of meta (fst e) of
        None \<Rightarrow> meta
      | Some m \<Rightarrow>
          AList.update (fst e) (m\<lparr>v_packetCount := fst (snd e), v_byteCount := snd (snd e)\<rparr>) meta)"

definition count_edge ::
    "string \<times> nat \<times> nat \<times> nat \<times> nat \<times> nat \<times> nat \<Rightarrow> (string \<times> vedge) list \<Rightarrow> (string \<times> vedge) list" where
  "count_edge e meta =
     (case e of (k, pc, bc, fp, rp, fb, rb) \<Rightarrow>
        (case map_of meta k of
           None \<Rightarrow> meta
         | Some m \<Rightarrow>
             AList.update k
               (m\<lparr>w_packetCount := pc, w_byteCount := bc, w_forwardPackets := fp,
                  w_reversePackets := rp, w_forwardBytes := fb, w_reverseBytes := rb\<rparr>) meta))"

definition applyCountsFrame :: "counts_frame \<Rightarrow> 'a wstate_scheme \<Rightarrow> 'a wstate_scheme" where
  "applyCountsFrame data s =
     (let w = wireStats s;
          s = s\<lparr>wireStats := w\<lparr>ws_countsFrames := ws_countsFrames w + 1\<rparr>\<rparr>;
          s = s\<lparr>nodeMeta := fold count_node (cf_nodes data) (nodeMeta s)\<rparr>;
          s = s\<lparr>edgeMeta := fold count_edge (cf_edges data) (edgeMeta s)\<rparr>;
          s = (case cf_stats data of Some (n, e, p) \<Rightarrow> updateStatistics n e p s | None \<Rightarrow> s)
      in case cf_protocolStats data of Some st \<Rightarrow> updateProtocolCounts st s | None \<Rightarrow> s)"

section \<open>Dispatch\<close>

datatype text_msg =
  CountsMsg counts_frame
| RawMetaMsg "(string \<times> string) list" "(nat \<times> nat \<times> nat) option"
| GraphMsg graph_msg
| NotJson

datatype ws_msg = BinaryMsg bytes | TextMsg nat text_msg   \<comment> \<open>length of the text, and what it parses to\<close>

definition add_bytes :: "nat \<Rightarrow> 'a wstate_scheme \<Rightarrow> 'a wstate_scheme" where
  "add_bytes n s = s\<lparr>wireStats := (wireStats s)\<lparr>ws_bytesIn := ws_bytesIn (wireStats s) + n\<rparr>\<rparr>"

definition caught :: "wire_end \<times> 'a wstate_scheme \<Rightarrow> 'a wstate_scheme" where
  "caught r = (if fst r = RangeError then emit (Warn ''Error processing WebSocket message:'') (snd r) else snd r)"

definition ws_onmessage :: "ws_msg \<Rightarrow> 'a wstate_scheme \<Rightarrow> 'a wstate_scheme" where
  "ws_onmessage msg s =
     (case msg of
        BinaryMsg buf \<Rightarrow>
          let s = add_bytes (length buf) s
          in (case u8_at buf 0 of
                None \<Rightarrow> caught (RangeError, s)
              | Some t \<Rightarrow> if t = 2 then caught (applyRawTopologyFrame buf s) else caught (applyPositionFrame buf s))
      | TextMsg len body \<Rightarrow>
          let s = add_bytes len s
          in (case body of
                NotJson \<Rightarrow> emit (Warn ''Error processing WebSocket message:'') s
              | CountsMsg c \<Rightarrow> applyCountsFrame c s
              | RawMetaMsg protos st \<Rightarrow>
                  let s = s\<lparr>rawProtoTable := protos\<rparr>
                  in (case st of Some (n, e, p) \<Rightarrow> updateStatistics n e p s | None \<Rightarrow> s)
              | GraphMsg d \<Rightarrow>
                  let w = wireStats s
                  in throttledUpdateGraph d (s\<lparr>wireStats := w\<lparr>ws_deltas := ws_deltas w + 1\<rparr>\<rparr>)))"

section \<open>The server's encoders\<close>

definition le16 :: "nat \<Rightarrow> bytes" where
  "le16 n = [word_of_nat n, word_of_nat (n div 256)]"

definition le32 :: "nat \<Rightarrow> bytes" where
  "le32 n = [word_of_nat n, word_of_nat (n div 256), word_of_nat (n div 256 ^ 2), word_of_nat (n div 256 ^ 3)]"

definition id_bytes :: "string \<Rightarrow> bytes" where
  "id_bytes k = map (\<lambda>c. word_of_nat (of_char c)) k"

text \<open>A moved node: its id and the single-precision patterns of its coordinates.\<close>

type_synonym moved_node = "string \<times> nat \<times> nat"

definition pos_entry_bytes :: "moved_node \<Rightarrow> bytes" where
  "pos_entry_bytes e = (case e of (k, x, y) \<Rightarrow> le16 (length k) @ id_bytes k @ le32 x @ le32 y)"

definition buildPosFrame :: "moved_node list \<Rightarrow> bytes" where
  "buildPosFrame moved = 1 # le16 (length moved) @ concat (map pos_entry_bytes moved)"

definition raw_node_bytes :: "string \<times> nat \<times> nat \<Rightarrow> bytes" where
  "raw_node_bytes e =
     (case e of (k, tr, fl) \<Rightarrow> le16 (length k) @ id_bytes k @ [word_of_nat tr, word_of_nat fl])"

definition raw_link_bytes :: "nat \<times> nat \<times> nat \<Rightarrow> bytes" where
  "raw_link_bytes e = (case e of (a, b, p) \<Rightarrow> le32 a @ le32 b @ [word_of_nat p])"

definition encodeRawFrame :: "(string \<times> nat \<times> nat) list \<Rightarrow> (nat \<times> nat \<times> nat) list \<Rightarrow> bytes" where
  "encodeRawFrame ns ls =
     2 # le32 (length ns) @ concat (map raw_node_bytes ns) @ le32 (length ls) @ concat (map raw_link_bytes ls)"

section \<open>Reading back what was written\<close>

lemma at_shift:
  "u8_at (pre @ xs) (length pre + k) = u8_at xs k" "u16_at (pre @ xs) (length pre + k) = u16_at xs k"
  "u32_at (pre @ xs) (length pre + k) = u32_at xs k" "text_at (pre @ xs) (length pre + k) n = text_at xs k n"
  by (simp_all add: u8_at_def u16_at_def u32_at_def text_at_def nth_append ac_simps)

lemma length_le [simp]: "length (le16 n) = 2" "length (le32 n) = 4" "length (id_bytes k) = length k"
  by (simp_all add: le16_def le32_def id_bytes_def)

lemma u16_le16: "u16_at (le16 n @ post) 0 = Some (n mod 65536)"
proof -
  have "n mod 256 + 256 * (n div 256 mod 256) = n mod (256 * 256)" by (simp only: mod_mult2_eq)
  then show ?thesis by (simp add: u16_at_def le16_def unat_of_nat take_bit_eq_mod)
qed

lemma u32_le32: "u32_at (le32 n @ post) 0 = Some (n mod 2 ^ 32)"
proof -
  have "n mod (256 * (256 * (256 * 256))) = n mod 256 + 256 * (n div 256 mod 256 + 256 * (n div 256 div 256 mod 256
      + 256 * (n div 256 div 256 div 256 mod 256)))"
    by (simp only: mod_mult2_eq) simp
  then show ?thesis by (simp add: u32_at_def le32_def unat_of_nat take_bit_eq_mod div_mult2_eq [symmetric] algebra_simps)
qed

lemma text_id_bytes: "text_at (id_bytes k @ post) 0 (length k) = Some k"
proof -
  have "char_of (of_char c mod 256 :: nat) = c" for c by simp
  then show ?thesis
    by (simp add: text_at_def id_bytes_def unat_of_nat take_bit_eq_mod comp_def)
qed

lemma u8_byte: "n < 256 \<Longrightarrow> u8_at (word_of_nat n # post) 0 = Some n"
  by (simp add: u8_at_def unat_of_nat take_bit_eq_mod)

subsection \<open>Position frames\<close>

definition wf_moved :: "moved_node \<Rightarrow> bool" where
  "wf_moved e = (case e of (k, x, y) \<Rightarrow> length k < 65536 \<and> x < 2 ^ 32 \<and> y < 2 ^ 32
     \<and> f32_value x \<noteq> None \<and> f32_value y \<noteq> None)"

definition feed_moved ::
    "moved_node \<Rightarrow> 'a gstate_scheme \<times> bool \<times> bool \<Rightarrow> 'a gstate_scheme \<times> bool \<times> bool" where
  "feed_moved e = (case e of (k, x, y) \<Rightarrow> place_at k (the (f32_value x), the (f32_value y)))"

lemma length_pos_entry_bytes: "length (pos_entry_bytes (k, x, y)) = 10 + length k"
  by (simp add: pos_entry_bytes_def)

lemma pos_entry_bytes_read:
  assumes "wf_moved (k, x, y)"
  shows "pos_entry (pre @ pos_entry_bytes (k, x, y) @ post) (length pre) = Some (k, x, y, length pre + 10 + length k)"
proof -
  let ?b = "pre @ pos_entry_bytes (k, x, y) @ post"
  have e: "?b = pre @ le16 (length k) @ id_bytes k @ le32 x @ le32 y @ post"
    "?b = (pre @ le16 (length k)) @ id_bytes k @ le32 x @ le32 y @ post"
    "?b = (pre @ le16 (length k) @ id_bytes k) @ le32 x @ le32 y @ post"
    "?b = (pre @ le16 (length k) @ id_bytes k @ le32 x) @ le32 y @ post"
    by (simp_all add: pos_entry_bytes_def)
  have w: "length k < 65536" "x < 2 ^ 32" "y < 2 ^ 32" using assms by (simp_all add: wf_moved_def)
  have "u16_at ?b (length pre) = Some (length k)"
    using at_shift(2) [of pre "le16 (length k) @ id_bytes k @ le32 x @ le32 y @ post" 0] u16_le16 w
    by (simp add: e(1))
  moreover have "text_at ?b (length pre + 2) (length k) = Some k"
    using at_shift(4) [of "pre @ le16 (length k)" "id_bytes k @ le32 x @ le32 y @ post" 0 "length k"] text_id_bytes
    by (simp add: e(2) del: append_assoc)
  moreover have "u32_at ?b (length pre + 2 + length k) = Some x"
    using at_shift(3) [of "pre @ le16 (length k) @ id_bytes k" "le32 x @ le32 y @ post" 0] u32_le32 w
    by (simp add: e(3) ac_simps)
  moreover have "u32_at ?b (length pre + 6 + length k) = Some y"
    using at_shift(3) [of "pre @ le16 (length k) @ id_bytes k @ le32 x" "le32 y @ post" 0] u32_le32 w
    by (simp add: e(4) ac_simps)
  ultimately show ?thesis by (simp add: pos_entry_def)
qed

lemma apply_positions_read:
  assumes "\<forall>e \<in> set es. wf_moved e"
  shows "apply_positions (pre @ concat (map pos_entry_bytes es) @ post) (length es + m) (length pre) acc =
    apply_positions (pre @ concat (map pos_entry_bytes es) @ post) m
      (length pre + length (concat (map pos_entry_bytes es))) (fold feed_moved es acc)"
  using assms
proof (induction es arbitrary: pre acc)
  case Nil
  then show ?case by simp
next
  case (Cons e es)
  obtain k x y where e: "e = (k, x, y)" by (metis prod_cases3)
  let ?rest = "concat (map pos_entry_bytes es) @ post"
  let ?pre = "pre @ pos_entry_bytes e"
  have w: "wf_moved (k, x, y)" using Cons.prems by (simp add: e)
  then obtain fx fy where f: "f32_value x = Some fx" "f32_value y = Some fy" by (auto simp: wf_moved_def)
  have "pos_entry (pre @ pos_entry_bytes e @ ?rest) (length pre) = Some (k, x, y, length ?pre)"
    using pos_entry_bytes_read [OF w, of pre ?rest] by (simp add: e length_pos_entry_bytes)
  then have "apply_positions (pre @ pos_entry_bytes e @ ?rest) (Suc (length es + m)) (length pre) acc =
      apply_positions (?pre @ ?rest) (length es + m) (length ?pre) (feed_moved e acc)"
    by (simp add: f e feed_moved_def)
  then show ?case using Cons.IH [of ?pre "feed_moved e acc"] Cons.prems by (simp add: ac_simps)
qed

lemma concat_take_drop: "concat (map f xs) = concat (map f (take n xs)) @ concat (map f (drop n xs))"
  by (metis append_take_drop_id concat_append map_append)

lemma frame_header: "u8_at (1 # xs) 0 = Some 1" "u16_at (1 # le16 n @ xs) 1 = Some (n mod 65536)"
  using at_shift(2) [of "[1]" "le16 n @ xs" 0] by (simp_all add: u8_at_def u16_le16)

text \<open>
  C5: the client decodes a position frame exactly as the server encoded it: every node of the frame is
  fed, in order, to the easing loop at its single-precision coordinates. The count field has 16 bits,
  so of a frame of n nodes only the first n mod 65536 arrive.
\<close>

theorem pos_frame_roundtrip:
  assumes "\<forall>e \<in> set es. wf_moved e" and "\<not> net_is rn_ownsLayout s"
  shows "applyPositionFrame (buildPosFrame es) s =
    (Done, finish_positions (length es mod 65536) (fold feed_moved (take (length es mod 65536) es) (s, False, False)))"
proof -
  let ?n = "length es mod 65536"
  let ?pre = "1 # le16 (length es)"
  define post where "post = concat (map pos_entry_bytes (drop ?n es))"
  have b: "buildPosFrame es = ?pre @ concat (map pos_entry_bytes (take ?n es)) @ post"
    using concat_take_drop [of pos_entry_bytes es ?n] by (simp add: buildPosFrame_def post_def)
  have h: "u8_at (buildPosFrame es) 0 = Some 1" "u16_at (buildPosFrame es) 1 = Some ?n"
    by (simp_all add: buildPosFrame_def frame_header del: One_nat_def)
  have l: "length (take ?n es) = ?n" by simp
  have w: "\<forall>e \<in> set (take ?n es). wf_moved e" using assms(1) by (meson in_set_takeD)
  have p: "length ?pre = 3" by simp
  note r = apply_positions_read [OF w, of ?pre post 0 "(s, False, False)", folded b, unfolded l p apply_positions.simps(1)]
  then have "apply_positions (buildPosFrame es) ?n 3 (s, False, False) = (Done, fold feed_moved (take ?n es) (s, False, False))"
    by (simp only: add_0_right)
  then show ?thesis unfolding applyPositionFrame_def h using assms(2)
    by (simp only: if_False option.case Let_def prod.case simp_thms if_True fst_conv)
qed

lemma pos_entry_short:
  assumes "length k < 65536" and "strict_prefix part (pos_entry_bytes (k, x, y))"
  shows "pos_entry (pre @ part) (length pre) = None"
proof (rule ccontr)
  obtain zs where zs: "pos_entry_bytes (k, x, y) = part @ zs" "zs \<noteq> []"
    using assms(2) by (auto simp: strict_prefix_def prefix_def)
  assume "pos_entry (pre @ part) (length pre) \<noteq> None"
  then obtain n where n: "u16_at (pre @ part) (length pre) = Some n"
    and all: "u32_at (pre @ part) (length pre + 6 + n) \<noteq> None"
    by (auto simp: pos_entry_def split: option.splits)
  have "2 \<le> length part" using n by (auto simp: u16_at_def split: if_splits)
  then have "u16_at part 0 = u16_at (part @ zs) 0" by (auto simp: u16_at_def nth_append)
  also have "\<dots> = Some (length k)" unfolding zs(1) [symmetric]
    using u16_le16 [of "length k" "id_bytes k @ le32 x @ le32 y"] assms(1) by (simp add: pos_entry_bytes_def)
  finally have "n = length k" using n at_shift(2) [of pre part 0] by simp
  then have "10 + length k \<le> length part" using all by (auto simp: u32_at_def split: if_splits)
  moreover have "length part + length zs = 10 + length k"
    using arg_cong [OF zs(1), of length] length_pos_entry_bytes by simp
  ultimately have "length zs = 0" by linarith
  then show False using zs(2) by simp
qed

text \<open>
  C7: a frame cut off in the middle of an entry is applied up to the last whole entry, the exception is
  logged, and the easing loop is not started for what moved: it waits for the next whole frame.
\<close>

theorem truncated_frame_applies_prefix:
  assumes "\<forall>e \<in> set es. wf_moved e" and "length k < 65536" and "strict_prefix part (pos_entry_bytes (k, x, y))"
    and "length es < n" and "n < 65536" and "\<not> net_is rn_ownsLayout s"
  defines "buf \<equiv> 1 # le16 n @ concat (map pos_entry_bytes es) @ part"
  shows "ws_onmessage (BinaryMsg buf) s = emit (Warn ''Error processing WebSocket message:'')
    (fst (fold feed_moved es (add_bytes (length buf) s, False, False)))"
proof -
  let ?s = "add_bytes (length buf) s"
  let ?pre = "1 # le16 n"
  obtain m where m: "n = length es + Suc m" using assms(4) by (metis less_iff_Suc_add add_Suc_right)
  have b: "buf = ?pre @ concat (map pos_entry_bytes es) @ part" by (simp add: buf_def)
  have h: "u8_at buf 0 = Some 1" "u16_at buf 1 = Some n"
    using assms(5) by (simp_all add: buf_def frame_header del: One_nat_def)
  have p: "length ?pre = 3" by simp
  have "pos_entry buf (length ?pre + length (concat (map pos_entry_bytes es))) = None"
    using pos_entry_short [OF assms(2,3), of "?pre @ concat (map pos_entry_bytes es)"]
    by (simp only: b append_assoc length_append)
  then have stop: "apply_positions buf (Suc m) (3 + length (concat (map pos_entry_bytes es))) acc = (RangeError, acc)"
    for acc :: "'a wstate_scheme \<times> bool \<times> bool"
    unfolding p apply_positions.simps(2) by (simp only: option.case)
  have "apply_positions buf n 3 (?s, False, False) = (RangeError, fold feed_moved es (?s, False, False))"
    using apply_positions_read [OF assms(1), of ?pre part "Suc m" "(?s, False, False)", folded b m, unfolded p stop] .
  moreover have "\<not> net_is rn_ownsLayout ?s" using assms(6) by (simp add: add_bytes_def net_is_def)
  ultimately have "applyPositionFrame buf ?s = (RangeError, fst (fold feed_moved es (?s, False, False)))"
    unfolding applyPositionFrame_def h
    by (simp only: if_False option.case Let_def prod.case simp_thms wire_end.distinct)
  then show ?thesis unfolding ws_onmessage_def h ws_msg.case Let_def option.case caught_def by simp
qed

subsection \<open>Raw topology frames\<close>

definition wf_raw_node :: "string \<times> nat \<times> nat \<Rightarrow> bool" where
  "wf_raw_node e = (case e of (k, tr, fl) \<Rightarrow> length k < 65536 \<and> tr < 256 \<and> fl < 256)"

definition wf_raw_link :: "nat \<times> nat \<times> nat \<Rightarrow> bool" where
  "wf_raw_link e = (case e of (a, b, p) \<Rightarrow> a < 2 ^ 24 \<and> b < 2 ^ 24 \<and> p < 256)"

lemma fround_small: "n < 2 ^ 24 \<Longrightarrow> fround_nat n = n"
proof -
  assume "n < 2 ^ 24"
  moreover have "(2::nat) ^ 24 \<le> 2 ^ (24 + i)" for i by (rule power_increasing) simp_all
  ultimately have "filter (\<lambda>i. 2 ^ (24 + i) \<le> n) [0..<8] = []"
    by (simp add: filter_empty_conv) (meson leD order_trans)
  then show ?thesis by (simp add: fround_nat_def)
qed

lemma raw_nodes_read:
  assumes "\<forall>e \<in> set ns. wf_raw_node e"
  shows "raw_nodes (pre @ concat (map raw_node_bytes ns) @ post) (length ns) (length pre) =
    Some (ns, length pre + length (concat (map raw_node_bytes ns)))"
  using assms
proof (induction ns arbitrary: pre)
  case Nil
  then show ?case by simp
next
  case (Cons e ns)
  obtain k tr fl where e: "e = (k, tr, fl)" by (metis prod_cases3)
  let ?rest = "concat (map raw_node_bytes ns) @ post"
  let ?b = "pre @ raw_node_bytes e @ ?rest"
  have w: "length k < 65536" "tr < 256" "fl < 256" using Cons.prems by (simp_all add: e wf_raw_node_def)
  have b: "?b = pre @ le16 (length k) @ id_bytes k @ [word_of_nat tr, word_of_nat fl] @ ?rest"
    "?b = (pre @ le16 (length k)) @ id_bytes k @ [word_of_nat tr, word_of_nat fl] @ ?rest"
    "?b = (pre @ le16 (length k) @ id_bytes k) @ word_of_nat tr # word_of_nat fl # ?rest"
    "?b = (pre @ le16 (length k) @ id_bytes k @ [word_of_nat tr]) @ word_of_nat fl # ?rest"
    by (simp_all add: e raw_node_bytes_def)
  have "u16_at ?b (length pre) = Some (length k)"
    using at_shift(2) [of pre "le16 (length k) @ id_bytes k @ [word_of_nat tr, word_of_nat fl] @ ?rest" 0] u16_le16 w
    by (simp add: b(1))
  moreover have "text_at ?b (length pre + 2) (length k) = Some k"
    using at_shift(4) [of "pre @ le16 (length k)" "id_bytes k @ [word_of_nat tr, word_of_nat fl] @ ?rest" 0 "length k"]
      text_id_bytes by (simp add: b(2) del: append_assoc)
  moreover have "u8_at ?b (length pre + 2 + length k) = Some tr"
    using at_shift(1) [of "pre @ le16 (length k) @ id_bytes k" "word_of_nat tr # word_of_nat fl # ?rest" 0]
      u8_byte w by (simp add: b(3) ac_simps)
  moreover have "u8_at ?b (length pre + 3 + length k) = Some fl"
    using at_shift(1) [of "pre @ le16 (length k) @ id_bytes k @ [word_of_nat tr]" "word_of_nat fl # ?rest" 0]
      u8_byte w by (simp add: b(4) ac_simps numeral_3_eq_3)
  moreover have "length (raw_node_bytes e) = 4 + length k" by (simp add: e raw_node_bytes_def)
  ultimately show ?case
    using Cons.IH [of "pre @ raw_node_bytes e"] Cons.prems by (simp add: e ac_simps)
qed

lemma raw_links_read:
  assumes "\<forall>e \<in> set ls. wf_raw_link e"
  shows "raw_links (pre @ concat (map raw_link_bytes ls)) (length ls) (length pre) = Some ls"
  using assms
proof (induction ls arbitrary: pre)
  case Nil
  then show ?case by simp
next
  case (Cons e ls)
  obtain x y p where e: "e = (x, y, p)" by (metis prod_cases3)
  let ?rest = "concat (map raw_link_bytes ls)"
  let ?b = "pre @ raw_link_bytes e @ ?rest"
  have w: "x < 2 ^ 24" "y < 2 ^ 24" "p < 256" using Cons.prems by (simp_all add: e wf_raw_link_def)
  have b: "?b = pre @ le32 x @ le32 y @ [word_of_nat p] @ ?rest"
    "?b = (pre @ le32 x) @ le32 y @ [word_of_nat p] @ ?rest"
    "?b = (pre @ le32 x @ le32 y) @ word_of_nat p # ?rest"
    by (simp_all add: e raw_link_bytes_def)
  have "u32_at ?b (length pre) = Some x"
    using at_shift(3) [of pre "le32 x @ le32 y @ [word_of_nat p] @ ?rest" 0] u32_le32 w by (simp add: b(1))
  moreover have "u32_at ?b (length pre + 4) = Some y"
    using at_shift(3) [of "pre @ le32 x" "le32 y @ [word_of_nat p] @ ?rest" 0] u32_le32 w by (simp add: b(2))
  moreover have "u8_at ?b (length pre + 8) = Some p"
    using at_shift(1) [of "pre @ le32 x @ le32 y" "word_of_nat p # ?rest" 0] u8_byte w by (simp add: b(3))
  moreover have "length (raw_link_bytes e) = 9" by (simp add: e raw_link_bytes_def)
  ultimately show ?case
    using Cons.IH [of "pre @ raw_link_bytes e"] Cons.prems fround_small w by (simp add: e ac_simps)
qed

text \<open>
  C6: the raw topology a client hands to its renderer is the one the server encoded, as long as the
  node indices stay below 2^24, the integers a \<^verbatim>\<open>Float32Array\<close> keeps exactly.
\<close>

theorem raw_frame_roundtrip:
  assumes "\<forall>e \<in> set ns. wf_raw_node e" and "\<forall>e \<in> set ls. wf_raw_link e"
    and "length ns < 2 ^ 32" and "length ls < 2 ^ 32"
  shows "decode_raw (encodeRawFrame ns ls) = Some (ns, ls)"
proof -
  define nb where "nb = concat (map raw_node_bytes ns)"
  define lb where "lb = concat (map raw_link_bytes ls)"
  let ?b = "encodeRawFrame ns ls"
  have b: "?b = [2] @ le32 (length ns) @ nb @ le32 (length ls) @ lb"
    "?b = (2 # le32 (length ns)) @ nb @ le32 (length ls) @ lb"
    "?b = (2 # le32 (length ns) @ nb) @ le32 (length ls) @ lb"
    "?b = (2 # le32 (length ns) @ nb @ le32 (length ls)) @ lb"
    by (simp_all add: encodeRawFrame_def nb_def lb_def)
  have "u32_at ?b 1 = Some (length ns)"
    using at_shift(3) [of "[2]" "le32 (length ns) @ nb @ le32 (length ls) @ lb" 0] u32_le32 assms(3) by (simp add: b(1))
  moreover have "raw_nodes ?b (length ns) 5 = Some (ns, 5 + length nb)"
    using raw_nodes_read [OF assms(1), of "2 # le32 (length ns)" "le32 (length ls) @ lb"]
    by (simp add: b(2) nb_def)
  moreover have "u32_at ?b (5 + length nb) = Some (length ls)"
    using at_shift(3) [of "2 # le32 (length ns) @ nb" "le32 (length ls) @ lb" 0] u32_le32 assms(4) by (simp add: b(3))
  moreover have "raw_links ?b (length ls) (5 + length nb + 4) = Some ls"
    using raw_links_read [OF assms(2), of "2 # le32 (length ns) @ nb @ le32 (length ls)"]
    by (simp add: b(4) lb_def ac_simps)
  ultimately show ?thesis by (simp add: decode_raw_def)
qed

section \<open>Messages and the drawn graph\<close>

lemma core_place_at: "core (fst (place_at k p acc)) = core (fst acc)"
proof -
  obtain s mv sn where a: "acc = (s, mv, sn)" by (metis prod_cases3)
  obtain r t where t: "applyTargetPosition k p (case map_of (nodeMeta s) k of Some meta \<Rightarrow> v_pinned meta | None \<Rightarrow> False) s = (r, t)"
    by fastforce
  show ?thesis using target_spec [OF t] by (simp add: a place_at_def t)
qed

lemma core_apply_positions: "core (fst (snd (apply_positions buf n off acc))) = core (fst acc)"
  by (induction buf n off acc rule: apply_positions.induct)
    (auto simp: core_place_at split: option.splits prod.splits)

lemma core_wire_stats [simp]: "core (s\<lparr>wireStats := w\<rparr>) = core s" "core (s\<lparr>rawProtoTable := t\<rparr>) = core s"
  by (simp_all add: core_def)

lemma core_binary:
  "core (snd (applyPositionFrame buf s)) = core s" "core (snd (applyRawTopologyFrame buf s)) = core s"
proof -
  have f: "core (finish_positions n acc) = core (fst acc)" for n and acc :: "'a wstate_scheme \<times> bool \<times> bool"
    by (simp add: finish_positions_def Let_def split: prod.splits)
  show "core (snd (applyPositionFrame buf s)) = core s"
  proof -
    have "core (fst (snd r)) = core s \<Longrightarrow> core (snd (let (e, acc) = r in if e = Done then (Done, finish_positions n acc)
        else (e, fst acc))) = core s" for r :: "wire_end \<times> 'a wstate_scheme \<times> bool \<times> bool" and n
      by (auto simp: f split: prod.splits)
    then show ?thesis using core_apply_positions [of buf _ 3 "(s, False, False)"]
      by (simp add: applyPositionFrame_def split: option.splits)
  qed
  have "core (with_net (\<lambda>r. r\<lparr>rn_rawMode := True\<rparr>) t) = core t" for t :: "'a wstate_scheme"
    by (rule core_with_net) (simp add: shape_def)
  then show "core (snd (applyRawTopologyFrame buf s)) = core s"
    by (simp add: applyRawTopologyFrame_def Let_def split: option.splits prod.splits)
qed

lemma core_counts_frame: "core (applyCountsFrame data s) = core s"
proof -
  have "core (t\<lparr>nodeMeta := x\<rparr>) = core t" "core (t\<lparr>edgeMeta := y\<rparr>) = core t"
    for t :: "'a wstate_scheme" and x y by (simp_all add: core_def)
  then show ?thesis by (simp add: applyCountsFrame_def Let_def split: option.splits)
qed

lemma mirrored_throttled: "mirrored s \<Longrightarrow> mirrored (throttledUpdateGraph d s)"
proof -
  assume m: "mirrored s"
  have c: "mirrored (t\<lparr>updateThrottleMs := a\<rparr>) = mirrored t" "mirrored (t\<lparr>pendingUpdate := b\<rparr>) = mirrored t"
    "mirrored (t\<lparr>updateScheduled := e\<rparr>) = mirrored t" "mirrored (t\<lparr>updateTimerSet := e\<rparr>) = mirrored t"
    "mirrored (t\<lparr>lastUpdateTime := a\<rparr>) = mirrored t" "mirrored (emit ev t) = mirrored t"
    for t :: "'a gstate_scheme" and a b e ev
    by (rule mirrored_core, simp add: core_def emit_def)+
  show ?thesis using m by (simp add: throttledUpdateGraph_def Let_def c mirror_update)
qed


lemma count_node_get: "map_of (count_node e meta) k =
    (if k = fst e then map_option (\<lambda>m. m\<lparr>v_packetCount := fst (snd e), v_byteCount := snd (snd e)\<rparr>) (map_of meta k)
     else map_of meta k)"
  by (simp add: count_node_def update_conv' split: option.splits)

lemma count_nodes:
  "distinct (map fst es) \<Longrightarrow> map_of (fold count_node es meta) k = (case map_of meta k of None \<Rightarrow> None
     | Some m \<Rightarrow> Some (case map_of es k of None \<Rightarrow> m | Some (pc, bc) \<Rightarrow> m\<lparr>v_packetCount := pc, v_byteCount := bc\<rparr>))"
proof (induction es arbitrary: meta)
  case (Cons e es)
  have n: "map_of es (fst e) = None" using Cons.prems by (simp add: map_of_eq_None_iff)
  have IH: "map_of (fold count_node es meta') k = (case map_of meta' k of None \<Rightarrow> None
     | Some m \<Rightarrow> Some (case map_of es k of None \<Rightarrow> m | Some (pc, bc) \<Rightarrow> m\<lparr>v_packetCount := pc, v_byteCount := bc\<rparr>))"
    for meta' using Cons by simp
  show ?case using n by (auto simp: IH count_node_get split: option.splits prod.splits)
qed (simp split: option.splits)

text \<open>
  Lemma: a counts frame updates the counters of the nodes it names that are known, leaves every other
  entry alone, and changes nothing that is drawn or remembered about drawing.
\<close>

theorem counts_touch_only_counters:
  fixes s :: "'a wstate_scheme"
  assumes "distinct (map fst (cf_nodes data))"
  defines "s' \<equiv> applyCountsFrame data s"
  shows "core s' = core s \<and> network s' = network s \<and> marks s' = marks s
    \<and> map_of (nodeMeta s') k = (case map_of (nodeMeta s) k of None \<Rightarrow> None
        | Some m \<Rightarrow> Some (case map_of (cf_nodes data) k of None \<Rightarrow> m
            | Some (pc, bc) \<Rightarrow> m\<lparr>v_packetCount := pc, v_byteCount := bc\<rparr>))"
proof -
  have st: "network (updateStatistics a b c t) = network t" "nodeMeta (updateStatistics a b c t) = nodeMeta t"
    "marks (updateStatistics a b c t) = marks t" for a b c and t :: "'a wstate_scheme"
    by (simp_all add: updateStatistics_def page_defs marks_def Let_def)
  have pc: "network (fold (\<lambda>(el, proto). upd_el el (el_text (count_text x proto))) xs t) = network t
      \<and> nodeMeta (fold (\<lambda>(el, proto). upd_el el (el_text (count_text x proto))) xs t) = nodeMeta t" for x xs
    and t :: "'a wstate_scheme"
    by (induction xs arbitrary: t) (auto simp: page_defs)
  then have pc: "network (updateProtocolCounts x t) = network t" "nodeMeta (updateProtocolCounts x t) = nodeMeta t"
    for x and t :: "'a wstate_scheme"
    by (simp_all add: updateProtocolCounts_def Let_def split: option.splits)
  have r: "nodeMeta s' = fold count_node (cf_nodes data) (nodeMeta s)" "network s' = network s"
    by (simp_all add: s'_def applyCountsFrame_def Let_def st pc split: option.splits)
  have "marks s' = marks s"
    by (simp add: s'_def applyCountsFrame_def Let_def st split: option.splits) (simp add: marks_def)
  then show ?thesis using r count_nodes [OF assms(1)] core_counts_frame [of data s] by (simp add: s'_def)
qed

definition sample_wstate :: wstate where
  "sample_wstate = gstate.extend sample_gstate
     (wstate.fields \<lparr> ws_deltas = 0, ws_posFrames = 0, ws_posNodes = 0, ws_countsFrames = 0,
        ws_bytesIn = 0, ws_rawFrames = 0 \<rparr> [])"

text \<open>The patterns of 1 and -2.5.\<close>

lemma f32_samples: "f32_value 1065353216 = Some 1" "f32_value 3223322624 = Some (- (5 / 2))"
  by (simp_all add: f32_value_def Let_def)

lemma sample_wstate_fields [simp]:
  "network sample_wstate = Some sample_renderer" "nodes sample_wstate = []" "edges sample_wstate = []"
  "nodeMeta sample_wstate = []"
  by (simp_all add: sample_wstate_def gstate.extend_def sample_gstate_def gstate.defs pstate.extend_def)

lemma sample_network [simp]: "net_is p sample_wstate = p sample_renderer"
  by (simp add: net_is_def)

theorem pos_frame_roundtrip_witness:
  "applyPositionFrame (buildPosFrame [(''a'', 1065353216, 3223322624)]) sample_wstate =
     (Done, finish_positions 1 (place_at ''a'' (1, - (5 / 2)) (sample_wstate, False, False)))"
  using pos_frame_roundtrip [of "[(''a'', 1065353216, 3223322624)]" sample_wstate]
  by (simp add: wf_moved_def f32_samples feed_moved_def sample_renderer_def)

theorem truncated_frame_applies_prefix_witness:
  "ws_onmessage (BinaryMsg (1 # le16 2 @ pos_entry_bytes (''a'', 1065353216, 3223322624) @ [1])) sample_wstate =
     emit (Warn ''Error processing WebSocket message:'')
       (fst (place_at ''a'' (1, - (5 / 2)) (add_bytes 15 sample_wstate, False, False)))"
proof -
  have "strict_prefix [1] (pos_entry_bytes (''b'', 0, 0))"
    by (simp add: pos_entry_bytes_def le16_def strict_prefix_def)
  from truncated_frame_applies_prefix [OF _ _ this, where es = "[(''a'', 1065353216, 3223322624)]"
      and n = 2 and s = sample_wstate]
  show ?thesis by (simp add: wf_moved_def f32_samples feed_moved_def sample_renderer_def length_pos_entry_bytes)
qed

theorem raw_frame_roundtrip_witness:
  "decode_raw (encodeRawFrame [(''a'', 1, 0), (''b'', 2, 1)] [(0, 1, 3)]) = Some ([(''a'', 1, 0), (''b'', 2, 1)], [(0, 1, 3)])"
  by (rule raw_frame_roundtrip) (simp_all add: wf_raw_node_def wf_raw_link_def)


theorem counts_touch_only_counters_witness:
  "core (applyCountsFrame \<lparr> cf_nodes = [(''a'', 3, 4)], cf_edges = [], cf_stats = None, cf_protocolStats = None \<rparr>
     sample_wstate) = core sample_wstate"
  by (rule counts_touch_only_counters [THEN conjunct1]) simp

end
