(* ===== verification/Details.thy ===== *)
theory Details
  imports Wire Html
begin

text \<open>
  What a user does to one node (\<^verbatim>\<open>static/app.js\<close>): subnet expansion and cluster focus with the
  aggregation message they send, the zoom band, per-node overrides, the lazy \<^verbatim>\<open>/api/node\<close> detail,
  the details panel and the hover tooltip.  An asynchronous function is split at its \<^verbatim>\<open>await\<close>
  into the part that sends the request and the part that handles the reply; the \<^verbatim>\<open>then\<close> of an
  already settled promise is a microtask, run to the end before any reply can arrive.
\<close>

section \<open>State\<close>

record dstate = wstate +
  expandedSubnets :: "string list"
  fullExpandSubnets :: "string list"
  focusClusterCIDR :: string
  currentZoomBand :: string
  zoomBandTimerSet :: bool
  aggThreshold :: int                \<comment> \<open>\<^verbatim>\<open>parseInt\<close> of the stored threshold, 0 when unset\<close>
  graphTooltip :: "(string \<times> real \<times> real) option"   \<comment> \<open>text and position while displayed\<close>
  tooltipSize :: "string \<Rightarrow> real \<times> real"               \<comment> \<open>layout of the tooltip for a text\<close>

section \<open>Aggregation\<close>

definition badge_html :: "string \<Rightarrow> string" where
  "badge_html cidr =
     span (''Focusing '' @ tag ''strong'' [] cidr)
     @ tag ''button'' [(''type'', ''button''),
         (''style'', ''cursor:pointer;border:0;border-radius:6px;padding:4px 10px;background:#3a4a60;color:#fff;font:12px system-ui,sans-serif;''),
         (''onclick'', ''handleClusterFocusExit()'')] ''Show all''"

definition updateFocusClusterBadge :: "'a dstate_scheme \<Rightarrow> 'a dstate_scheme" where
  "updateFocusClusterBadge s =
     (if focusClusterCIDR s = [] then remove_el ''focusClusterBadge'' s
      else
        let s = (if has_el ''focusClusterBadge'' s then s else create_el ''focusClusterBadge'' fresh_elem s)
        in upd_el ''focusClusterBadge'' (el_html (badge_html (focusClusterCIDR s))) s)"

definition sendAggregation :: "'a dstate_scheme \<Rightarrow> 'a dstate_scheme" where
  "sendAggregation s =
     updateFocusClusterBadge
       (sendControl (SetAggregation (aggThreshold s) (expandedSubnets s) (fullExpandSubnets s)
          (focusClusterCIDR s) (currentZoomBand s)) s)"

definition placeholder_html :: string where
  "placeholder_html = tag ''p'' [(''class'', ''placeholder'')] ''Click on a node or edge to view details''"

definition hideDetails :: "'a dstate_scheme \<Rightarrow> 'a dstate_scheme" where
  "hideDetails s =
     (let s = s\<lparr>detailsNodeId := None\<rparr>;
          s = upd_el ''detailsPanel'' (remove_class ''active'') s
      in upd_el ''detailsContent'' (el_html placeholder_html) s)"

definition handleSubnetExpand :: "string \<Rightarrow> 'a dstate_scheme \<Rightarrow> 'a dstate_scheme" where
  "handleSubnetExpand cidr s =
     hideDetails (sendAggregation (s\<lparr>expandedSubnets := set_add (strip_plus cidr) (expandedSubnets s)\<rparr>))"

definition handleSubnetExpandAll :: "string \<Rightarrow> 'a dstate_scheme \<Rightarrow> 'a dstate_scheme" where
  "handleSubnetExpandAll cidr s =
     (let base = strip_plus cidr;
          s = s\<lparr>expandedSubnets := set_add base (expandedSubnets s)\<rparr>;
          s = s\<lparr>fullExpandSubnets := set_add base (fullExpandSubnets s)\<rparr>
      in hideDetails (sendAggregation s))"

definition handleSubnetCollapse :: "string \<Rightarrow> 'a dstate_scheme \<Rightarrow> 'a dstate_scheme" where
  "handleSubnetCollapse cidr s =
     (let base = strip_plus cidr;
          s = s\<lparr>expandedSubnets := set_del base (expandedSubnets s)\<rparr>;
          s = s\<lparr>fullExpandSubnets := set_del base (fullExpandSubnets s)\<rparr>;
          s = (if focusClusterCIDR s = base \<or> focusClusterCIDR s = base @ ''+''
               then s\<lparr>focusClusterCIDR := []\<rparr> else s)
      in hideDetails (sendAggregation s))"

definition handleClusterFocus :: "string \<Rightarrow> 'a dstate_scheme \<Rightarrow> 'a dstate_scheme" where
  "handleClusterFocus cidr s =
     (let base = strip_plus cidr;
          s = s\<lparr>focusClusterCIDR := base\<rparr>;
          s = s\<lparr>expandedSubnets := set_add base (expandedSubnets s)\<rparr>
      in hideDetails (sendAggregation s))"

definition handleClusterFocusExit :: "'a dstate_scheme \<Rightarrow> 'a dstate_scheme" where
  "handleClusterFocusExit s = sendAggregation (s\<lparr>focusClusterCIDR := []\<rparr>)"

definition zoomBandFromScale :: "real \<Rightarrow> string" where
  "zoomBandFromScale scale =
     (if \<not> 0 < scale then ''mid'' else if scale < 35 / 100 then ''far''
      else if 14 / 10 < scale then ''near'' else ''mid'')"

definition reportZoomBand :: "real \<Rightarrow> 'a dstate_scheme \<Rightarrow> 'a dstate_scheme" where
  "reportZoomBand scale s =
     (let band = zoomBandFromScale scale
      in if band = currentZoomBand s then s
         else
           let s = s\<lparr>currentZoomBand := band\<rparr>;
               s = (if zoomBandTimerSet s then emit (Cancel ZoomTimer) s else s)
           in emit (After ZoomTimer 280) (s\<lparr>zoomBandTimerSet := True\<rparr>))"

definition zoomBandTimer_fires :: "'a dstate_scheme \<Rightarrow> 'a dstate_scheme" where
  "zoomBandTimer_fires s = sendAggregation (s\<lparr>zoomBandTimerSet := False\<rparr>)"

section \<open>Overrides\<close>

definition drops :: "jsval \<Rightarrow> bool" where
  "drops v = (v = JNull \<or> v = JStr [] \<or> v = JBool False)"

definition patch_override :: "override \<Rightarrow> override \<Rightarrow> override" where
  "patch_override patch current =
     fold (\<lambda>(k, v) c. if drops v then AList.delete k c else AList.update k v c) patch current"

definition override_of :: "string \<Rightarrow> 'a gstate_scheme \<Rightarrow> override" where
  "override_of nodeId s = (case map_of (nodeOverrides s) nodeId of Some o' \<Rightarrow> o' | None \<Rightarrow> [])"

definition loadOverrides_reply :: "(string \<times> override) list reply \<Rightarrow> 'a gstate_scheme \<Rightarrow> 'a gstate_scheme" where
  "loadOverrides_reply r s = (case r of Body m \<Rightarrow> s\<lparr>nodeOverrides := m\<rparr> | _ \<Rightarrow> s)"

definition applyOverrideEdit :: "string \<Rightarrow> override \<Rightarrow> 'a gstate_scheme \<Rightarrow> 'a gstate_scheme" where
  "applyOverrideEdit nodeId patch s =
     (let current = patch_override patch (override_of nodeId s)
      in emit (Ask (PostOverride nodeId current))
           (s\<lparr>nodeOverrides := AList.update nodeId current (nodeOverrides s)\<rparr>))"

definition clearOverride :: "string \<Rightarrow> 'a gstate_scheme \<Rightarrow> 'a gstate_scheme" where
  "clearOverride nodeId s =
     emit (Ask (DeleteOverride nodeId)) (s\<lparr>nodeOverrides := AList.delete nodeId (nodeOverrides s)\<rparr>)"

definition truthy :: "jsval option \<Rightarrow> bool" where
  "truthy v = (case v of None \<Rightarrow> False | Some (JStr t) \<Rightarrow> t \<noteq> [] | Some (JNum n) \<Rightarrow> n \<noteq> 0
     | Some (JBool b) \<Rightarrow> b | Some JNull \<Rightarrow> False)"

definition is_user_group :: "override \<Rightarrow> bool" where
  "is_user_group ov = truthy (map_of ov ''isGroup'')"

definition is_pinned :: "override \<Rightarrow> bool" where
  "is_pinned ov = (case map_of ov ''pinnedX'' of None \<Rightarrow> False | Some v \<Rightarrow> v \<noteq> JNull)"

definition handleGroupToggle :: "string \<Rightarrow> 'a gstate_scheme \<Rightarrow> 'a gstate_scheme" where
  "handleGroupToggle nodeId s =
     applyOverrideEdit nodeId [(''isGroup'', JBool (\<not> is_user_group (override_of nodeId s)))] s"

definition handlePinToggle :: "string \<Rightarrow> 'a gstate_scheme \<Rightarrow> 'a gstate_scheme" where
  "handlePinToggle nodeId s =
     (if is_pinned (override_of nodeId s)
      then applyOverrideEdit nodeId [(''pinnedX'', JNull), (''pinnedY'', JNull)] s
      else case network s of
             None \<Rightarrow> s
           | Some r \<Rightarrow>
               let p = getPosition r nodeId
               in applyOverrideEdit nodeId [(''pinnedX'', JNum (fst p)), (''pinnedY'', JNum (snd p))] s)"

definition handleRename :: "string \<Rightarrow> string \<Rightarrow> 'a gstate_scheme \<Rightarrow> 'a gstate_scheme" where
  "handleRename nodeId value s = applyOverrideEdit nodeId [(''label'', JStr (trim value))] s"

definition handleRecolor :: "string \<Rightarrow> string \<Rightarrow> 'a gstate_scheme \<Rightarrow> 'a gstate_scheme" where
  "handleRecolor nodeId value s = applyOverrideEdit nodeId [(''color'', JStr value)] s"

section \<open>Lazy node detail\<close>

record node_detail =
  nd_ips :: "string list option"
  nd_macs :: "string list"
  nd_primaryMac :: string
  nd_deviceInfo :: string
  nd_vendor :: string
  nd_deviceClass :: string
  nd_role :: string
  nd_peers :: nat
  nd_edges :: "detail_edge list option"
  nd_tooltip :: string

text \<open>How the promise of \<^verbatim>\<open>fetchNodeDetail\<close> stands when the call returns.\<close>

datatype detail_call = Settled "vnode option" | Fetching

definition fetchNodeDetail :: "string \<Rightarrow> 'a gstate_scheme \<Rightarrow> detail_call \<times> 'a gstate_scheme" where
  "fetchNodeDetail nodeId s =
     (let meta = map_of (nodeMeta s) nodeId
      in if (case meta of Some m \<Rightarrow> v_detailLoaded m | None \<Rightarrow> False) then (Settled meta, s)
         else if nodeId \<in> set (nodeDetailPending s) then (Settled meta, s)
         else (Fetching, emit (Ask (GetNode nodeId))
                 (s\<lparr>nodeDetailPending := set_add nodeId (nodeDetailPending s)\<rparr>)))"

definition merge_detail :: "node_detail \<Rightarrow> vnode \<Rightarrow> vnode" where
  "merge_detail d m =
     m\<lparr>v_ips := nd_ips d, v_macs := Some (nd_macs d),
       v_primaryMac := or_else (nd_primaryMac d) (case nd_macs d of x # _ \<Rightarrow> x | [] \<Rightarrow> []),
       v_deviceInfo := nd_deviceInfo d, v_vendor := nd_vendor d, v_deviceClass := nd_deviceClass d,
       v_role := or_else (v_role m) (nd_role d), v_peers := nd_peers d, v_detailEdges := nd_edges d,
       v_tooltip := nd_tooltip d, v_detailLoaded := True\<rparr>"

text \<open>The reply; \<open>meta\<close> is the entry seen when the request was sent.\<close>

definition fetchNodeDetail_reply ::
    "string \<Rightarrow> vnode option \<Rightarrow> node_detail reply \<Rightarrow> 'a gstate_scheme \<Rightarrow> vnode option \<times> 'a gstate_scheme" where
  "fetchNodeDetail_reply nodeId meta r s =
     (let s' = s\<lparr>nodeDetailPending := set_del nodeId (nodeDetailPending s)\<rparr>
      in case r of
           Body d \<Rightarrow>
             (case map_of (nodeMeta s) nodeId of
                None \<Rightarrow> (None, s')
              | Some m \<Rightarrow>
                  let m' = merge_detail d m
                  in (Some m', s'\<lparr>nodeMeta := AList.update nodeId m' (nodeMeta s)\<rparr>))
         | _ \<Rightarrow> (meta, s'))"

section \<open>The details panel\<close>

text \<open>The item with the live values of its meta entry laid over it (\<^verbatim>\<open>Object.assign\<close>).\<close>

record detail_view =
  dv_item :: node_item
  dv_macs :: "string list"
  dv_primaryMac :: string
  dv_deviceInfo :: string
  dv_vendor :: string
  dv_deviceClass :: string

definition merge_meta :: "node_item \<Rightarrow> vnode option \<Rightarrow> detail_view" where
  "merge_meta node meta =
     (case meta of
        None \<Rightarrow> \<lparr> dv_item = node, dv_macs = [], dv_primaryMac = [], dv_deviceInfo = [], dv_vendor = [],
                  dv_deviceClass = [] \<rparr>
      | Some m \<Rightarrow>
          \<lparr> dv_item = node\<lparr>i_packetCount := v_packetCount m, i_byteCount := v_byteCount m, i_role := v_role m,
              i_ips := (case v_ips m of Some xs \<Rightarrow> xs | None \<Rightarrow> i_ips node)\<rparr>,
            dv_macs = (case v_macs m of Some xs \<Rightarrow> xs | None \<Rightarrow> []), dv_primaryMac = v_primaryMac m,
            dv_deviceInfo = v_deviceInfo m, dv_vendor = v_vendor m, dv_deviceClass = v_deviceClass m \<rparr>)"

definition esc_quote :: "string \<Rightarrow> string" where
  "esc_quote t = concat (map (\<lambda>c. if c = CHR 0x27 then [CHR 0x5C, CHR 0x27] else [c]) t)"

definition esc_dquote :: "string \<Rightarrow> string" where
  "esc_dquote t = concat (map (\<lambda>c. if c = CHR 0x22 then ''&quot;'' else [c]) t)"

definition ROLE_GLYPH :: "(string \<times> string) list" where
  "ROLE_GLYPH =
     [(''server'', utf8 [240, 159, 150, 165]), (''client'', utf8 [240, 159, 146, 187]),
      (''router'', utf8 [240, 159, 148, 128]), (''switch'', utf8 [226, 150, 166]),
      (''gateway'', utf8 [240, 159, 155, 161]), (''iot'', utf8 [240, 159, 147, 159]),
      (''multicast'', utf8 [240, 159, 147, 161])]"

definition detail_item :: "string \<Rightarrow> string \<Rightarrow> string" where
  "detail_item title body = div_c ''detail-item'' (tag ''strong'' [] (title @ '':'') @ '' '' @ body)"

definition toggle_btn :: "string \<Rightarrow> string \<Rightarrow> string" where
  "toggle_btn onclick body = tag ''button'' [(''class'', ''group-toggle-btn''), (''onclick'', onclick)] body"

definition collapse_btn :: "string \<Rightarrow> string" where
  "collapse_btn cidr =
     toggle_btn (call1 ''handleSubnetCollapse'' cidr) (utf8 [226, 138, 159] @ '' Collapse '' @ cidr)"

definition subnet_base :: "node_item \<Rightarrow> string \<Rightarrow> string" where
  "subnet_base node nodeId =
     (let rawId = or_else (i_id node) nodeId
      in esc_quote (if i_isTail node then or_else (strip_plus rawId) (strip_more_in (i_hostname node))
                    else or_else (i_hostname node) nodeId))"

definition subnet_details_html :: "string list \<Rightarrow> node_item \<Rightarrow> string \<Rightarrow> nat \<Rightarrow> string" where
  "subnet_details_html expanded node nodeId conns =
     (let baseCidr = subnet_base node nodeId;
          parent16 = (if suffix ''/24'' baseCidr then subnet16_of_string baseCidr else []);
          boxplus = utf8 [226, 138, 158];
          expandBtn = (if i_isTail node
            then toggle_btn (call1 ''handleSubnetExpandAll'' baseCidr) (boxplus @ '' Expand all hosts'')
            else toggle_btn (call1 ''handleSubnetExpand'' baseCidr) (boxplus @ '' Expand subnet'')
              @ toggle_btn (call1 ''handleSubnetExpandAll'' baseCidr) (boxplus @ '' Expand all''))
      in tag ''h4'' [] (if i_isTail node then ''More Hosts in Subnet'' else ''Subnet Details'')
         @ detail_item ''CIDR'' baseCidr
         @ detail_item ''Hosts inside'' (count_or_mark (i_hostCount node) @ only_if (i_isTail node) '' (quieter remainder)'')
         @ detail_item ''Total Packets'' (show_nat (i_packetCount node))
         @ detail_item ''Total Bytes'' (formatBytes (i_byteCount node))
         @ detail_item ''Active Connections'' (show_nat conns)
         @ div_c ''customize-buttons''
             (expandBtn
              @ toggle_btn (call1 ''handleClusterFocus'' baseCidr) (utf8 [226, 151, 142] @ '' Focus cluster'')
              @ only_if (parent16 \<noteq> [] \<and> parent16 \<in> set expanded) (collapse_btn parent16)))"

definition mac_html :: "detail_view \<Rightarrow> string" where
  "mac_html dv =
     (let macs = dv_macs dv; primaryMac = or_else (dv_primaryMac dv) (case macs of m # _ \<Rightarrow> m | [] \<Rightarrow> [])
      in only_if (primaryMac \<noteq> [])
           (detail_item ''MAC (identity)'' (tag ''code'' [] primaryMac)
            @ only_if (1 < length macs) (detail_item ''All MACs'' (join '', '' (map (tag ''code'' []) macs)))))"

definition ip_html :: "detail_view \<Rightarrow> string \<Rightarrow> string" where
  "ip_html dv nodeId =
     (let ips = i_ips (dv_item dv);
          primaryMac = or_else (dv_primaryMac dv) (case dv_macs dv of m # _ \<Rightarrow> m | [] \<Rightarrow> []);
          strong = (\<lambda>t. tag ''strong'' [] t @ '' '')
      in if ips \<noteq> [] then
           (if length ips = 1 then strong ''IP Address:'' @ hd ips
            else
              let ipv4 = filter (\<lambda>ip. CHR ''.'' \<in> set ip) ips; ipv6 = filter (\<lambda>ip. CHR '':'' \<in> set ip) ips
              in if ipv4 = [] \<and> ipv6 = [] then strong ''IP Addresses:'' @ join '', '' ips
                 else only_if (ipv4 \<noteq> []) (strong ''IPv4:'' @ join '', '' ipv4 @ ''<br>'')
                      @ only_if (ipv6 \<noteq> []) (strong ''IPv6:'' @ join '', '' ipv6))
         else if primaryMac = [] then strong ''IP Address:'' @ nodeId
         else strong ''IP Address:'' @ tag ''em'' [] (''loading'' @ ellipsis))"

definition role_html :: "node_item \<Rightarrow> string" where
  "role_html node =
     only_if (i_role node \<noteq> [] \<and> i_role node \<noteq> ''unknown'' \<and> \<not> i_isGroup node)
       (detail_item ''Role'' (lookup_or ROLE_GLYPH (i_role node) [] @ '' '' @ lookup_or ROLE_NAME (i_role node) (i_role node)))"

definition vendor_html :: "detail_view \<Rightarrow> string" where
  "vendor_html dv =
     (let muted = tag ''span'' [(''style'', ''color:var(--text-muted)'')]
      in if dv_vendor dv \<noteq> []
         then detail_item ''Device''
                (escapeHtml (dv_vendor dv)
                 @ only_if (dv_deviceClass dv \<noteq> []) ('' '' @ muted (''('' @ escapeHtml (dv_deviceClass dv) @ '')'')))
         else only_if (dv_deviceClass dv \<noteq> []) (detail_item ''Device'' (muted (escapeHtml (dv_deviceClass dv)))))"

definition js_text :: "jsval option \<Rightarrow> string \<Rightarrow> string" where
  "js_text v fb = (case v of Some (JStr t) \<Rightarrow> or_else t fb | _ \<Rightarrow> fb)"

definition void_tag :: "string \<Rightarrow> (string \<times> string) list \<Rightarrow> string" where
  "void_tag name attrs = open_tag name attrs"

definition customize_html :: "override \<Rightarrow> node_item \<Rightarrow> string \<Rightarrow> string" where
  "customize_html ov node nodeId =
     (let escId = esc_quote nodeId
      in if i_isGroup node \<and> \<not> is_user_group ov
         then detail_item ''Group'' ''multicast/broadcast (auto)''
         else
           div_c ''detail-item node-customize''
             (tag ''label'' [] (''Name '' @ void_tag ''input''
                [(''type'', ''text''), (''value'', esc_dquote (js_text (map_of ov ''label'') [])),
                 (''placeholder'', esc_dquote (or_else (i_hostname node) nodeId)),
                 (''onchange'', ''handleRename('' @ quote1 escId @ '', this.value)'')])
              @ tag ''label'' [] (''Color '' @ void_tag ''input''
                [(''type'', ''color''), (''value'', js_text (map_of ov ''color'') ''#3498db''),
                 (''onchange'', ''handleRecolor('' @ quote1 escId @ '', this.value)'')])
              @ div_c ''customize-buttons''
                  (toggle_btn (call1 ''handleGroupToggle'' escId)
                     (if is_user_group ov then utf8 [226, 156, 149] @ '' Ungroup'' else group_sym @ '' Group'')
                   @ toggle_btn (call1 ''handlePinToggle'' escId)
                     (if is_pinned ov then utf8 [240, 159, 147, 140] @ '' Unpin'' else utf8 [240, 159, 147, 141] @ '' Pin'')
                   @ toggle_btn (call1 ''clearOverride'' escId) (utf8 [226, 134, 186] @ '' Reset''))))"

definition subnet_buttons_html :: "string list \<Rightarrow> node_item \<Rightarrow> string" where
  "subnet_buttons_html expanded node =
     (let cidrs = [hostSubnet24 (i_id node) (Some (i_ips node)), subnet16Of (i_id node) (Some (i_ips node))];
          buttons = map collapse_btn (filter (\<lambda>c. c \<noteq> [] \<and> c \<in> set expanded) cidrs)
      in only_if (\<not> i_isGroup node \<and> buttons \<noteq> []) (div_c ''detail-item'' (join '' '' buttons)))"

definition color_box :: "string \<Rightarrow> string" where
  "color_box c = tag ''span'' [(''class'', ''color-box''), (''style'', ''background-color: '' @ c)] []"

definition edge_line :: "string \<Rightarrow> edge_item \<Rightarrow> string" where
  "edge_line nodeId e =
     div_c ''connection-item''
       (color_box (j_color e)
        @ (if j_from e = nodeId then arrow_right @ '' '' @ j_to e else arrow_left @ '' '' @ j_from e)
        @ '' ('' @ fst (j_protocol e) @ '')'')"

definition summary_line :: "detail_edge \<Rightarrow> string" where
  "summary_line e =
     div_c ''connection-item''
       (color_box (or_else (de_color e) ''#888'')
        @ (if de_outbound e then arrow_right @ '' '' else arrow_left @ '' '') @ de_peer e
        @ '' ('' @ de_protocol e @ '') '' @ mid_dot @ '' '' @ show_nat (de_packetCount e) @ '' pkts'')"

definition summary_edges :: "vnode option \<Rightarrow> detail_edge list" where
  "summary_edges meta = (case meta of Some m \<Rightarrow> (case v_detailEdges m of Some es \<Rightarrow> es | None \<Rightarrow> []) | None \<Rightarrow> [])"

definition connections_html :: "edge_item list \<Rightarrow> vnode option \<Rightarrow> string \<Rightarrow> string" where
  "connections_html conns meta nodeId =
     (if conns \<noteq> [] then concat (map (edge_line nodeId) conns)
      else if summary_edges meta \<noteq> [] then concat (map summary_line (summary_edges meta))
      else div_c ''connection-item'' (tag ''em'' [] ''No active connections in view''))"

definition connection_count :: "edge_item list \<Rightarrow> vnode option \<Rightarrow> nat" where
  "connection_count conns meta =
     (if conns \<noteq> [] then length conns
      else if summary_edges meta \<noteq> [] then length (summary_edges meta)
      else (case meta of Some m \<Rightarrow> v_peers m | None \<Rightarrow> 0))"

definition node_details_html ::
    "override \<Rightarrow> string list \<Rightarrow> detail_view \<Rightarrow> edge_item list \<Rightarrow> vnode option \<Rightarrow> string \<Rightarrow> string" where
  "node_details_html ov expanded dv conns meta nodeId =
     (let node = dv_item dv
      in tag ''h4'' [] ''Node Details''
         @ only_if (i_hostname node \<noteq> [] \<and> i_hostname node \<noteq> nodeId) (detail_item ''Hostname'' (i_hostname node))
         @ mac_html dv @ vendor_html dv @ role_html node
         @ only_if (dv_deviceInfo dv \<noteq> []) (detail_item ''Link'' (dv_deviceInfo dv))
         @ div_c ''detail-item'' (ip_html dv nodeId)
         @ subnet_buttons_html expanded node
         @ customize_html ov node nodeId
         @ only_if (\<not> i_isSubnet node \<and> \<not> i_isGroup node)
             (div_c ''customize-buttons''
                (toggle_btn (call1 ''inspectNodePackets'' (esc_quote nodeId)) (utf8 [226, 151, 171] @ '' Recent packets'')))
         @ detail_item ''Total Packets'' (show_nat (i_packetCount node))
         @ detail_item ''Total Bytes'' (formatBytes (i_byteCount node))
         @ detail_item ''Active Connections'' (show_nat (connection_count conns meta))
         @ tag ''h5'' [] ''Connections:''
         @ div_c ''connections-list'' (connections_html conns meta nodeId))"

definition details_panel_active :: "'a dstate_scheme \<Rightarrow> bool" where
  "details_panel_active s = has_class ''detailsPanel'' ''active'' s"

definition wants_detail :: "node_item \<Rightarrow> vnode option \<Rightarrow> bool" where
  "wants_detail node meta =
     (case meta of Some m \<Rightarrow> \<not> v_detailLoaded m \<and> \<not> i_isSubnet node \<and> \<not> i_isGroup node | None \<Rightarrow> False)"

definition render_node_details :: "string \<Rightarrow> node_item \<Rightarrow> 'a dstate_scheme \<Rightarrow> 'a dstate_scheme" where
  "render_node_details nodeId node s =
     (let meta = map_of (nodeMeta s) nodeId;
          dv = merge_meta node meta;
          conns = filter (\<lambda>e. j_from e = nodeId \<or> j_to e = nodeId) (map snd (edges s));
          s = upd_el ''detailsPanel'' (add_class ''active'') s
      in upd_el ''detailsContent'' (el_html
           (if i_isSubnet node \<or> i_isTail node
            then subnet_details_html (expandedSubnets s) (dv_item dv) nodeId (length conns)
            else node_details_html (override_of nodeId s) (expandedSubnets s) dv conns meta nodeId)) s)"

text \<open>The synchronous part: the outcome says how the promise stands the continuation was chained to.\<close>

definition showNodeDetails :: "string \<Rightarrow> 'a dstate_scheme \<Rightarrow> detail_call option \<times> 'a dstate_scheme" where
  "showNodeDetails nodeId s =
     (if nodeId = [] then (None, s)
      else
        case map_of (nodes s) nodeId of
          None \<Rightarrow> (None, s)
        | Some node \<Rightarrow>
            let s = s\<lparr>detailsNodeId := Some nodeId\<rparr>;
                (call, s) = (if wants_detail node (map_of (nodeMeta s) nodeId)
                             then (let (c, t) = fetchNodeDetail nodeId s in (Some c, t)) else (None, s))
            in (call, render_node_details nodeId node s))"

text \<open>The callback chained to the promise runs \<^verbatim>\<open>showNodeDetails\<close> again under this condition.\<close>

definition rerenders :: "string \<Rightarrow> vnode option \<Rightarrow> 'a dstate_scheme \<Rightarrow> bool" where
  "rerenders nodeId m s = (m \<noteq> None \<and> detailsNodeId s = Some nodeId \<and> details_panel_active s)"

text \<open>
  One call with all the microtasks it queues: a settled promise runs its callback before the event
  loop turns, so before any network reply.  \<open>None\<close>: the microtasks never end.
\<close>

partial_function (option) details_turn :: "string \<Rightarrow> 'a dstate_scheme \<Rightarrow> 'a dstate_scheme option" where
  "details_turn nodeId s =
     (case showNodeDetails nodeId s of
        (Some (Settled m), s') \<Rightarrow> (if rerenders nodeId m s' then details_turn nodeId s' else Some s')
      | (_, s') \<Rightarrow> Some s')"

text \<open>The reply to the request the panel sent, with the microtasks that follow it.\<close>

definition details_reply ::
    "string \<Rightarrow> vnode option \<Rightarrow> node_detail reply \<Rightarrow> 'a dstate_scheme \<Rightarrow> 'a dstate_scheme option" where
  "details_reply nodeId meta r s =
     (let (m, s) = fetchNodeDetail_reply nodeId meta r s
      in if rerenders nodeId m s then details_turn nodeId s else Some s)"

definition inspectNodePackets_reply :: "packet reply \<Rightarrow> 'a dstate_scheme \<Rightarrow> 'a dstate_scheme" where
  "inspectNodePackets_reply r s =
     (case r of
        Body pkt \<Rightarrow> showPacketInspector pkt s
      | Refused _ \<Rightarrow> emit (Alert ''No recent packet buffered for this node'') s
      | Broken \<Rightarrow> emit (Warn ''packet fetch failed'') s)"

definition edge_details_html :: "edge_item \<Rightarrow> nat \<Rightarrow> nat \<Rightarrow> string" where
  "edge_details_html e pc bc =
     tag ''h4'' [] ''Connection Details''
     @ detail_item ''From'' (j_from e) @ detail_item ''To'' (j_to e)
     @ detail_item ''Protocol'' (color_box (j_color e) @ fst (j_protocol e))
     @ detail_item ''Packets'' (show_nat pc) @ detail_item ''Bytes'' (formatBytes bc)"

definition showEdgeDetails :: "string \<Rightarrow> 'a dstate_scheme \<Rightarrow> 'a dstate_scheme" where
  "showEdgeDetails edgeId s =
     (let s = s\<lparr>detailsNodeId := None\<rparr>
      in case map_of (edges s) edgeId of
           None \<Rightarrow> s
         | Some e \<Rightarrow>
             let (pc, bc) = (case map_of (edgeMeta s) edgeId of
                               Some m \<Rightarrow> (w_packetCount m, w_byteCount m)
                             | None \<Rightarrow> (j_packetCount e, j_byteCount e));
                 s = upd_el ''detailsPanel'' (add_class ''active'') s
             in upd_el ''detailsContent'' (el_html (edge_details_html e pc bc)) s)"

section \<open>The hover tooltip\<close>

definition tooltip_pos :: "real \<times> real \<Rightarrow> real \<times> real \<Rightarrow> real \<times> real \<Rightarrow> real \<times> real \<Rightarrow> real \<times> real" where
  "tooltip_pos origin domPos sz win =
     (let x = fst origin + fst domPos + 14;
          y = snd origin + snd domPos + 14
      in (if fst win - 8 < x + fst sz then max 8 (x - fst sz - 28) else x,
          if snd win - 8 < y + snd sz then max 8 (y - snd sz - 28) else y))"

definition showGraphTooltipAt :: "string \<Rightarrow> real \<times> real \<Rightarrow> 'a dstate_scheme \<Rightarrow> 'a dstate_scheme" where
  "showGraphTooltipAt text domPos s =
     (if \<not> has_el ''network'' s then s
      else
        s\<lparr>graphTooltip := Some (text,
            tooltip_pos (num_of ''network'' ''left'' s, num_of ''network'' ''top'' s) domPos (tooltipSize s text)
              (innerWidth s, innerHeight s))\<rparr>)"

definition hideGraphTooltip :: "'a dstate_scheme \<Rightarrow> 'a dstate_scheme" where
  "hideGraphTooltip s = s\<lparr>graphTooltip := None\<rparr>"

definition tooltip_over_node :: "vnode \<Rightarrow> string \<Rightarrow> 'a dstate_scheme \<Rightarrow> 'a dstate_scheme" where
  "tooltip_over_node m nodeId s =
     (case network s of
        None \<Rightarrow> s
      | Some r \<Rightarrow> showGraphTooltipAt (formatNodeTooltip m) (canvasToDOM r (getPosition r nodeId)) s)"

definition raw_meta :: "string \<Rightarrow> vnode" where
  "raw_meta k =
     \<lparr> v_id = k, v_label = k, v_pos = None, v_pinned = False, v_isGroup = False, v_isSubnet = False,
       v_isTail = False, v_hostCount = 0, v_role = [], v_value = 0, v_colorTier = 0, v_color = [],
       v_packetCount = 0, v_byteCount = 0, v_ips = Some [k], v_deviceInfo = [], v_detailLoaded = False,
       v_macs = None, v_primaryMac = [], v_vendor = [], v_deviceClass = [], v_peers = 0,
       v_detailEdges = None, v_tooltip = [] \<rparr>"

text \<open>The callback of a hover: refresh the tooltip while the node is still hovered.\<close>

definition hover_then :: "string \<Rightarrow> vnode option \<Rightarrow> 'a dstate_scheme \<Rightarrow> 'a dstate_scheme" where
  "hover_then nodeId m s =
     (case m of
        Some meta \<Rightarrow> if lastHoverNodeId s = Some nodeId then tooltip_over_node meta nodeId s else s
      | None \<Rightarrow> s)"

definition hover_enter :: "string \<Rightarrow> 'a dstate_scheme \<Rightarrow> 'a dstate_scheme" where
  "hover_enter nodeId s =
     (let s = (if focusPinned s then s else focusNode nodeId False s);
          s = s\<lparr>lastHoverNodeId := Some nodeId\<rparr>
      in if map_of (nodeMeta s) nodeId = None \<and> net_is rn_rawMode s
         then s\<lparr>nodeMeta := AList.update nodeId (raw_meta nodeId) (nodeMeta s)\<rparr> else s)"

definition hoverNode :: "string \<Rightarrow> 'a dstate_scheme \<Rightarrow> 'a dstate_scheme" where
  "hoverNode nodeId s =
     (let s = hover_enter nodeId s
      in case map_of (nodeMeta s) nodeId of
           None \<Rightarrow> s
         | Some meta \<Rightarrow>
             let s = tooltip_over_node meta nodeId s
             in if v_detailLoaded meta \<or> v_isSubnet meta then s
                else (case fetchNodeDetail nodeId s of
                        (Settled m, s) \<Rightarrow> hover_then nodeId m s
                      | (Fetching, s) \<Rightarrow> s))"

definition hover_reply ::
    "string \<Rightarrow> vnode option \<Rightarrow> node_detail reply \<Rightarrow> 'a dstate_scheme \<Rightarrow> 'a dstate_scheme" where
  "hover_reply nodeId meta r s =
     (let (m, s) = fetchNodeDetail_reply nodeId meta r s in hover_then nodeId m s)"

definition blurNode :: "'a dstate_scheme \<Rightarrow> 'a dstate_scheme" where
  "blurNode s =
     (let s = (if focusPinned s then s else clearFocus s)
      in hideGraphTooltip (s\<lparr>lastHoverNodeId := None\<rparr>))"

definition hoverEdge :: "string \<Rightarrow> 'a dstate_scheme \<Rightarrow> 'a dstate_scheme" where
  "hoverEdge edgeId s =
     (case (map_of (edgeMeta s) edgeId, network s) of
        (Some meta, Some r) \<Rightarrow>
          (case (getPositions r (w_from meta), getPositions r (w_to meta)) of
             (Some a, Some b) \<Rightarrow>
               showGraphTooltipAt (formatEdgeTooltip meta)
                 (canvasToDOM r ((fst a + fst b) / 2, (snd a + snd b) / 2)) s
           | _ \<Rightarrow> s)
      | _ \<Rightarrow> s)"

text \<open>A click, up to the microtasks of \<^verbatim>\<open>showNodeDetails\<close>, which run after the focus.\<close>

definition click_graph :: "string list \<Rightarrow> string list \<Rightarrow> 'a dstate_scheme \<Rightarrow> 'a dstate_scheme" where
  "click_graph ns es s =
     (case ns of
        n # _ \<Rightarrow> focusNode n True (snd (showNodeDetails n s))
      | [] \<Rightarrow> (case es of e # _ \<Rightarrow> showEdgeDetails e s | [] \<Rightarrow> clearFocus (hideDetails s)))"

definition zoomed :: "real option \<Rightarrow> 'a dstate_scheme \<Rightarrow> 'a dstate_scheme" where
  "zoomed scale s =
     (let s = hideGraphTooltip s;
          sc = (case scale of Some v \<Rightarrow> v
                | None \<Rightarrow> (case network s of Some r \<Rightarrow> cam_scale (rn_camera r) | None \<Rightarrow> 1))
      in reportZoomBand sc s)"

text \<open>A click on a node with the microtasks it queues; focusing happens before them.\<close>

definition click_turn :: "string \<Rightarrow> 'a dstate_scheme \<Rightarrow> 'a dstate_scheme option" where
  "click_turn nodeId s =
     (let (call, s') = showNodeDetails nodeId s; s' = focusNode nodeId True s'
      in case call of
           Some (Settled m) \<Rightarrow> if rerenders nodeId m s' then details_turn nodeId s' else Some s'
         | _ \<Rightarrow> Some s')"

section \<open>When the details panel settles\<close>

text \<open>What the panel's loop depends on.\<close>

definition panel_view :: "string \<Rightarrow> 'a dstate_scheme
    \<Rightarrow> (string \<times> node_item) list \<times> (string \<times> vnode) list \<times> string list \<times> string option \<times> bool \<times> bool" where
  "panel_view k s = (nodes s, nodeMeta s, nodeDetailPending s, detailsNodeId s, has_el ''detailsPanel'' s,
     details_panel_active s)"

lemma panel_view_fields:
  "panel_view k s' = panel_view k s \<Longrightarrow> nodes s' = nodes s \<and> nodeMeta s' = nodeMeta s
     \<and> nodeDetailPending s' = nodeDetailPending s \<and> detailsNodeId s' = detailsNodeId s
     \<and> has_el ''detailsPanel'' s' = has_el ''detailsPanel'' s \<and> details_panel_active s' = details_panel_active s"
  by (simp add: panel_view_def)

lemma panel_view_focus [simp]: "panel_view k (focusNode n p s) = panel_view k s"
  by (simp add: focusNode_def applyFocusDim_def panel_view_def with_net_def details_panel_active_def
      has_class_def has_el_def split: option.splits)

lemma render_panel:
  "nodes (render_node_details k n s) = nodes s" "nodeMeta (render_node_details k n s) = nodeMeta s"
  "nodeDetailPending (render_node_details k n s) = nodeDetailPending s"
  "detailsNodeId (render_node_details k n s) = detailsNodeId s" "log (render_node_details k n s) = log s"
  "has_el ''detailsPanel'' (render_node_details k n s) = has_el ''detailsPanel'' s"
  "details_panel_active (render_node_details k n s) = has_el ''detailsPanel'' s"
  by (auto simp: render_node_details_def Let_def upd_el_def details_panel_active_def has_class_def has_el_def
      add_class_def el_html_def split: option.splits)

text \<open>A fetch for the node is in flight while the panel wants its detail.\<close>

definition starved :: "string \<Rightarrow> 'a dstate_scheme \<Rightarrow> bool" where
  "starved k s \<longleftrightarrow> k \<noteq> [] \<and> has_el ''detailsPanel'' s \<and> k \<in> set (nodeDetailPending s)
     \<and> (\<exists>node. map_of (nodes s) k = Some node \<and> wants_detail node (map_of (nodeMeta s) k))"

lemma starved_frame: "panel_view k s' = panel_view k s \<Longrightarrow> starved k s' = starved k s"
  by (simp add: panel_view_def starved_def)

lemma starved_step:
  assumes "starved k s"
  shows "\<exists>m s'. showNodeDetails k s = (Some (Settled (Some m)), s') \<and> starved k s'
    \<and> rerenders k (Some m) s' \<and> log s' = log s"
proof -
  obtain node where n: "map_of (nodes s) k = Some node" "wants_detail node (map_of (nodeMeta s) k)"
    and k: "k \<noteq> []" "has_el ''detailsPanel'' s" "k \<in> set (nodeDetailPending s)"
    using assms by (auto simp: starved_def)
  obtain m where m: "map_of (nodeMeta s) k = Some m" "\<not> v_detailLoaded m"
    using n(2) by (auto simp: wants_detail_def split: option.splits)
  let ?s = "render_node_details k node (s\<lparr>detailsNodeId := Some k\<rparr>)"
  have h: "has_el ''detailsPanel'' (s\<lparr>detailsNodeId := Some k\<rparr>)" using k by (simp add: has_el_def)
  have "showNodeDetails k s = (Some (Settled (Some m)), ?s)"
    using n m k by (simp add: showNodeDetails_def fetchNodeDetail_def Let_def)
  moreover have "starved k ?s" "rerenders k (Some m) ?s" "log ?s = log s"
    using n k h by (simp_all add: starved_def render_panel rerenders_def)
  ultimately show ?thesis by blast
qed

lemma details_turn_starved: "starved k s \<Longrightarrow> details_turn k s = None"
proof (rule ccontr)
  assume "starved k s" and "details_turn k s \<noteq> None"
  then obtain y where "details_turn k s = Some y" by blast
  then have "\<not> starved k s"
  proof (rule details_turn.raw_induct [where P = "\<lambda>k s y. \<not> starved k s", rotated])
    fix dt :: "string \<Rightarrow> 'a dstate_scheme \<Rightarrow> 'a dstate_scheme option" and k and s y :: "'a dstate_scheme"
    assume IH: "\<And>k s y. dt k s = Some y \<Longrightarrow> \<not> starved k s"
      and eq: "(case showNodeDetails k s of
        (None, s') \<Rightarrow> Some s' | (Some (Settled m), s') \<Rightarrow> (if rerenders k m s' then dt k s' else Some s')
        | (Some Fetching, s') \<Rightarrow> Some s') = Some y"
    show "\<not> starved k s"
    proof
      assume st: "starved k s"
      obtain m s' where "showNodeDetails k s = (Some (Settled (Some m)), s')" "starved k s'" "rerenders k (Some m) s'"
        using starved_step [OF st] by blast
      then show False using eq IH [of k s'] by auto
    qed
  qed
  then show False using \<open>starved k s\<close> by blast
qed

lemma wants_hovered:
  "wants_detail node meta \<Longrightarrow> \<exists>m. meta = Some m \<and> \<not> v_detailLoaded m"
  by (auto simp: wants_detail_def split: option.splits)

lemma panel_view_tooltip [simp]:
  "panel_view k (tooltip_over_node m n s) = panel_view k s" "panel_view k (hover_then n mo s) = panel_view k s"
  "panel_view k (s\<lparr>lastHoverNodeId := h\<rparr>) = panel_view k s"
proof -
  show t: "panel_view k (tooltip_over_node m n s) = panel_view k s" for m
    by (simp add: tooltip_over_node_def showGraphTooltipAt_def panel_view_def details_panel_active_def
        has_class_def has_el_def split: option.splits)
  then show "panel_view k (hover_then n mo s) = panel_view k s" by (simp add: hover_then_def split: option.splits)
  show "panel_view k (s\<lparr>lastHoverNodeId := h\<rparr>) = panel_view k s"
    by (simp add: panel_view_def details_panel_active_def has_class_def has_el_def)
qed

lemma panel_view_enter: "map_of (nodeMeta s) k = Some m \<Longrightarrow> panel_view k (hover_enter k s) = panel_view k s"
  using panel_view_fields [OF panel_view_focus [of k k False s]] by (simp add: hover_enter_def Let_def)

lemma hover_starts_fetch:
  assumes "k \<noteq> []" and "has_el ''detailsPanel'' s" and "map_of (nodes s) k = Some node"
    and "map_of (nodeMeta s) k = Some m" and "wants_detail node (Some m)" and "\<not> v_isSubnet m"
  shows "starved k (hoverNode k s)"
proof -
  define s1 where "s1 = hover_enter k s"
  define s2 where "s2 = tooltip_over_node m k s1"
  have v1: "panel_view k s1 = panel_view k s" unfolding s1_def using assms(4) by (rule panel_view_enter)
  have v: "panel_view k s2 = panel_view k s" by (simp add: s2_def v1)
  note f = panel_view_fields [OF v]
  have m: "\<not> v_detailLoaded m" using assms(5) by (simp add: wants_detail_def)
  have n1: "nodeMeta s1 = nodeMeta s" using panel_view_fields [OF v1] by simp
  have h: "hoverNode k s = (case fetchNodeDetail k s2 of (Settled mo, t) \<Rightarrow> hover_then k mo t | (Fetching, t) \<Rightarrow> t)"
    using assms(4,6) m n1 by (simp add: hoverNode_def s1_def [symmetric] s2_def Let_def)
  show ?thesis
  proof (cases "k \<in> set (nodeDetailPending s)")
    case True
    have "fetchNodeDetail k s2 = (Settled (Some m), s2)" using True f assms(4) m by (simp add: fetchNodeDetail_def)
    then have "panel_view k (hoverNode k s) = panel_view k s" by (simp add: h v)
    moreover have "starved k s" using assms True by (simp add: starved_def)
    ultimately show ?thesis using starved_frame by blast
  next
    case False
    have "fetchNodeDetail k s2 = (Fetching, emit (Ask (GetNode k)) (s2\<lparr>nodeDetailPending := set_add k (nodeDetailPending s2)\<rparr>))"
      using False f assms(4) m by (simp add: fetchNodeDetail_def)
    then show ?thesis using f assms by (simp add: h starved_def emit_def has_el_def)
  qed
qed

text \<open>
  C17: hovering a node starts its detail request; clicking it before the reply arrives never returns:
  the panel re-renders itself from microtasks that settle at once, and the reply they wait for cannot
  be delivered while they run.
\<close>

theorem hover_then_click_hangs:
  assumes "k \<noteq> []" and "has_el ''detailsPanel'' s" and "map_of (nodes s) k = Some node"
    and "map_of (nodeMeta s) k = Some m" and "wants_detail node (Some m)" and "\<not> v_isSubnet m"
  shows "click_turn k (hoverNode k s) = None"
proof -
  have st: "starved k (hoverNode k s)" using assms by (rule hover_starts_fetch)
  obtain mo s' where s': "showNodeDetails k (hoverNode k s) = (Some (Settled (Some mo)), s')" "starved k s'"
    "rerenders k (Some mo) s'"
    using starved_step [OF st] by blast
  have f: "panel_view k (focusNode k True s') = panel_view k s'" by simp
  have "starved k (focusNode k True s')" "rerenders k (Some mo) (focusNode k True s')"
    using s' starved_frame [OF f] panel_view_fields [OF f] by (simp_all add: rerenders_def)
  then show ?thesis using details_turn_starved by (simp add: click_turn_def s'(1) Let_def)
qed

lemma details_turn_asks:
  assumes "k \<noteq> []" and "map_of (nodes s) k = Some node" and "map_of (nodeMeta s) k = Some m"
    and "wants_detail node (Some m)" and "k \<notin> set (nodeDetailPending s)"
  shows "\<exists>s1. details_turn k s = Some s1 \<and> nodes s1 = nodes s \<and> nodeMeta s1 = nodeMeta s
    \<and> nodeDetailPending s1 = set_add k (nodeDetailPending s) \<and> log s1 = log s @ [Ask (GetNode k)]
    \<and> detailsNodeId s1 = Some k \<and> details_panel_active s1 = has_el ''detailsPanel'' s
    \<and> has_el ''detailsPanel'' s1 = has_el ''detailsPanel'' s"
proof -
  let ?t = "emit (Ask (GetNode k)) (s\<lparr>detailsNodeId := Some k, nodeDetailPending := set_add k (nodeDetailPending s)\<rparr>)"
  have "\<not> v_detailLoaded m" using assms(4) by (simp add: wants_detail_def)
  then have "showNodeDetails k s = (Some Fetching, render_node_details k node ?t)"
    using assms by (simp add: showNodeDetails_def fetchNodeDetail_def Let_def)
  then have "details_turn k s = Some (render_node_details k node ?t)" by (simp add: details_turn.simps)
  moreover have "has_el ''detailsPanel'' ?t = has_el ''detailsPanel'' s" by (simp add: has_el_def emit_def)
  ultimately show ?thesis by (simp add: render_panel emit_def)
qed

text \<open>
  C18: opening the panel of a node whose detail is missing asks for it once, and the reply settles the
  panel: the detail is merged, nothing is in flight any more and nothing more is asked.
\<close>

theorem details_settle:
  assumes "k \<noteq> []" and "map_of (nodes s) k = Some node" and "map_of (nodeMeta s) k = Some m"
    and "wants_detail node (Some m)" and "k \<notin> set (nodeDetailPending s)"
  shows "\<exists>s1 s2. details_turn k s = Some s1 \<and> log s1 = log s @ [Ask (GetNode k)]
    \<and> details_reply k (Some m) (Body d) s1 = Some s2 \<and> log s2 = log s1
    \<and> map_of (nodeMeta s2) k = Some (merge_detail d m) \<and> k \<notin> set (nodeDetailPending s2)"
proof -
  obtain s1 where s1: "details_turn k s = Some s1" "nodes s1 = nodes s" "nodeMeta s1 = nodeMeta s"
    "nodeDetailPending s1 = set_add k (nodeDetailPending s)" "log s1 = log s @ [Ask (GetNode k)]"
    using details_turn_asks [OF assms] by blast
  define t where "t = s1\<lparr>nodeDetailPending := set_del k (nodeDetailPending s1),
    nodeMeta := AList.update k (merge_detail d m) (nodeMeta s1)\<rparr>"
  have r: "fetchNodeDetail_reply k (Some m) (Body d) s1 = (Some (merge_detail d m), t)"
    using assms(3) s1(3) by (simp add: fetchNodeDetail_reply_def t_def Let_def)
  have loaded: "v_detailLoaded (merge_detail d m)" by (simp add: merge_detail_def)
  have t: "map_of (nodeMeta t) k = Some (merge_detail d m)" "map_of (nodes t) k = Some node" "log t = log s1"
    "k \<notin> set (nodeDetailPending t)"
    using assms(2) s1(2) by (simp_all add: t_def)
  have "\<not> wants_detail node (Some (merge_detail d m))" using loaded by (simp add: wants_detail_def)
  then have "showNodeDetails k t = (None, render_node_details k node (t\<lparr>detailsNodeId := Some k\<rparr>))"
    using assms(1) t by (simp add: showNodeDetails_def Let_def)
  then have "details_turn k t = Some (render_node_details k node (t\<lparr>detailsNodeId := Some k\<rparr>))"
    by (simp add: details_turn.simps)
  then show ?thesis using s1 r t by (auto simp: details_reply_def render_panel)
qed

text \<open>
  Lemma: a node the server refuses is asked for again at once, for as long as its panel stays open.
\<close>

theorem refused_detail_asked_again:
  assumes "k \<noteq> []" and "has_el ''detailsPanel'' s" and "map_of (nodes s) k = Some node"
    and "map_of (nodeMeta s) k = Some m" and "wants_detail node (Some m)" and "distinct (nodeDetailPending s)"
    and "detailsNodeId s = Some k" and "details_panel_active s"
  shows "\<exists>s'. details_reply k (Some m) (Refused code) s = Some s' \<and> log s' = log s @ [Ask (GetNode k)]
    \<and> k \<in> set (nodeDetailPending s') \<and> detailsNodeId s' = Some k \<and> details_panel_active s'"
proof -
  define t where "t = s\<lparr>nodeDetailPending := set_del k (nodeDetailPending s)\<rparr>"
  have t: "map_of (nodes t) k = Some node" "map_of (nodeMeta t) k = Some m" "k \<notin> set (nodeDetailPending t)"
    "log t = log s" "detailsNodeId t = Some k" "details_panel_active t" "has_el ''detailsPanel'' t"
    using assms by (simp_all add: t_def details_panel_active_def has_class_def has_el_def)
  obtain s1 where "details_turn k t = Some s1" "log s1 = log t @ [Ask (GetNode k)]"
    "nodeDetailPending s1 = set_add k (nodeDetailPending t)" "detailsNodeId s1 = Some k" "details_panel_active s1"
    using details_turn_asks [OF assms(1) t(1,2) assms(5) t(3)] t(7) by auto
  moreover have "details_reply k (Some m) (Refused code) s = details_turn k t"
    using t by (simp add: details_reply_def fetchNodeDetail_reply_def rerenders_def t_def [symmetric] Let_def)
  ultimately show ?thesis using t(4) by auto
qed

section \<open>Expansion and focus\<close>

datatype agg_op = Expand string | ExpandAll string | Collapse string | Focus string | FocusExit | BandTimer

fun agg_step :: "agg_op \<Rightarrow> 'a dstate_scheme \<Rightarrow> 'a dstate_scheme" where
  "agg_step (Expand c) s = handleSubnetExpand c s"
| "agg_step (ExpandAll c) s = handleSubnetExpandAll c s"
| "agg_step (Collapse c) s = handleSubnetCollapse c s"
| "agg_step (Focus c) s = handleClusterFocus c s"
| "agg_step FocusExit s = handleClusterFocusExit s"
| "agg_step BandTimer s = zoomBandTimer_fires s"

text \<open>Fully expanded subnets and the focused cluster are expanded; the badge shows the focus.\<close>

definition agg_ok :: "'a dstate_scheme \<Rightarrow> bool" where
  "agg_ok s \<longleftrightarrow> set (fullExpandSubnets s) \<subseteq> set (expandedSubnets s)
     \<and> (focusClusterCIDR s \<noteq> [] \<longrightarrow> focusClusterCIDR s \<in> set (expandedSubnets s))"

definition agg_msg :: "'a dstate_scheme \<Rightarrow> ctrl" where
  "agg_msg s = SetAggregation (aggThreshold s) (expandedSubnets s) (fullExpandSubnets s) (focusClusterCIDR s)
     (currentZoomBand s)"

definition badge_ok :: "'a dstate_scheme \<Rightarrow> bool" where
  "badge_ok s \<longleftrightarrow> has_el ''focusClusterBadge'' s = (focusClusterCIDR s \<noteq> [])"

definition agg_vars :: "'a dstate_scheme \<Rightarrow> int \<times> string list \<times> string list \<times> string \<times> string \<times> bool" where
  "agg_vars s = (aggThreshold s, expandedSubnets s, fullExpandSubnets s, focusClusterCIDR s, currentZoomBand s, ws_open s)"

lemma agg_vars_page [simp]:
  "agg_vars (emit ev s) = agg_vars s" "agg_vars (upd_el k f s) = agg_vars s" "agg_vars (create_el k e s) = agg_vars s"
  "agg_vars (remove_el k s) = agg_vars s" "agg_vars (s\<lparr>detailsNodeId := d\<rparr>) = agg_vars s"
  by (simp_all add: agg_vars_def page_defs)

lemma agg_vars_send [simp]: "agg_vars (sendAggregation s) = agg_vars s" "agg_vars (hideDetails s) = agg_vars s"
  by (simp_all add: sendAggregation_def updateFocusClusterBadge_def sendControl_def hideDetails_def Let_def)

lemma agg_msg_vars: "agg_vars s' = agg_vars s \<Longrightarrow> agg_msg s' = agg_msg s \<and> agg_ok s' = agg_ok s \<and> ws_open s' = ws_open s
    \<and> focusClusterCIDR s' = focusClusterCIDR s"
  by (simp add: agg_vars_def agg_msg_def agg_ok_def)

lemma sendAggregation_sends:
  "ws_open s \<Longrightarrow> sent (sendAggregation s) = sent s @ [agg_msg s]" "badge_ok (sendAggregation s)"
proof -
  show "ws_open s \<Longrightarrow> sent (sendAggregation s) = sent s @ [agg_msg s]"
    by (simp add: sendAggregation_def updateFocusClusterBadge_def sendControl_def Let_def agg_msg_def)
  have "focusClusterCIDR (sendControl m s) = focusClusterCIDR s" for m by (simp add: sendControl_def emit_def)
  then show "badge_ok (sendAggregation s)"
    by (simp add: sendAggregation_def updateFocusClusterBadge_def badge_ok_def Let_def page_defs has_el_def)
qed

lemma hideDetails_page: "sent (hideDetails s) = sent s" "badge_ok (hideDetails s) = badge_ok s"
  by (simp_all add: hideDetails_def Let_def badge_ok_def) (simp_all add: sent_def page_defs has_el_def)

lemma agg_step_sends:
  assumes "agg_ok s" and "ws_open s"
  shows "agg_ok (agg_step op s) \<and> ws_open (agg_step op s) \<and> badge_ok (agg_step op s)
    \<and> sent (agg_step op s) = sent s @ [agg_msg (agg_step op s)]"
proof -
  have go: "agg_ok t' \<and> ws_open t' \<and> badge_ok t' \<and> sent t' = sent s @ [agg_msg t']"
    if t: "agg_ok t" "ws_open t" "sent t = sent s" and t': "t' = sendAggregation t \<or> t' = hideDetails (sendAggregation t)"
    for t t' :: "'a dstate_scheme"
  proof -
    have v: "agg_vars t' = agg_vars t" using t' by auto
    show ?thesis using t t' agg_msg_vars [OF v] sendAggregation_sends [of t] hideDetails_page [of "sendAggregation t"] by auto
  qed
  show ?thesis
  proof (cases op)
    case (Expand c)
    show ?thesis using assms
      by (intro go [where t = "s\<lparr>expandedSubnets := set_add (strip_plus c) (expandedSubnets s)\<rparr>"])
        (auto simp: Expand handleSubnetExpand_def agg_ok_def sent_def)
  next
    case (ExpandAll c)
    show ?thesis using assms
      by (intro go [where t = "s\<lparr>expandedSubnets := set_add (strip_plus c) (expandedSubnets s),
            fullExpandSubnets := set_add (strip_plus c) (fullExpandSubnets s)\<rparr>"])
        (auto simp: ExpandAll handleSubnetExpandAll_def agg_ok_def sent_def Let_def)
  next
    case (Collapse c)
    let ?s = "s\<lparr>expandedSubnets := set_del (strip_plus c) (expandedSubnets s),
      fullExpandSubnets := set_del (strip_plus c) (fullExpandSubnets s)\<rparr>"
    show ?thesis using assms
      by (intro go [where t = "if focusClusterCIDR s = strip_plus c \<or> focusClusterCIDR s = strip_plus c @ ''+''
            then ?s\<lparr>focusClusterCIDR := []\<rparr> else ?s"])
        (auto simp: Collapse handleSubnetCollapse_def agg_ok_def sent_def Let_def)
  next
    case (Focus c)
    show ?thesis using assms
      by (intro go [where t = "s\<lparr>focusClusterCIDR := strip_plus c,
            expandedSubnets := set_add (strip_plus c) (expandedSubnets s)\<rparr>"])
        (auto simp: Focus handleClusterFocus_def agg_ok_def sent_def Let_def)
  next
    case FocusExit
    show ?thesis using assms
      by (intro go [where t = "s\<lparr>focusClusterCIDR := []\<rparr>"])
        (auto simp: FocusExit handleClusterFocusExit_def agg_ok_def sent_def)
  next
    case BandTimer
    show ?thesis using assms
      by (intro go [where t = "s\<lparr>zoomBandTimerSet := False\<rparr>"])
        (auto simp: BandTimer zoomBandTimer_fires_def agg_ok_def sent_def)
  qed
qed


section \<open>Tooltip and overrides\<close>

text \<open>
  Lemma: a tooltip that fits the window with its margins is displayed inside it, wherever the pointer is.
\<close>

theorem tooltip_on_screen:
  assumes "0 \<le> fst o' + fst p" and "fst o' + fst p \<le> fst win" and "0 \<le> snd o' + snd p" and "snd o' + snd p \<le> snd win"
    and "fst sz \<le> fst win - 16" and "snd sz \<le> snd win - 16"
  shows "8 \<le> fst (tooltip_pos o' p sz win) \<and> fst (tooltip_pos o' p sz win) + fst sz \<le> fst win - 8
    \<and> 8 \<le> snd (tooltip_pos o' p sz win) \<and> snd (tooltip_pos o' p sz win) + snd sz \<le> snd win - 8"
  using assms by (auto simp: tooltip_pos_def Let_def max_def)

lemma patch_override_get:
  "distinct (map fst patch) \<Longrightarrow> map_of (patch_override patch cur) k = (case map_of patch k of
     None \<Rightarrow> map_of cur k | Some v \<Rightarrow> if drops v then None else Some v)"
proof (induction patch arbitrary: cur)
  case (Cons e patch)
  have n: "map_of patch (fst e) = None" using Cons.prems by (simp add: map_of_eq_None_iff)
  have "map_of (patch_override (e # patch) cur) k = map_of (patch_override patch
      (if drops (snd e) then AList.delete (fst e) cur else AList.update (fst e) (snd e) cur)) k"
    by (simp add: patch_override_def split: prod.splits)
  then show ?case using Cons.IH Cons.prems n by (cases e) (auto simp: delete_conv' update_conv' split: option.splits)
qed (simp add: patch_override_def)

text \<open>
  Lemma: pinning a node stores its position on screen and unpinning removes it again; no other
  customization of the node is touched, and each edit posts the override as it now stands.
\<close>

theorem pin_toggle_roundtrip:
  assumes "network s = Some r" and "\<not> is_pinned (override_of k s)"
  defines "s1 \<equiv> handlePinToggle k s"
  defines "s2 \<equiv> handlePinToggle k s1"
  shows "map_of (override_of k s1) = (map_of (override_of k s))(''pinnedX'' \<mapsto> JNum (fst (getPosition r k)),
      ''pinnedY'' \<mapsto> JNum (snd (getPosition r k)))
    \<and> map_of (override_of k s2) = (map_of (override_of k s))(''pinnedX'' := None, ''pinnedY'' := None)
    \<and> log s2 = log s @ [Ask (PostOverride k (override_of k s1)), Ask (PostOverride k (override_of k s2))]"
proof -
  have e: "override_of k (applyOverrideEdit k patch t) = patch_override patch (override_of k t)"
    "log (applyOverrideEdit k patch t) = log t @ [Ask (PostOverride k (patch_override patch (override_of k t)))]"
    for patch and t :: "'a gstate_scheme"
    by (simp_all add: applyOverrideEdit_def override_of_def Let_def emit_def)
  have s1: "s1 = applyOverrideEdit k [(''pinnedX'', JNum (fst (getPosition r k))), (''pinnedY'', JNum (snd (getPosition r k)))] s"
    using assms(1,2) by (simp add: s1_def handlePinToggle_def Let_def)
  have o1: "map_of (override_of k s1) = (map_of (override_of k s))(''pinnedX'' \<mapsto> JNum (fst (getPosition r k)),
      ''pinnedY'' \<mapsto> JNum (snd (getPosition r k)))"
    by (rule ext) (simp add: s1 e patch_override_get drops_def)
  then have "is_pinned (override_of k s1)" by (simp add: is_pinned_def)
  then have s2: "s2 = applyOverrideEdit k [(''pinnedX'', JNull), (''pinnedY'', JNull)] s1"
    by (simp add: s2_def handlePinToggle_def)
  have "map_of (override_of k s2) = (map_of (override_of k s))(''pinnedX'' := None, ''pinnedY'' := None)"
    by (rule ext) (simp add: s2 e patch_override_get drops_def o1)
  then show ?thesis using o1 by (simp add: s2 s1 e)
qed

section \<open>Examples\<close>

definition sample_dstate :: dstate where
  "sample_dstate = wstate.extend sample_wstate
     (dstate.fields [] [] [] [] False 0 None (\<lambda>_. (100, 50)))"

lemma sample_dstate_fields [simp]:
  "network sample_dstate = Some sample_renderer" "nodes sample_dstate = []" "edges sample_dstate = []"
  "nodeMeta sample_dstate = []" "nodeDetailPending sample_dstate = []" "nodeOverrides sample_dstate = []"
  "expandedSubnets sample_dstate = []" "fullExpandSubnets sample_dstate = []" "focusClusterCIDR sample_dstate = []"
  by (simp_all add: sample_dstate_def wstate.extend_def sample_wstate_def gstate.extend_def sample_gstate_def
      gstate.defs pstate.extend_def wstate.defs dstate.defs)

text \<open>A page with the details panel and one host on it.\<close>

definition sample_panel :: dstate where
  "sample_panel = sample_dstate\<lparr>dom := [''detailsPanel'' \<mapsto> fresh_elem],
     nodes := [(''h'', build_node_item ''traffic'' False None (sample_vnode ''h''))],
     nodeMeta := [(''h'', sample_vnode ''h'')]\<rparr>"

lemma sample_panel_facts:
  "has_el ''detailsPanel'' sample_panel" "map_of (nodes sample_panel) ''h'' = Some (build_node_item ''traffic'' False None (sample_vnode ''h''))"
  "map_of (nodeMeta sample_panel) ''h'' = Some (sample_vnode ''h'')" "nodeDetailPending sample_panel = []"
  "wants_detail (build_node_item ''traffic'' False None (sample_vnode ''h'')) (Some (sample_vnode ''h''))"
  "\<not> v_isSubnet (sample_vnode ''h'')"
  by (simp_all add: sample_panel_def has_el_def wants_detail_def build_node_item_def sample_vnode_def)

theorem hover_then_click_hangs_witness: "click_turn ''h'' (hoverNode ''h'' sample_panel) = None"
  by (rule hover_then_click_hangs [OF _ sample_panel_facts(1,2,3,5,6)]) simp

definition sample_detail :: node_detail where
  "sample_detail = \<lparr> nd_ips = Some [''10.0.0.1''], nd_macs = [''aa''], nd_primaryMac = [], nd_deviceInfo = [],
     nd_vendor = ''ACME'', nd_deviceClass = [], nd_role = ''server'', nd_peers = 2, nd_edges = None, nd_tooltip = [] \<rparr>"

theorem details_settle_witness:
  "\<exists>s1 s2. details_turn ''h'' sample_panel = Some s1 \<and> details_reply ''h'' (Some (sample_vnode ''h'')) (Body sample_detail) s1 = Some s2"
  using details_settle [OF _ sample_panel_facts(2,3,5), of sample_detail] by (auto simp: sample_panel_facts)

theorem refused_detail_asked_again_witness:
  "\<exists>s'. details_reply ''h'' (Some (sample_vnode ''h'')) (Refused 404)
     (sample_panel\<lparr>dom := [''detailsPanel'' \<mapsto> add_class ''active'' fresh_elem], detailsNodeId := Some ''h'',
        nodeDetailPending := [''h'']\<rparr>) = Some s' \<and> ''h'' \<in> set (nodeDetailPending s')"
proof -
  let ?s = "sample_panel\<lparr>dom := [''detailsPanel'' \<mapsto> add_class ''active'' fresh_elem], detailsNodeId := Some ''h'',
        nodeDetailPending := [''h'']\<rparr>"
  have "has_el ''detailsPanel'' ?s" "details_panel_active ?s" "map_of (nodes ?s) ''h'' = map_of (nodes sample_panel) ''h''"
    "map_of (nodeMeta ?s) ''h'' = map_of (nodeMeta sample_panel) ''h''"
    by (simp_all add: has_el_def details_panel_active_def has_class_def add_class_def)
  then show ?thesis using refused_detail_asked_again [of "''h''" ?s _ "sample_vnode ''h''" 404] sample_panel_facts by auto
qed


theorem tooltip_on_screen_witness: "8 \<le> fst (tooltip_pos (0, 0) (790, 10) (100, 50) (800, 600))"
  using tooltip_on_screen [of "(0, 0)" "(790, 10)" "(800, 600)" "(100, 50)"] by simp

theorem pin_toggle_roundtrip_witness:
  "map_of (override_of ''h'' (handlePinToggle ''h'' (handlePinToggle ''h'' sample_dstate))) ''pinnedX'' = None"
  using pin_toggle_roundtrip [of sample_dstate sample_renderer "''h''"]
  by (simp add: is_pinned_def override_of_def)

end
