(* ===== verification/Session.thy ===== *)
theory Session
  imports Details
begin

text \<open>
  The session with the server (\<^verbatim>\<open>static/app.js\<close>): the WebSocket and its reconnects, the
  history timeline, replay of a capture file, and the layout and connection status of the page.
  Sockets are numbered in the order they are opened; a request is numbered by the counter of its
  guard, and its reply is a step of its own.
\<close>

section \<open>Guards against stale replies\<close>

text \<open>
  The pattern \<^verbatim>\<open>const id = ++counter; ... if (id !== counter) return;\<close>: \<open>issue\<close> sends a
  request and \<open>deliver n r\<close> handles the reply to request number \<open>n\<close>.
\<close>

locale seq_guard =
  fixes cnt :: "'s \<Rightarrow> nat" and issue :: "'q \<Rightarrow> 's \<Rightarrow> 's" and deliver :: "nat \<Rightarrow> 'r \<Rightarrow> 's \<Rightarrow> 's"
    and can :: "'s \<Rightarrow> bool" and good :: "'r \<Rightarrow> bool"
  assumes issued: "can s \<Longrightarrow> cnt (issue q s) = Suc (cnt s)"
    and stale: "good r \<Longrightarrow> n \<noteq> cnt s \<Longrightarrow> deliver n r s = s"
begin

lemma late_reply_ignored: "can s \<Longrightarrow> good r \<Longrightarrow> n \<le> cnt s \<Longrightarrow> deliver n r (issue q s) = issue q s"
  by (rule stale) (simp_all add: issued)

lemma late_replies_ignored:
  "can s \<Longrightarrow> \<forall>(n, r) \<in> set rs. good r \<and> n \<le> cnt s \<Longrightarrow> fold (\<lambda>(n, r). deliver n r) rs (issue q s) = issue q s"
proof (induction rs)
  case (Cons p rs)
  obtain n r where "p = (n, r)" by fastforce
  then show ?case using Cons late_reply_ignored by simp
qed simp

end

section \<open>State\<close>

record timeline_state =
  tl_active :: bool
  tl_captureId :: nat
  tl_first :: int
  tl_last :: int
  tl_t :: int
  tl_window :: nat
  tl_step :: nat
  tl_points :: "(int \<times> nat) list"
  tl_playing :: bool
  tl_playTimer :: "int option"       \<comment> \<open>the running interval, with the advance it closes over\<close>
  tl_lastSent :: real
  tl_sendTimer :: bool

definition initial_timeline :: timeline_state where
  "initial_timeline = \<lparr> tl_active = False, tl_captureId = 0, tl_first = 0, tl_last = 0, tl_t = 0, tl_window = 60,
     tl_step = 1, tl_points = [], tl_playing = False, tl_playTimer = None, tl_lastSent = 0, tl_sendTimer = False \<rparr>"

record sstate = dstate +
  tl :: timeline_state
  replayFetchTimerSet :: bool
  replayRequestSeq :: nat
  replayLastFetch :: real
  ws_current :: "nat option"        \<comment> \<open>the socket in the variable \<^verbatim>\<open>ws\<close>\<close>
  ws_next :: nat
  ws_live :: "nat list"             \<comment> \<open>sockets that deliver messages\<close>
  loc_https :: bool
  loc_host :: string
  loc_scale :: string               \<comment> \<open>query parameter \<^verbatim>\<open>scale\<close>\<close>
  localeDate :: "real \<Rightarrow> string"     \<comment> \<open>\<^verbatim>\<open>toLocaleDateString\<close> of the browser\<close>

section \<open>Layout and connection status\<close>

definition sendLayout :: "string \<Rightarrow> 'a gstate_scheme \<Rightarrow> 'a gstate_scheme" where
  "sendLayout mode s =
     (let s = s\<lparr>currentClusterLayout := mode\<rparr>;
          s = (if mode \<noteq> ''subnet'' then with_net redraw (s\<lparr>subnetIslands := []\<rparr>) else s)
      in sendControl (SetLayout mode) s)"

definition status_class :: "string \<Rightarrow> bool \<Rightarrow> string" where
  "status_class status conn =
     (if status = ''Connecting...'' \<or> status = ''Connecting'' then ''status-connecting''
      else if conn then ''status-connected'' else ''status-disconnected'')"

definition set_status :: "string \<Rightarrow> bool \<Rightarrow> elem \<Rightarrow> elem" where
  "set_status status conn e =
     (el_text status e)\<lparr>e_classes := {''stat-value'', if conn then ''connected'' else ''disconnected''}\<rparr>"

definition updateConnectionStatus :: "string \<Rightarrow> bool \<Rightarrow> 'a world_scheme \<Rightarrow> 'a world_scheme" where
  "updateConnectionStatus status conn s =
     (let s = upd_el ''connectionStatus'' (set_status status conn) s
      in upd_el ''statsIcon''
           (\<lambda>e. add_class (status_class status conn)
              (remove_class ''status-disconnected'' (remove_class ''status-connected''
                 (remove_class ''status-connecting'' e)))) s)"

section \<open>The history timeline\<close>

definition upd_tl :: "(timeline_state \<Rightarrow> timeline_state) \<Rightarrow> 'a sstate_scheme \<Rightarrow> 'a sstate_scheme" where
  "upd_tl f s = s\<lparr>tl := f (tl s)\<rparr>"

definition tl_msg :: "timeline_state \<Rightarrow> ctrl" where
  "tl_msg t = SetTimeline (tl_captureId t) (tl_t t) (tl_window t)"

definition tl_send :: "'a sstate_scheme \<Rightarrow> 'a sstate_scheme" where
  "tl_send s = sendControl (tl_msg (tl s)) (upd_tl (\<lambda>t. t\<lparr>tl_lastSent := now s\<rparr>) s)"

definition sendTimelinePosition :: "bool \<Rightarrow> 'a sstate_scheme \<Rightarrow> 'a sstate_scheme" where
  "sendTimelinePosition immediate s =
     (let elapsed = now s - tl_lastSent (tl s);
          s = (if tl_sendTimer (tl s) then emit (Cancel TimelineSend) (upd_tl (\<lambda>t. t\<lparr>tl_sendTimer := False\<rparr>) s) else s)
      in if immediate \<or> 150 \<le> elapsed then tl_send s
         else emit (After TimelineSend (150 - elapsed)) (upd_tl (\<lambda>t. t\<lparr>tl_sendTimer := True\<rparr>) s))"

definition timelineSend_fires :: "'a sstate_scheme \<Rightarrow> 'a sstate_scheme" where
  "timelineSend_fires s = tl_send (upd_tl (\<lambda>t. t\<lparr>tl_sendTimer := False\<rparr>) s)"

definition setTimelinePlayIcon :: "bool \<Rightarrow> 'a world_scheme \<Rightarrow> 'a world_scheme" where
  "setTimelinePlayIcon playing s =
     (let s = upd_el ''timelinePlayIcon'' (el_style ''display'' (if playing then ''none'' else [])) s
      in upd_el ''timelinePauseIcon'' (el_style ''display'' (if playing then [] else ''none'')) s)"

definition stopTimelinePlay :: "'a sstate_scheme \<Rightarrow> 'a sstate_scheme" where
  "stopTimelinePlay s =
     (let s = (if tl_playTimer (tl s) \<noteq> None then emit (Cancel TimelinePlay) s else s);
          s = upd_tl (\<lambda>t. t\<lparr>tl_playTimer := None, tl_playing := False\<rparr>) s
      in setTimelinePlayIcon False s)"

definition updateTimelineLabel :: "'a sstate_scheme \<Rightarrow> 'a sstate_scheme" where
  "updateTimelineLabel s = upd_el ''timelineLabel'' (el_text (localeTime s (of_int (tl_t (tl s)) * 1000))) s"

definition syncTimelineSlider :: "'a sstate_scheme \<Rightarrow> 'a sstate_scheme" where
  "syncTimelineSlider s =
     (let t = tl s; span = tl_last t - tl_first t;
          mx = num_of ''historyTimelineSlider'' ''max'' s;
          v = (if 0 < span then of_int (round (of_int (tl_t t - tl_first t) / of_int span * mx)) else 0)
      in upd_el ''historyTimelineSlider'' (el_num ''value'' v) s)"

definition onTimelineSlider :: "'a sstate_scheme \<Rightarrow> 'a sstate_scheme" where
  "onTimelineSlider s =
     (if \<not> tl_active (tl s) then s
      else
        let s = stopTimelinePlay s;
            frac = num_of ''historyTimelineSlider'' ''value'' s / num_of ''historyTimelineSlider'' ''max'' s;
            s = upd_tl (\<lambda>t. t\<lparr>tl_t := round (of_int (tl_first t) + frac * of_int (tl_last t - tl_first t))\<rparr>) s
        in sendTimelinePosition False (updateTimelineLabel s))"

definition toggleTimelinePlay :: "'a sstate_scheme \<Rightarrow> 'a sstate_scheme" where
  "toggleTimelinePlay s =
     (if \<not> tl_active (tl s) then s
      else if tl_playing (tl s) then stopTimelinePlay s
      else
        let s = upd_tl (\<lambda>t. if tl_last t \<le> tl_t t then t\<lparr>tl_t := tl_first t\<rparr> else t) s;
            s = setTimelinePlayIcon True (upd_tl (\<lambda>t. t\<lparr>tl_playing := True\<rparr>) s);
            advance = max 1 (round (of_int (tl_last (tl s) - tl_first (tl s)) / (240 :: real)))
        in emit (After TimelinePlay 250) (upd_tl (\<lambda>t. t\<lparr>tl_playTimer := Some advance\<rparr>) s))"

text \<open>One tick of the play interval.\<close>

definition play_tick :: "'a sstate_scheme \<Rightarrow> 'a sstate_scheme" where
  "play_tick s =
     (case tl_playTimer (tl s) of
        None \<Rightarrow> s
      | Some advance \<Rightarrow>
          let s = upd_tl (\<lambda>t. t\<lparr>tl_t := min (tl_last t) (tl_t t + advance)\<rparr>) s;
              s = sendTimelinePosition False (updateTimelineLabel (syncTimelineSlider s))
          in if tl_last (tl s) \<le> tl_t (tl s) then stopTimelinePlay s else s)"

record capture =
  cp_id :: nat
  cp_source :: string
  cp_kind :: string
  cp_firstBucket :: int
  cp_lastBucket :: int
  cp_nodes :: nat
  cp_packets :: nat

definition overview_step :: "capture \<Rightarrow> nat" where
  "overview_step c = nat (max 1 \<lceil>of_int (max 1 (cp_lastBucket c - cp_firstBucket c)) / (300 :: real)\<rceil>)"

definition enterTimeline :: "capture \<Rightarrow> 'a sstate_scheme \<Rightarrow> 'a sstate_scheme" where
  "enterTimeline c s = emit (Ask (GetTimeline (cp_id c) (overview_step c))) s"

record timeline_data =
  td_captureId :: nat
  td_first :: int
  td_last :: int
  td_step :: nat
  td_points :: "(int \<times> nat) list"

definition enterTimeline_reply :: "timeline_data reply \<Rightarrow> 'a sstate_scheme \<Rightarrow> 'a sstate_scheme" where
  "enterTimeline_reply r s =
     (case r of
        Body d \<Rightarrow>
          if td_points d = [] then s
          else
            let s = stopTimelinePlay s;
                s = upd_tl (\<lambda>t. t\<lparr>tl_active := True, tl_captureId := td_captureId d, tl_first := td_first d,
                      tl_last := td_last d + 1, tl_step := td_step d, tl_points := td_points d,
                      tl_t := td_last d + 1\<rparr>) s;
                s = upd_el ''timelineBar'' (el_style ''display'' []) s;
                s = upd_el ''historyTimelineSlider'' (el_num ''value'' 1000) s
            in sendTimelinePosition True (updateTimelineLabel s)
      | _ \<Rightarrow> s)"

definition exitTimeline :: "'a sstate_scheme \<Rightarrow> 'a sstate_scheme" where
  "exitTimeline s =
     (if \<not> tl_active (tl s) then s
      else
        let s = stopTimelinePlay s;
            s = upd_tl (\<lambda>t. t\<lparr>tl_active := False, tl_captureId := 0\<rparr>) s;
            s = upd_el ''timelineBar'' (el_style ''display'' ''none'') s
        in sendControl ClearTimeline s)"

text \<open>The bars of the sparkline: left edge, top, width and height in a canvas of \<open>w\<close> by \<open>h\<close>.\<close>

definition sparkline_bars :: "real \<Rightarrow> real \<Rightarrow> timeline_state \<Rightarrow> (real \<times> real \<times> real \<times> real) list" where
  "sparkline_bars w h t =
     (let span = real_of_int (max 1 (tl_last t - tl_first t));
          maxP = fold max (map snd (tl_points t)) 0;
          barW = max 1 (real (tl_step t) / span * w - 1 / 2)
      in if maxP = 0 then []
         else map (\<lambda>(pt, n). let bh = max 1 (real n / real maxP * (h - 2))
                in (of_int (pt - tl_first t) / span * w, h - bh, barW, bh)) (tl_points t))"

definition history_item :: "(real \<Rightarrow> string) \<Rightarrow> (nat \<Rightarrow> string) \<Rightarrow> capture \<Rightarrow> string" where
  "history_item dateText number c =
     div_c ''history-item''
       (div_c ''history-item-title'' (span (escapeHtml (cp_source c)) @ span_c ''history-item-kind'' (escapeHtml (cp_kind c)))
        @ div_c ''history-item-meta''
            (dateText (of_int (cp_firstBucket c) * 1000) @ '' '' @ mid_dot @ '' ''
             @ formatTimelineDuration (nat (cp_lastBucket c - cp_firstBucket c)) @ '' '' @ mid_dot @ '' ''
             @ show_nat (cp_nodes c) @ '' hosts '' @ mid_dot @ '' '' @ number (cp_packets c) @ '' pkts''))"

definition loadCaptureHistory_reply :: "capture list reply \<Rightarrow> 'a sstate_scheme \<Rightarrow> 'a sstate_scheme" where
  "loadCaptureHistory_reply r s =
     (let loading = (\<lambda>t. div_c ''loading'' t)
      in case r of
           Body cs \<Rightarrow>
             let cs = filter (\<lambda>c. cp_firstBucket c < cp_lastBucket c) cs
             in upd_el ''historyList'' (el_html
                  (if cs = [] then loading ''No stored captures yet''
                   else concat (map (history_item (localeDateTime s) (localeNumber s)) cs))) s
         | _ \<Rightarrow> upd_el ''historyList'' (el_html (loading ''Failed to load captures'')) s)"

definition initHistoryUI_reply :: "'b reply \<Rightarrow> 'a world_scheme \<Rightarrow> 'a world_scheme" where
  "initHistoryUI_reply r s =
     (case r of Body _ \<Rightarrow> upd_el ''historyNavItem'' (el_style ''display'' []) s | _ \<Rightarrow> s)"

section \<open>The WebSocket\<close>

definition ws_url :: "'a sstate_scheme \<Rightarrow> string" where
  "ws_url s = (if loc_https s then ''wss:'' else ''ws:'') @ ''//'' @ loc_host s @ ''/ws''"

definition connectWebSocket :: "'a sstate_scheme \<Rightarrow> 'a sstate_scheme" where
  "connectWebSocket s =
     (if rm_active (replayMode s) then s
      else
        let s = updateConnectionStatus ''Connecting...'' False s;
            s = s\<lparr>ws_current := Some (ws_next s), ws_next := Suc (ws_next s), ws_open := False\<rparr>
        in emit (WsOpen (ws_url s)) s)"

definition chosen_layout :: "'a sstate_scheme \<Rightarrow> string" where
  "chosen_layout s =
     (if net_is isCosmos s then ''solar'' else storage_get ''clusterLayout'' ''force'' s)"

text \<open>What a fresh connection tells the server.\<close>

definition resync :: "'a sstate_scheme \<Rightarrow> 'a sstate_scheme" where
  "resync s =
     (let s = sendFilters s;
          layout = chosen_layout s;
          s = (if net_is isCosmos s then storage_set ''clusterLayout'' ''solar'' s else s);
          s = sendAggregation (sendLayout layout s);
          s = (if tl_active (tl s) then sendTimelinePosition True s else s)
      in if net_is isCosmos s \<and> loc_scale s = ''raw'' then sendControl (SetViewMode ''raw'') s else s)"

definition onopen :: "nat \<Rightarrow> 'a sstate_scheme \<Rightarrow> 'a sstate_scheme" where
  "onopen k s =
     (let s = s\<lparr>ws_live := set_add k (ws_live s)\<rparr>;
          s = (if ws_current s = Some k then s\<lparr>ws_open := True\<rparr> else s)
      in resync (updateConnectionStatus ''Connected'' True s))"

definition onerror :: "'a world_scheme \<Rightarrow> 'a world_scheme" where
  "onerror s = updateConnectionStatus ''Error'' False (emit (Warn ''WebSocket error:'') s)"

definition onclose :: "nat \<Rightarrow> 'a sstate_scheme \<Rightarrow> 'a sstate_scheme" where
  "onclose k s =
     (let s = s\<lparr>ws_live := set_del k (ws_live s)\<rparr>;
          s = (if ws_current s = Some k then s\<lparr>ws_open := False\<rparr> else s);
          s = updateConnectionStatus ''Disconnected'' False s
      in if \<not> rm_active (replayMode s) then emit (After ReconnectTimer 3000) s else s)"

definition reconnect_fires :: "'a sstate_scheme \<Rightarrow> 'a sstate_scheme" where
  "reconnect_fires s = connectWebSocket s"

text \<open>\<^verbatim>\<open>ws.close(); ws = null\<close>: the close event of the socket comes later.\<close>

definition close_current :: "'a sstate_scheme \<Rightarrow> 'a sstate_scheme" where
  "close_current s =
     (case ws_current s of
        None \<Rightarrow> s
      | Some _ \<Rightarrow> emit WsClose (s\<lparr>ws_current := None, ws_open := False\<rparr>))"

section \<open>Replay\<close>

record pcap =
  pf_path :: string
  pf_filename :: string
  pf_packetCount :: nat
  pf_durationSec :: real
  pf_startTime :: real
  pf_endTime :: real

definition clear_graph :: "'a gstate_scheme \<Rightarrow> 'a gstate_scheme" where
  "clear_graph s =
     (let s = nodes_remove (map_keys (nodes s)) s;
          s = edges_remove (map_keys (edges s)) s;
          s = resetGraphCaches s
      in s\<lparr>packets := [], packetCache := []\<rparr>)"

definition upd_replay :: "(replay_mode \<Rightarrow> replay_mode) \<Rightarrow> 'a pstate_scheme \<Rightarrow> 'a pstate_scheme" where
  "upd_replay f s = s\<lparr>replayMode := f (replayMode s)\<rparr>"

definition formatDateTime :: "real \<Rightarrow> 'a sstate_scheme \<Rightarrow> string" where
  "formatDateTime d s = localeDate s d @ '' '' @ localeTime s d"

definition updateTimelineDisplay :: "'a sstate_scheme \<Rightarrow> 'a sstate_scheme" where
  "updateTimelineDisplay s =
     (let rm = replayMode s
      in if \<not> rm_active rm then s
         else
           let cur = rm_startTime rm + rm_currentOffset rm * 1000;
               s = upd_el ''timelineCurrentTime'' (el_text (formatDateTime cur s)) s;
               s = upd_el ''timelineTotalTime'' (el_text (formatTime (rm_durationSeconds rm))) s;
               s = upd_el ''timelineStartLabel'' (el_text (formatDateTime (rm_startTime rm) s)) s
           in upd_el ''timelineEndLabel'' (el_text (formatDateTime (rm_endTime rm) s)) s)"

definition loadReplayDataAtOffset :: "real \<Rightarrow> 'a sstate_scheme \<Rightarrow> 'a sstate_scheme" where
  "loadReplayDataAtOffset offset s =
     (case (rm_active (replayMode s), rm_currentFile (replayMode s)) of
        (True, Some f) \<Rightarrow> emit (Ask (GetReplay f offset)) (s\<lparr>replayRequestSeq := Suc (replayRequestSeq s)\<rparr>)
      | _ \<Rightarrow> s)"

definition replay_reply :: "nat \<Rightarrow> graph_msg reply \<Rightarrow> 'a sstate_scheme \<Rightarrow> 'a sstate_scheme" where
  "replay_reply sq r s =
     (case r of
        Body d \<Rightarrow> if sq \<noteq> replayRequestSeq s then s else updateGraph d s
      | _ \<Rightarrow> emit (Warn ''Failed to load replay data:'') s)"

definition mark_file :: "string option \<Rightarrow> 'a world_scheme \<Rightarrow> 'a world_scheme" where
  "mark_file f s =
     for_class ''replay-file-item''
       (\<lambda>k e. force_class ''active'' (f = Some (e_data e ''filename'')) e) s"

definition show_replay_ui :: "string \<Rightarrow> 'a world_scheme \<Rightarrow> 'a world_scheme" where
  "show_replay_ui filename s =
     (let s = upd_el ''replayModeIndicator'' (el_style ''display'' ''flex'') s;
          s = upd_el ''returnToLiveButton'' (el_style ''display'' ''block'') s;
          s = upd_el ''timelineContainer'' (el_style ''opacity'' ''1'' \<circ> el_style ''visibility'' ''visible''
                \<circ> el_style ''display'' ''block'') s;
          s = for_class ''main-content'' (\<lambda>k. add_class ''timeline-visible'') s;
          s = mark_file (Some filename) s
      in upd_el ''timelineSlider'' (el_num ''value'' 100) s)"

definition start_replay :: "string \<Rightarrow> pcap \<Rightarrow> 'a sstate_scheme \<Rightarrow> 'a sstate_scheme" where
  "start_replay filename f s =
     (let s = upd_replay (\<lambda>rm. rm\<lparr>rm_active := True, rm_currentFile := Some filename,
                rm_startTime := pf_startTime f, rm_endTime := pf_endTime f,
                rm_durationSeconds := pf_durationSec f, rm_currentOffset := pf_durationSec f\<rparr>) s;
          s = updateTimelineDisplay (show_replay_ui filename (clear_graph s));
          s = updateConnectionStatus ''Replay Mode'' False s
      in loadReplayDataAtOffset (rm_durationSeconds (replayMode s)) s)"

text \<open>
  Entering replay: the socket is closed, and the file's entry comes with the call or is fetched first.
\<close>

definition enterReplayMode :: "string \<Rightarrow> pcap option \<Rightarrow> 'a sstate_scheme \<Rightarrow> 'a sstate_scheme" where
  "enterReplayMode filename info s =
     (let s = close_current s
      in case info of None \<Rightarrow> emit (Ask GetPcaps) s | Some f \<Rightarrow> start_replay filename f s)"

definition hide_replay_ui :: "'a world_scheme \<Rightarrow> 'a world_scheme" where
  "hide_replay_ui s =
     (let s = upd_el ''replayModeIndicator'' (el_style ''display'' ''none'') s;
          s = upd_el ''returnToLiveButton'' (el_style ''display'' ''none'') s;
          s = upd_el ''timelineContainer'' (el_style ''display'' ''none'') s;
          s = for_class ''main-content'' (\<lambda>k. remove_class ''timeline-visible'') s
      in mark_file None s)"

definition reset_sizing :: "'a gstate_scheme \<Rightarrow> 'a gstate_scheme" where
  "reset_sizing s =
     (if net_is hasSetValueRange s then with_net (setValueRange None) s
      else if net_is (\<lambda>r. rn_kind r = VisKind) s \<and> visValueRange s \<noteq> None
      then with_net (setOptions (getNetworkOptions (body_light s) (length (nodes s)))) (s\<lparr>visValueRange := None\<rparr>)
      else s)"

definition exitReplayMode :: "'a sstate_scheme \<Rightarrow> 'a sstate_scheme" where
  "exitReplayMode s =
     (let s = upd_replay (\<lambda>rm. rm\<lparr>rm_active := False, rm_currentFile := None\<rparr>) s;
          s = reset_sizing (clear_graph s);
          s = connectWebSocket (hide_replay_ui s)
      in emit (Ask GetPcaps) s)"

text \<open>The file list fetched by \<^verbatim>\<open>enterReplayMode\<close> itself; an exception there leaves replay.\<close>

definition enterReplayMode_reply :: "string \<Rightarrow> pcap list reply \<Rightarrow> 'a sstate_scheme \<Rightarrow> 'a sstate_scheme" where
  "enterReplayMode_reply filename r s =
     (case r of
        Body fs \<Rightarrow>
          (case find (\<lambda>f. pf_path f = filename) fs of
             None \<Rightarrow> emit (Warn ''File not found:'') s
           | Some f \<Rightarrow> start_replay filename f s)
      | _ \<Rightarrow> exitReplayMode (emit (Warn ''Failed to enter replay mode:'') s))"

definition throttleReplayFetch :: "'a sstate_scheme \<Rightarrow> 'a sstate_scheme" where
  "throttleReplayFetch s =
     (let elapsed = now s - replayLastFetch s
      in if 100 \<le> elapsed then
           let s = s\<lparr>replayLastFetch := now s\<rparr>;
               s = (if replayFetchTimerSet s then emit (Cancel ReplayTimer) (s\<lparr>replayFetchTimerSet := False\<rparr>) else s)
           in loadReplayDataAtOffset (rm_currentOffset (replayMode s)) s
         else if \<not> replayFetchTimerSet s
         then emit (After ReplayTimer (100 - elapsed)) (s\<lparr>replayFetchTimerSet := True\<rparr>)
         else s)"

definition replayTimer_fires :: "'a sstate_scheme \<Rightarrow> 'a sstate_scheme" where
  "replayTimer_fires s =
     (let s = s\<lparr>replayFetchTimerSet := False, replayLastFetch := now s\<rparr>
      in loadReplayDataAtOffset (rm_currentOffset (replayMode s)) s)"

definition replay_slider :: "real \<Rightarrow> 'a sstate_scheme \<Rightarrow> 'a sstate_scheme" where
  "replay_slider value s =
     (let s = upd_replay (\<lambda>rm. rm\<lparr>rm_currentOffset := value / 100 * rm_durationSeconds rm\<rparr>) s
      in throttleReplayFetch (updateTimelineDisplay s))"

definition replay_file_html :: "pcap \<Rightarrow> string" where
  "replay_file_html f =
     tag ''div'' [(''class'', ''replay-file-item''), (''data-filename'', pf_path f)]
       (div_c ''replay-file-name'' (pf_filename f)
        @ div_c ''replay-file-meta'' (span (show_nat (pf_packetCount f) @ '' packets'') @ span (formatDuration (pf_durationSec f))))"

definition loadPcapFileList_reply :: "pcap list reply \<Rightarrow> 'a world_scheme \<Rightarrow> 'a world_scheme" where
  "loadPcapFileList_reply r s =
     (case r of
        Body fs \<Rightarrow> upd_el ''replayFileList'' (el_html
          (if fs = [] then div_c ''no-files'' ''No pcap files available''
           else concat (map replay_file_html (take 3 fs)))) s
      | _ \<Rightarrow> upd_el ''replayFileList'' (el_html (div_c ''error'' ''Failed to load files''))
               (emit (Warn ''Failed to load pcap files:'') s))"

text \<open>The server says at start-up whether it only replays a file.\<close>

definition replay_info_reply :: "(bool \<times> pcap) reply \<Rightarrow> 'a sstate_scheme \<Rightarrow> 'a sstate_scheme" where
  "replay_info_reply r s =
     (case r of
        Body (act, f) \<Rightarrow> if act \<and> \<not> rm_active (replayMode s) then enterReplayMode (pf_path f) (Some f) s else s
      | _ \<Rightarrow> s)"

definition downloadCurrentPcap :: "'a world_scheme \<Rightarrow> 'a world_scheme" where
  "downloadCurrentPcap s = emit (Goto ''/api/download'') s"

section \<open>A fresh connection resynchronizes the server\<close>

lemma sent_control: "sent (sendControl m s) = sent s @ (if ws_open s then [m] else [])"
  by (simp add: sendControl_def)

text \<open>What the messages of a fresh connection are made of.\<close>

definition conn_vars :: "'a sstate_scheme
    \<Rightarrow> string list \<times> (int \<times> string list \<times> string list \<times> string \<times> string \<times> bool) \<times> bool \<times> string" where
  "conn_vars s = (protocolFilters s, agg_vars s, net_is isCosmos s, loc_scale s)"

lemma conn_vars_page [simp]:
  "conn_vars (emit ev s) = conn_vars s" "conn_vars (upd_el k f s) = conn_vars s"
  "conn_vars (create_el k e s) = conn_vars s" "conn_vars (remove_el k s) = conn_vars s"
  "conn_vars (storage_set k v s) = conn_vars s" "conn_vars (sendControl m s) = conn_vars s"
  "conn_vars (upd_tl g s) = conn_vars s"
  by (simp_all add: conn_vars_def agg_vars_def page_defs net_is_def sendControl_def upd_tl_def)

lemma conn_vars_net: "(\<And>r. isCosmos (f r) = isCosmos r) \<Longrightarrow> conn_vars (with_net f s) = conn_vars s"
  by (cases "network s") (simp_all add: conn_vars_def agg_vars_def net_is_def with_net_def)

lemma conn_vars_steps [simp]:
  "conn_vars (sendLayout m s) = conn_vars s" "conn_vars (sendAggregation s) = conn_vars s"
  "conn_vars (sendTimelinePosition b s) = conn_vars s" "conn_vars (sendFilters s) = conn_vars s"
  "conn_vars (updateConnectionStatus st c s) = conn_vars s"
proof -
  have r: "conn_vars (with_net redraw t) = conn_vars t" for t :: "'a sstate_scheme"
    by (rule conn_vars_net) (simp add: isCosmos_def)
  have f: "conn_vars (t\<lparr>currentClusterLayout := m\<rparr>) = conn_vars t" "conn_vars (t\<lparr>subnetIslands := x\<rparr>) = conn_vars t"
    for t :: "'a sstate_scheme" and m x by (simp_all add: conn_vars_def agg_vars_def net_is_def)
  show "conn_vars (sendLayout m s) = conn_vars s" by (simp add: sendLayout_def Let_def r f)
  show "conn_vars (sendAggregation s) = conn_vars s"
    by (simp add: sendAggregation_def updateFocusClusterBadge_def Let_def)
  show "conn_vars (sendTimelinePosition b s) = conn_vars s" by (simp add: sendTimelinePosition_def tl_send_def Let_def)
  show "conn_vars (sendFilters s) = conn_vars s" by (simp add: sendFilters_def)
  show "conn_vars (updateConnectionStatus st c s) = conn_vars s" by (simp add: updateConnectionStatus_def Let_def)
qed

lemma conn_vars_fields: "conn_vars s' = conn_vars s \<Longrightarrow> protocolFilters s' = protocolFilters s
    \<and> agg_msg s' = agg_msg s \<and> ws_open s' = ws_open s \<and> net_is isCosmos s' = net_is isCosmos s \<and> loc_scale s' = loc_scale s"
  by (simp add: conn_vars_def agg_vars_def agg_msg_def)

lemma tl_page [simp]:
  "tl (emit ev s) = tl s" "tl (upd_el k f s) = tl s" "tl (create_el k e s) = tl s" "tl (remove_el k s) = tl s"
  "tl (storage_set k v s) = tl s" "tl (with_net h s) = tl s" "tl (upd_tl g s) = g (tl s)" "tl (sendControl m s) = tl s"
  by (simp_all add: page_defs with_net_def upd_tl_def sendControl_def)

lemma tl_steps [simp]:
  "tl (sendLayout m s) = tl s" "tl (sendAggregation s) = tl s" "tl (sendFilters s) = tl s"
  "tl (updateConnectionStatus st c s) = tl s" "tl (updateTimelineLabel s) = tl s" "tl (setTimelinePlayIcon p s) = tl s"
  by (simp_all add: sendLayout_def sendAggregation_def updateFocusClusterBadge_def sendFilters_def
      updateConnectionStatus_def updateTimelineLabel_def setTimelinePlayIcon_def Let_def)

lemma sent_steps [simp]:
  "sent (updateConnectionStatus st c s) = sent s" "sent (storage_set k v s) = sent s" "sent (upd_tl g s) = sent s"
  "sent (with_net h s) = sent s"
proof -
  show "sent (updateConnectionStatus st c s) = sent s" by (simp add: updateConnectionStatus_def Let_def)
qed (simp_all add: sent_def storage_set_def upd_tl_def with_net_def)

lemma sent_sendLayout: "sent (sendLayout m s) = sent s @ (if ws_open s then [SetLayout m] else [])"
  by (simp add: sendLayout_def sent_control Let_def) (simp add: sent_def with_net_def)

text \<open>
  C10: when the current socket opens, the server is told the hidden protocols, the layout, the
  expansion state and, in this order, the scrub position and the raw mode that are in force: what the
  page shows and what the server builds for it agree after every reconnect.
\<close>

theorem onopen_resyncs:
  assumes "ws_current s = Some k"
  shows "sent (onopen k s) = sent s @ [SetFilters (protocolFilters s), SetLayout (chosen_layout s), agg_msg s]
    @ (if tl_active (tl s) then [tl_msg (tl s)] else [])
    @ (if net_is isCosmos s \<and> loc_scale s = ''raw'' then [SetViewMode ''raw''] else [])"
proof -
  define t0 where "t0 = s\<lparr>ws_live := set_add k (ws_live s), ws_open := True\<rparr>"
  define t where "t = updateConnectionStatus ''Connected'' True t0"
  define u where "u = sendFilters t"
  define u' where "u' = (if net_is isCosmos u then storage_set ''clusterLayout'' ''solar'' u else u)"
  define v where "v = sendLayout (chosen_layout u) u'"
  define w where "w = sendAggregation v"
  define x where "x = (if tl_active (tl w) then sendTimelinePosition True w else w)"
  have "sent t0 = sent s" by (simp add: t0_def sent_def)
  then have t: "conn_vars t = conn_vars t0" "tl t = tl s" "sent t = sent s" by (simp_all add: t_def) (simp add: t0_def)
  have open0: "ws_open t0" "protocolFilters t0 = protocolFilters s" "agg_msg t0 = agg_msg s"
    "net_is isCosmos t0 = net_is isCosmos s" "loc_scale t0 = loc_scale s"
    by (simp_all add: t0_def agg_msg_def net_is_def)
  have lay: "chosen_layout u = chosen_layout t" "chosen_layout t = chosen_layout s"
    by (simp_all add: u_def t_def t0_def chosen_layout_def storage_get_def sendFilters_def sendControl_def
        updateConnectionStatus_def page_defs net_is_def Let_def)
  have cu: "conn_vars u = conn_vars t0" "conn_vars u' = conn_vars t0" "conn_vars v = conn_vars t0"
    "conn_vars w = conn_vars t0" "conn_vars x = conn_vars t0"
    by (simp_all add: u_def u'_def v_def w_def x_def t(1))
  note f = conn_vars_fields [OF t(1)] conn_vars_fields [OF cu(1)] conn_vars_fields [OF cu(2)]
    conn_vars_fields [OF cu(3)] conn_vars_fields [OF cu(4)] conn_vars_fields [OF cu(5)]
  have tls: "tl w = tl s" by (simp add: w_def v_def u'_def u_def t(2))
  have o1: "onopen k s = resync t" using assms by (simp add: onopen_def t_def t0_def Let_def)
  have o2: "resync t = (if net_is isCosmos x \<and> loc_scale x = ''raw'' then sendControl (SetViewMode ''raw'') x else x)"
    by (simp only: resync_def u_def u'_def v_def w_def x_def Let_def)
  have "sent (onopen k s) = sent x @ (if net_is isCosmos s \<and> loc_scale s = ''raw'' then [SetViewMode ''raw''] else [])"
    unfolding o1 o2 using f open0 by (simp add: sent_control)
  moreover have "sent x = sent w @ (if tl_active (tl s) then [tl_msg (tl s)] else [])"
  proof -
    have "sent (tl_send y) = sent y @ [tl_msg (tl y)]" if "ws_open y" for y :: "'a sstate_scheme"
      using that by (simp add: tl_send_def sent_control upd_tl_def) (simp add: sent_def tl_msg_def)
    then show ?thesis using f open0 tls
      by (auto simp: x_def sendTimelinePosition_def Let_def upd_tl_def emit_def) (simp_all add: sent_def tl_msg_def map_filter_def)
  qed
  moreover have "sent w = sent v @ [agg_msg s]" using f open0 sendAggregation_sends(1) [of v] by (simp add: w_def)
  moreover have "sent v = sent u' @ [SetLayout (chosen_layout s)]" using f open0 lay by (simp add: v_def sent_sendLayout)
  moreover have "sent u' = sent u" by (simp add: u'_def)
  moreover have "sent u = sent s @ [SetFilters (protocolFilters s)]"
    using f open0 t(3) by (simp add: u_def sendFilters_def sent_control)
  ultimately show ?thesis by simp
qed

section \<open>The timeline reaches the position it shows\<close>

lemma tl_send_spec: "ws_open s \<Longrightarrow> sent (tl_send s) = sent s @ [tl_msg (tl s)]" "tl (tl_send s) = (tl s)\<lparr>tl_lastSent := now s\<rparr>"
  "ws_open (tl_send s) = ws_open s"
  by (simp_all add: tl_send_def sent_control) (simp_all add: upd_tl_def tl_msg_def sendControl_def emit_def)

lemma position_spec:
  assumes "ws_open s"
  shows "sent (sendTimelinePosition b s) = sent s @ (if b \<or> 150 \<le> now s - tl_lastSent (tl s) then [tl_msg (tl s)] else [])"
    and "tl_sendTimer (tl (sendTimelinePosition b s)) = (\<not> b \<and> now s - tl_lastSent (tl s) < 150)"
    and "tl_msg (tl (sendTimelinePosition b s)) = tl_msg (tl s)" and "ws_open (sendTimelinePosition b s)"
proof -
  define t where "t = (if tl_sendTimer (tl s) then emit (Cancel TimelineSend) (upd_tl (\<lambda>t. t\<lparr>tl_sendTimer := False\<rparr>) s) else s)"
  have t: "ws_open t" "sent t = sent s" "tl_msg (tl t) = tl_msg (tl s)" "\<not> tl_sendTimer (tl t)"
    using assms by (simp_all add: t_def tl_msg_def) (simp_all add: emit_def upd_tl_def)
  have p: "sendTimelinePosition b s = (if b \<or> 150 \<le> now s - tl_lastSent (tl s) then tl_send t
      else emit (After TimelineSend (150 - (now s - tl_lastSent (tl s)))) (upd_tl (\<lambda>t. t\<lparr>tl_sendTimer := True\<rparr>) t))"
    by (simp add: sendTimelinePosition_def t_def Let_def)
  show "sent (sendTimelinePosition b s) = sent s @ (if b \<or> 150 \<le> now s - tl_lastSent (tl s) then [tl_msg (tl s)] else [])"
    using t by (simp add: p tl_send_spec)
  show "tl_sendTimer (tl (sendTimelinePosition b s)) = (\<not> b \<and> now s - tl_lastSent (tl s) < 150)"
    using t by (auto simp: p tl_send_spec)
  show "tl_msg (tl (sendTimelinePosition b s)) = tl_msg (tl s)" using t by (auto simp: p tl_send_spec tl_msg_def)
  show "ws_open (sendTimelinePosition b s)" using t by (simp add: p tl_send_spec) (simp add: emit_def upd_tl_def)
qed

text \<open>A drag: the slider at a value at a time.\<close>

definition drag :: "real \<times> real \<Rightarrow> 'a sstate_scheme \<Rightarrow> 'a sstate_scheme" where
  "drag e s = onTimelineSlider (upd_el ''historyTimelineSlider'' (el_num ''value'' (snd e)) (s\<lparr>now := fst e\<rparr>))"

lemma drag_spec:
  assumes "ws_open s" and "tl_active (tl s)"
  shows "ws_open (drag e s) \<and> tl_active (tl (drag e s))
    \<and> (if tl_sendTimer (tl (drag e s)) then sent (drag e s) = sent s
       else sent (drag e s) = sent s @ [tl_msg (tl (drag e s))] \<and> 150 \<le> fst e - tl_lastSent (tl s))"
proof -
  define t0 where "t0 = upd_el ''historyTimelineSlider'' (el_num ''value'' (snd e)) (s\<lparr>now := fst e\<rparr>)"
  define t1 where "t1 = stopTimelinePlay t0"
  define t2 where "t2 = updateTimelineLabel (upd_tl (\<lambda>t. t\<lparr>tl_t := round (of_int (tl_first t)
      + num_of ''historyTimelineSlider'' ''value'' t1 / num_of ''historyTimelineSlider'' ''max'' t1
        * of_int (tl_last t - tl_first t))\<rparr>) t1)"
  have t0: "tl t0 = tl s" "sent t0 = sent s" "ws_open t0" "now t0 = fst e"
    using assms by (simp_all add: t0_def) (simp_all add: sent_def upd_el_def)
  have t1: "tl_active (tl t1)" "tl_lastSent (tl t1) = tl_lastSent (tl s)" "sent t1 = sent s" "ws_open t1" "now t1 = fst e"
    using t0 assms by (simp_all add: t1_def stopTimelinePlay_def setTimelinePlayIcon_def Let_def)
      (simp_all add: emit_def upd_el_def upd_tl_def)
  have t2: "tl_active (tl t2)" "tl_lastSent (tl t2) = tl_lastSent (tl s)" "sent t2 = sent s" "ws_open t2" "now t2 = fst e"
    using t1 by (simp_all add: t2_def updateTimelineLabel_def) (simp_all add: upd_el_def upd_tl_def)
  have d: "drag e s = sendTimelinePosition False t2"
    using assms t0 by (simp add: drag_def onTimelineSlider_def t0_def [symmetric] t1_def [symmetric] t2_def Let_def)
  have act: "tl_active (tl (sendTimelinePosition False t2)) = tl_active (tl t2)"
    by (simp add: sendTimelinePosition_def tl_send_def Let_def)
  show ?thesis using position_spec [of t2 False, OF t2(4)] t2 by (auto simp: d act)
qed


text \<open>Playing.\<close>

lemma play_tick_spec:
  assumes "tl_playTimer (tl s) = Some a"
  shows "tl_t (tl (play_tick s)) = min (tl_last (tl s)) (tl_t (tl s) + a) \<and> tl_last (tl (play_tick s)) = tl_last (tl s)
    \<and> tl_playTimer (tl (play_tick s)) = (if tl_last (tl s) \<le> tl_t (tl s) + a then None else Some a)"
proof -
  let ?u = "upd_tl (\<lambda>t. t\<lparr>tl_t := min (tl_last t) (tl_t t + a)\<rparr>) s"
  define v where "v = sendTimelinePosition False (updateTimelineLabel (syncTimelineSlider ?u))"
  have sl: "tl (syncTimelineSlider t) = tl t" for t :: "'a sstate_scheme" by (simp add: syncTimelineSlider_def Let_def)
  have v: "tl_t (tl v) = min (tl_last (tl s)) (tl_t (tl s) + a)" "tl_last (tl v) = tl_last (tl s)"
    "tl_playTimer (tl v) = Some a"
    using assms by (simp_all add: v_def sendTimelinePosition_def tl_send_def Let_def sl)
  have st: "tl_t (tl (stopTimelinePlay t)) = tl_t (tl t)" "tl_last (tl (stopTimelinePlay t)) = tl_last (tl t)"
    "tl_playTimer (tl (stopTimelinePlay t)) = None" for t :: "'a sstate_scheme"
    by (simp_all add: stopTimelinePlay_def Let_def)
  have "play_tick s = (if tl_last (tl v) \<le> tl_t (tl v) then stopTimelinePlay v else v)"
    using assms by (simp add: play_tick_def v_def Let_def)
  then show ?thesis using v st by auto
qed

lemma play_ticks:
  assumes "tl_playTimer (tl s) = Some a" and "1 \<le> a" and "tl_last (tl s) - tl_t (tl s) \<le> int n * a"
    and "tl_t (tl s) \<le> tl_last (tl s)" and "0 < n"
  shows "tl_playTimer (tl ((play_tick ^^ n) s)) = None \<and> tl_t (tl ((play_tick ^^ n) s)) = tl_last (tl s)"
  using assms
proof (induction n arbitrary: s)
  case (Suc n)
  note one = play_tick_spec [OF Suc.prems(1)]
  have stay: "(play_tick ^^ m) t = t" if "tl_playTimer (tl t) = None" for m and t :: "'a sstate_scheme"
    using that by (induction m) (simp_all add: play_tick_def)
  show ?case
  proof (cases "tl_last (tl s) \<le> tl_t (tl s) + a")
    case True
    then show ?thesis using one stay [of "play_tick s" n] by (simp add: funpow_Suc_right del: funpow.simps)
  next
    case False
    have "0 < n"
    proof (rule ccontr)
      assume "\<not> 0 < n"
      then show False using Suc.prems(3) False by simp
    qed
    moreover have "tl_last (tl s) - (tl_t (tl s) + a) \<le> int n * a" using Suc.prems(3) by (simp add: algebra_simps)
    ultimately show ?thesis using Suc.IH [of "play_tick s"] one False Suc.prems(2)
      by (simp add: funpow_Suc_right del: funpow.simps)
  qed
qed simp

text \<open>
  C14: playing ends: at most 359 ticks after the play button is pressed the position has reached the end
  of the capture and the interval is stopped.
\<close>

theorem play_ends:
  assumes "tl_active (tl s)" and "\<not> tl_playing (tl s)" and "tl_first (tl s) \<le> tl_t (tl s)"
    and "tl_first (tl s) \<le> tl_last (tl s)"
  defines "s' \<equiv> (play_tick ^^ 359) (toggleTimelinePlay s)"
  shows "tl_playTimer (tl s') = None \<and> tl_t (tl s') = tl_last (tl s)"
proof -
  let ?span = "tl_last (tl s) - tl_first (tl s)"
  define a where "a = max 1 (round (of_int ?span / (240 :: real)))"
  let ?p = "toggleTimelinePlay s"
  have p: "tl_playTimer (tl ?p) = Some a" "tl_last (tl ?p) = tl_last (tl s)" "tl_first (tl s) \<le> tl_t (tl ?p)"
    "tl_t (tl ?p) \<le> tl_last (tl ?p)"
    using assms by (simp_all add: toggleTimelinePlay_def Let_def a_def)
  have "of_int ?span / (240 :: real) - 1 / 2 < of_int (round (of_int ?span / (240 :: real)))"
    using of_int_round_gt by blast
  also have "\<dots> \<le> of_int a" by (simp add: a_def)
  finally have "real_of_int ?span < 240 * of_int a + 120" by (simp add: field_simps)
  then have "real_of_int ?span < real_of_int (240 * a + 120)" by simp
  then have "?span < 240 * a + 120" by (simp only: of_int_less_iff)
  moreover have a: "1 \<le> a" by (simp add: a_def)
  ultimately have "?span \<le> 359 * a" by linarith
  then have "tl_last (tl ?p) - tl_t (tl ?p) \<le> int 359 * a" using p(2,3) by simp
  from play_ticks [OF p(1) a this p(4)] show ?thesis by (simp add: s'_def p(2))
qed

section \<open>Replay\<close>

definition in_replay :: "'a sstate_scheme \<Rightarrow> bool" where
  "in_replay s = (rm_active (replayMode s) \<and> rm_currentFile (replayMode s) \<noteq> None)"

definition is_body :: "'b reply \<Rightarrow> bool" where
  "is_body r = (case r of Body _ \<Rightarrow> True | _ \<Rightarrow> False)"

lemma load_in_replay:
  assumes "in_replay s"
  shows "loadReplayDataAtOffset q s = emit (Ask (GetReplay (the (rm_currentFile (replayMode s))) q))
    (s\<lparr>replayRequestSeq := Suc (replayRequestSeq s)\<rparr>)"
  using assms by (auto simp: in_replay_def loadReplayDataAtOffset_def)

interpretation replay: seq_guard replayRequestSeq loadReplayDataAtOffset replay_reply in_replay is_body
  by unfold_locales (auto simp: load_in_replay emit_def replay_reply_def is_body_def split: reply.splits)

text \<open>
  C11: while scrubbing, whatever replies to earlier requests arrive, in whatever order, the graph keeps
  the state of the newest request; its own reply is the one applied.
\<close>

theorem newest_scrub_wins:
  fixes s :: "'a sstate_scheme" and q :: real
  assumes "in_replay s" and "\<forall>(n, r) \<in> set rs. is_body r \<and> n \<le> replayRequestSeq s"
  defines "s' \<equiv> loadReplayDataAtOffset q s"
  shows "replay_reply (Suc (replayRequestSeq s)) (Body d) (fold (\<lambda>(n, r). replay_reply n r) rs s') = updateGraph d s'"
proof -
  have "replayRequestSeq s' = Suc (replayRequestSeq s)" using assms(1) by (simp add: s'_def load_in_replay emit_def)
  then show ?thesis using replay.late_replies_ignored [OF assms(1,2), of q] by (simp add: s'_def replay_reply_def)
qed

lemma nodes_clear: "nodes (clear_graph s) = []" "edges (clear_graph s) = []"
proof -
  have all: "fold AList.delete (map_keys m) m = []" for m :: "(string \<times> 'b) list"
  proof -
    have "set (map_keys (fold AList.delete (map_keys m) m)) = {}" by (simp add: js_map.keys_del_all)
    then show ?thesis by (simp add: map_keys_def)
  qed
  show "nodes (clear_graph s) = []" "edges (clear_graph s) = []"
    by (simp_all add: clear_graph_def Let_def resetGraphCaches_def all)
qed

text \<open>What leaving replay does not touch of the guard, and what it empties.\<close>

definition replay_core :: "'a sstate_scheme \<Rightarrow> nat \<times> (string \<times> node_item) list \<times> bool" where
  "replay_core s = (replayRequestSeq s, nodes s, rm_active (replayMode s))"

lemma replay_core_page [simp]:
  "replay_core (emit ev s) = replay_core s" "replay_core (upd_el k f s) = replay_core s"
  "replay_core (for_class c g s) = replay_core s" "replay_core (with_net h s) = replay_core s"
  "replay_core (updateConnectionStatus st b s) = replay_core s"
  by (simp_all add: replay_core_def page_defs with_net_def updateConnectionStatus_def Let_def)

lemma replay_core_exit: "replay_core (exitReplayMode s) = (replayRequestSeq s, [], False)"
proof -
  have c: "replay_core (connectWebSocket t) = replay_core t" for t :: "'a sstate_scheme"
  proof -
    have f: "replay_core (t\<lparr>ws_current := a, ws_next := b, ws_open := c\<rparr>) = replay_core t"
      for t :: "'a sstate_scheme" and a b c by (simp add: replay_core_def)
    show ?thesis by (simp add: connectWebSocket_def Let_def f)
  qed
  have r: "replay_core (reset_sizing t) = replay_core t" for t :: "'a sstate_scheme"
  proof -
    have "replay_core (t\<lparr>visValueRange := a\<rparr>) = replay_core t" for t :: "'a sstate_scheme" and a
      by (simp add: replay_core_def)
    then show ?thesis by (simp add: reset_sizing_def)
  qed
  have h: "replay_core (hide_replay_ui t) = replay_core t" for t :: "'a sstate_scheme"
    by (simp add: hide_replay_ui_def mark_file_def Let_def)
  have k: "replay_core (clear_graph t) = (replayRequestSeq t, [], rm_active (replayMode t))" for t :: "'a sstate_scheme"
    using nodes_clear(1) [of t]
    by (simp add: replay_core_def) (simp add: clear_graph_def nodes_remove_def edges_remove_def resetGraphCaches_def
        with_net_def Let_def)
  show ?thesis by (simp add: exitReplayMode_def Let_def c r h k) (simp add: upd_replay_def)
qed

text \<open>
  C15: leaving replay does not retire the request that is in flight: its reply is applied to the live
  graph, which then shows the hosts of the capture file.
\<close>

theorem late_replay_reply_pollutes_live:
  fixes s :: "'a sstate_scheme"
  assumes "m_isFull d" and "\<not> m_partial d" and "m_fullDone d"
  defines "s' \<equiv> exitReplayMode s"
  shows "\<not> rm_active (replayMode s') \<and> node_ids s' = {}
    \<and> node_ids (replay_reply (replayRequestSeq s) (Body d) s') = v_id ` set (m_nodes d)"
  using replay_core_exit [of s] snapshot_ids [OF assms(1-3), of s']
  by (simp add: s'_def replay_core_def replay_reply_def node_ids_def map_keys_def)

text \<open>The slider at a value at a time.\<close>

definition scrub :: "real \<times> real \<Rightarrow> 'a sstate_scheme \<Rightarrow> 'a sstate_scheme" where
  "scrub e s = replay_slider (snd e) (s\<lparr>now := fst e\<rparr>)"

definition scrub_vars :: "'a sstate_scheme \<Rightarrow> replay_mode \<times> bool \<times> real" where
  "scrub_vars s = (replayMode s, replayFetchTimerSet s, replayLastFetch s)"

lemma scrub_spec:
  fixes s :: "'a sstate_scheme" and e :: "real \<times> real"
  assumes "in_replay s"
  defines "f \<equiv> the (rm_currentFile (replayMode s))" and "q \<equiv> snd e / 100 * rm_durationSeconds (replayMode s)"
  shows "in_replay (scrub e s) \<and> rm_currentFile (replayMode (scrub e s)) = rm_currentFile (replayMode s)
    \<and> rm_durationSeconds (replayMode (scrub e s)) = rm_durationSeconds (replayMode s)
    \<and> rm_currentOffset (replayMode (scrub e s)) = q
    \<and> (\<not> replayFetchTimerSet (scrub e s) \<longrightarrow> last (log (scrub e s)) = Ask (GetReplay f q))"
proof -
  define t where "t = updateTimelineDisplay (upd_replay (\<lambda>rm. rm\<lparr>rm_currentOffset := snd e / 100 * rm_durationSeconds rm\<rparr>)
    (s\<lparr>now := fst e\<rparr>))"
  have v: "replayMode (updateTimelineDisplay u) = replayMode u" for u :: "'a sstate_scheme"
    by (simp add: updateTimelineDisplay_def Let_def) (simp add: upd_el_def)
  have t: "replayMode t = (replayMode s)\<lparr>rm_currentOffset := q\<rparr>" by (simp add: t_def v upd_replay_def q_def)
  have it: "in_replay u" if "replayMode u = replayMode t" for u :: "'a sstate_scheme"
    using assms(1) that t by (simp add: in_replay_def)
  have sc: "scrub e s = throttleReplayFetch t" by (simp add: scrub_def replay_slider_def t_def Let_def)
  define u where "u = (if replayFetchTimerSet t then emit (Cancel ReplayTimer) (t\<lparr>replayLastFetch := now t, replayFetchTimerSet := False\<rparr>)
    else t\<lparr>replayLastFetch := now t\<rparr>)"
  have u: "replayMode u = replayMode t" "\<not> replayFetchTimerSet u" by (simp_all add: u_def emit_def)
  have th: "throttleReplayFetch t = (if 100 \<le> now t - replayLastFetch t then loadReplayDataAtOffset q u
      else if \<not> replayFetchTimerSet t then emit (After ReplayTimer (100 - (now t - replayLastFetch t))) (t\<lparr>replayFetchTimerSet := True\<rparr>)
      else t)"
    using t by (simp add: throttleReplayFetch_def u_def Let_def emit_def)
  have l: "replayMode (loadReplayDataAtOffset q u) = replayMode t" "\<not> replayFetchTimerSet (loadReplayDataAtOffset q u)"
    "last (log (loadReplayDataAtOffset q u)) = Ask (GetReplay f q)"
    using u it [OF u(1)] t by (simp_all add: load_in_replay emit_def f_def)
  have m: "replayMode (throttleReplayFetch t) = replayMode t" using l by (simp add: th emit_def)
  have "\<not> replayFetchTimerSet (throttleReplayFetch t) \<longrightarrow> last (log (throttleReplayFetch t)) = Ask (GetReplay f q)"
    using l by (simp add: th emit_def)
  then show ?thesis using m it [OF m] t by (simp add: sc)
qed

text \<open>
  C12: however the replay slider is dragged, the last request made is for the position it was left at,
  or a timer is running whose firing makes it.
\<close>

theorem scrub_settles:
  fixes s :: "'a sstate_scheme"
  assumes "in_replay s" and "es \<noteq> []"
  defines "s' \<equiv> fold scrub es s"
  shows "last (log (if replayFetchTimerSet s' then replayTimer_fires s' else s')) =
    Ask (GetReplay (the (rm_currentFile (replayMode s))) (snd (last es) / 100 * rm_durationSeconds (replayMode s)))"
proof -
  have all: "in_replay (fold scrub es s) \<and> rm_currentFile (replayMode (fold scrub es s)) = rm_currentFile (replayMode s)
      \<and> rm_durationSeconds (replayMode (fold scrub es s)) = rm_durationSeconds (replayMode s)" for es
    using assms(1) by (induction es rule: rev_induct) (simp_all add: scrub_spec)
  obtain fs e where es: "es = fs @ [e]" using assms(2) by (cases es rule: rev_cases) simp_all
  have fire: "last (log (replayTimer_fires t)) = Ask (GetReplay (the (rm_currentFile (replayMode t)))
      (rm_currentOffset (replayMode t)))" if "in_replay t" for t :: "'a sstate_scheme"
  proof -
    have "in_replay (t\<lparr>replayFetchTimerSet := False, replayLastFetch := now t\<rparr>)" using that by (simp add: in_replay_def)
    then show ?thesis by (simp add: replayTimer_fires_def load_in_replay emit_def)
  qed
  show ?thesis using scrub_spec [of "fold scrub fs s" e] all [of fs] all [of es] fire [of s'] by (auto simp: s'_def es)
qed

section \<open>Example\<close>

text \<open>A page connected through socket 0, with the history timeline shown.\<close>

definition sample_sstate :: sstate where
  "sample_sstate = dstate.extend (sample_dstate\<lparr>ws_open := True\<rparr>)
     (sstate.fields (initial_timeline\<lparr>tl_active := True, tl_captureId := 1, tl_first := 100, tl_last := 700, tl_t := 100\<rparr>)
        False 0 0 (Some 0) 1 [0] False ''host'' [] (\<lambda>_. ''1.1.2024''))"

lemma sample_sstate_fields [simp]:
  "ws_open sample_sstate" "ws_current sample_sstate = Some 0" "ws_live sample_sstate = [0]" "ws_next sample_sstate = 1"
  "tl sample_sstate = initial_timeline\<lparr>tl_active := True, tl_captureId := 1, tl_first := 100, tl_last := 700, tl_t := 100\<rparr>"
  "replayRequestSeq sample_sstate = 0"
  by (simp_all add: sample_sstate_def dstate.extend_def dstate.defs sstate.defs)

end
