(* ===== verification/Sockets.thy ===== *)
theory Sockets
  imports Session
begin

text \<open>
  The sockets of the page across reconnects and replay, and examples at which the properties of the
  session apply.
\<close>

section \<open>Sockets\<close>

text \<open>The socket variable, the next socket's number, the sockets that deliver, and whether a file is replayed.\<close>

definition sock :: "'a sstate_scheme \<Rightarrow> nat option \<times> nat \<times> nat list \<times> bool" where
  "sock s = (ws_current s, ws_next s, ws_live s, rm_active (replayMode s))"

lemma sock_page [simp]:
  "sock (emit ev s) = sock s" "sock (upd_el k f s) = sock s" "sock (create_el k e s) = sock s"
  "sock (for_class c f' s) = sock s" "sock (remove_el k s) = sock s" "sock (storage_set k v s) = sock s"
  "sock (with_net h s) = sock s" "sock (upd_tl g s) = sock s" "sock (sendControl m s) = sock s"
  "sock (updateConnectionStatus st b s) = sock s"
  by (simp_all add: sock_def page_defs with_net_def updateConnectionStatus_def upd_tl_def sendControl_def Let_def)

lemma sock_layout [simp]: "sock (sendLayout m s) = sock s"
proof -
  have f: "sock (t\<lparr>currentClusterLayout := m\<rparr>) = sock t" "sock (t\<lparr>subnetIslands := x\<rparr>) = sock t"
    for t :: "'a sstate_scheme" and m x by (simp_all add: sock_def)
  show ?thesis by (simp add: sendLayout_def Let_def f)
qed

lemma sock_messages [simp]:
  "sock (sendAggregation s) = sock s" "sock (sendFilters s) = sock s" "sock (sendTimelinePosition b s) = sock s"
  "sock (resync s) = sock s"
proof -
  show a: "sock (sendAggregation s) = sock s" "sock (sendFilters s) = sock s" "sock (sendTimelinePosition b s) = sock s"
    for s :: "'a sstate_scheme" and b
    by (simp_all add: sendAggregation_def updateFocusClusterBadge_def sendFilters_def sendTimelinePosition_def tl_send_def Let_def)
  show "sock (resync s) = sock s" by (simp add: resync_def Let_def a)
qed

lemma sock_clear [simp]: "sock (clear_graph s) = sock s" "sock (reset_sizing s) = sock s"
proof -
  have f: "sock (t\<lparr>visValueRange := a\<rparr>) = sock t" for t :: "'a sstate_scheme" and a by (simp add: sock_def)
  show "sock (reset_sizing s) = sock s" by (simp add: reset_sizing_def f)
  show "sock (clear_graph s) = sock s"
    by (simp add: sock_def clear_graph_def nodes_remove_def edges_remove_def resetGraphCaches_def with_net_def Let_def)
qed

lemma sock_connect: "sock (connectWebSocket s) = (if rm_active (replayMode s) then sock s
    else (Some (ws_next s), Suc (ws_next s), ws_live s, False))"
  by (simp add: connectWebSocket_def Let_def) (simp add: sock_def updateConnectionStatus_def page_defs Let_def)

lemma sock_open: "sock (onopen k s) = (ws_current s, ws_next s, set_add k (ws_live s), rm_active (replayMode s))"
  by (simp add: onopen_def Let_def) (simp add: sock_def)

lemma sock_close: "sock (onclose k s) = (ws_current s, ws_next s, set_del k (ws_live s), rm_active (replayMode s))"
  by (simp add: onclose_def Let_def) (simp add: sock_def updateConnectionStatus_def page_defs Let_def)

lemma sock_enter: "sock (enterReplayMode f (Some p) s) = (None, ws_next s, ws_live s, True)"
proof -
  have d: "sock (updateTimelineDisplay t) = sock t" "sock (show_replay_ui g t) = sock t" for t :: "'a sstate_scheme" and g
    by (simp_all add: updateTimelineDisplay_def show_replay_ui_def mark_file_def Let_def)
  have l: "sock (loadReplayDataAtOffset q t) = sock t" for t :: "'a sstate_scheme" and q
    by (auto simp: loadReplayDataAtOffset_def sock_def emit_def split: option.split bool.split)
  have c: "sock (close_current s) = (None, ws_next s, ws_live s, rm_active (replayMode s))"
    by (cases "ws_current s") (simp_all add: close_current_def sock_def emit_def)
  have u: "sock (upd_replay h t) = (ws_current t, ws_next t, ws_live t, rm_active (h (replayMode t)))"
    for h and t :: "'a sstate_scheme" by (simp add: sock_def upd_replay_def)
  show ?thesis using c by (simp add: enterReplayMode_def start_replay_def Let_def d l u) (simp add: sock_def)
qed

lemma sock_exit: "sock (exitReplayMode s) = (Some (ws_next s), Suc (ws_next s), ws_live s, False)"
proof -
  have h: "sock (hide_replay_ui t) = sock t" for t :: "'a sstate_scheme"
    by (simp add: hide_replay_ui_def mark_file_def Let_def)
  define t where "t = hide_replay_ui (reset_sizing (clear_graph (upd_replay (\<lambda>rm. rm\<lparr>rm_active := False, rm_currentFile := None\<rparr>) s)))"
  have "sock t = (ws_current s, ws_next s, ws_live s, False)" by (simp add: t_def h) (simp add: sock_def upd_replay_def)
  then show ?thesis using sock_connect [of t] by (simp add: exitReplayMode_def Let_def t_def [symmetric]) (simp add: sock_def)
qed

text \<open>
  C16: when replay is entered and left before the close event of the live socket arrives, that event
  still schedules a reconnect, and the page ends up with two sockets that both deliver.
\<close>

theorem two_live_sockets:
  fixes s :: "'a sstate_scheme" and f :: string and p :: pcap
  assumes "ws_live s = [k]" and "k < ws_next s"
  defines "n \<equiv> ws_next s" and "s1 \<equiv> exitReplayMode (enterReplayMode f (Some p) s)"
  defines "s2 \<equiv> onclose k s1"
  defines "s3 \<equiv> onopen (Suc n) (reconnect_fires (onopen n s2))"
  shows "last (log s2) = After ReconnectTimer 3000 \<and> ws_live s3 = [n, Suc n] \<and> ws_current s3 = Some (Suc n)"
proof -
  have s1: "sock s1 = (Some n, Suc n, [k], False)"
    using sock_exit [of "enterReplayMode f (Some p) s"] sock_enter [of f p s] assms(1) by (simp add: s1_def n_def sock_def)
  then have s2: "sock s2 = (Some n, Suc n, [], False)" using sock_close [of k s1] by (simp add: s2_def sock_def set_del_def)
  have "last (log s2) = After ReconnectTimer 3000"
    using s1 by (simp add: s2_def onclose_def Let_def sock_def emit_def updateConnectionStatus_def page_defs)
  moreover have a: "sock (onopen n s2) = (Some n, Suc n, [n], False)"
    using sock_open [of n s2] s2 by (simp add: sock_def set_add_def)
  then have "sock (reconnect_fires (onopen n s2)) = (Some (Suc n), Suc (Suc n), [n], False)"
    using sock_connect [of "onopen n s2"] by (simp add: reconnect_fires_def sock_def)
  then have "sock s3 = (Some (Suc n), Suc (Suc n), [n, Suc n], False)"
    using sock_open [of "Suc n" "reconnect_fires (onopen n s2)"] by (simp add: s3_def sock_def set_add_def)
  ultimately show ?thesis by (simp add: sock_def)
qed

section \<open>Examples\<close>

definition sample_pcap :: pcap where
  "sample_pcap = \<lparr> pf_path = ''a.pcap'', pf_filename = ''a.pcap'', pf_packetCount = 10, pf_durationSec = 60,
     pf_startTime = 0, pf_endTime = 60000 \<rparr>"

text \<open>A complete snapshot of one host.\<close>

definition sample_reply :: graph_msg where
  "sample_reply = empty_msg\<lparr>m_isFull := True, m_fullDone := True, m_nodes := [sample_vnode ''h'']\<rparr>"

definition sample_replaying :: sstate where
  "sample_replaying = sample_sstate\<lparr>replayMode := (replayMode sample_sstate)\<lparr>rm_active := True,
     rm_currentFile := Some ''a.pcap'', rm_durationSeconds := 60\<rparr>\<rparr>"

lemma sample_replaying_facts: "in_replay sample_replaying" "replayRequestSeq sample_replaying = 0"
  "rm_currentFile (replayMode sample_replaying) = Some ''a.pcap''" "rm_durationSeconds (replayMode sample_replaying) = 60"
  by (simp_all add: sample_replaying_def in_replay_def)

theorem onopen_resyncs_witness: "SetTimeline 1 100 60 \<in> set (sent (onopen 0 sample_sstate))"
  using onopen_resyncs [of sample_sstate 0] by (simp add: tl_msg_def initial_timeline_def)


theorem play_ends_witness: "tl_t (tl ((play_tick ^^ 359) (toggleTimelinePlay sample_sstate))) = 700"
  using play_ends [of sample_sstate] by (simp add: initial_timeline_def)

theorem newest_scrub_wins_witness:
  "replay_reply 1 (Body sample_reply) (fold (\<lambda>(n, r). replay_reply n r) [(0, Body sample_reply)] (loadReplayDataAtOffset 30 sample_replaying))
     = updateGraph sample_reply (loadReplayDataAtOffset 30 sample_replaying)"
  using newest_scrub_wins [of sample_replaying "[(0, Body sample_reply)]" sample_reply 30]
  by (simp add: sample_replaying_facts is_body_def)

theorem late_replay_reply_pollutes_live_witness:
  "node_ids (replay_reply 0 (Body sample_reply) (exitReplayMode sample_replaying)) = {''h''}"
  using late_replay_reply_pollutes_live [of sample_reply sample_replaying]
  by (simp add: sample_replaying_facts sample_reply_def empty_msg_def sample_vnode_def)

theorem scrub_settles_witness:
  "let s' = fold scrub [(0, 10), (20, 50)] sample_replaying in
     last (log (if replayFetchTimerSet s' then replayTimer_fires s' else s')) = Ask (GetReplay ''a.pcap'' 30)"
  using scrub_settles [of sample_replaying "[(0, 10), (20, 50)]"] by (simp add: sample_replaying_facts Let_def split: if_splits)

theorem two_live_sockets_witness:
  "ws_live (onopen 2 (reconnect_fires (onopen 1 (onclose 0
     (exitReplayMode (enterReplayMode ''a.pcap'' (Some sample_pcap) sample_sstate)))))) = [1, 2]"
  using two_live_sockets [of sample_sstate 0 "''a.pcap''" sample_pcap] by (simp add: eval_nat_numeral)

end
