(* ===== verification/Streams.thy ===== *)
theory Streams
  imports Session
begin

text \<open>
  Reassembled streams (\<^verbatim>\<open>static/app.js\<close>): the stream list with its protocol filter, the
  detail window with its three tabs, and dragging and resizing that window.
\<close>

section \<open>State\<close>

record stream_info =
  st_id :: string
  st_protocol :: string
  st_type :: string
  st_srcIp :: string
  st_srcPort :: nat
  st_dstIp :: string
  st_dstPort :: nat
  st_summary :: string
  st_packetCount :: nat
  st_byteCount :: nat
  st_startTime :: real
  st_lastSeen :: real

record stream_packet =
  sp_request :: bool              \<comment> \<open>\<^verbatim>\<open>direction === 'request'\<close>\<close>
  sp_timestamp :: real
  sp_payload :: string            \<comment> \<open>base64\<close>
  sp_length :: nat

record stream_data = stream_info +
  st_decodedContent :: string
  st_requestHex :: string
  st_responseHex :: string
  st_packets :: "stream_packet list"

record rect =
  rc_left :: real
  rc_top :: real
  rc_width :: real
  rc_height :: real

text \<open>
  Following a pointer: the pair of listeners that \<^verbatim>\<open>startTracking\<close> puts on the document, with the
  start of the gesture and the window's rectangle it captured.
\<close>

datatype gesture = Drag | Resize

record tracking =
  tr_gesture :: gesture
  tr_start :: "real \<times> real"
  tr_orig :: rect

record ustate = sstate +
  currentStreamData :: "stream_data option"
  currentStreamTab :: string
  sw_rect :: rect                 \<comment> \<open>\<^verbatim>\<open>getBoundingClientRect\<close> of the detail window\<close>
  sw_positioned :: bool           \<comment> \<open>\<^verbatim>\<open>dataset.positioned\<close>\<close>
  sw_tracks :: "tracking list"    \<comment> \<open>in the order the listeners were added\<close>

section \<open>The detail window follows the pointer\<close>

text \<open>\<^verbatim>\<open>Math.max(min, Math.min(max, v))\<close>\<close>

definition clamp_to :: "real \<Rightarrow> real \<Rightarrow> real \<Rightarrow> real" where
  "clamp_to v lo hi = max lo (min hi v)"

text \<open>
  \<^verbatim>\<open>ensureExplicitPosition\<close> writes the rectangle the window has into its inline style, so the
  rectangle itself stays as it is.
\<close>

definition ensureExplicitPosition :: "'a ustate_scheme \<Rightarrow> 'a ustate_scheme" where
  "ensureExplicitPosition s = s\<lparr>sw_positioned := True\<rparr>"

definition startTracking :: "gesture \<Rightarrow> real \<times> real \<Rightarrow> 'a ustate_scheme \<Rightarrow> 'a ustate_scheme" where
  "startTracking g p s =
     (let s = ensureExplicitPosition s
      in s\<lparr>sw_tracks := sw_tracks s @ [\<lparr> tr_gesture = g, tr_start = p, tr_orig = sw_rect s \<rparr>]\<rparr>)"

definition header_pressed :: "bool \<Rightarrow> real \<times> real \<Rightarrow> 'a ustate_scheme \<Rightarrow> 'a ustate_scheme" where
  "header_pressed onClose p s = (if onClose then s else startTracking Drag p s)"

definition handle_pressed :: "real \<times> real \<Rightarrow> 'a ustate_scheme \<Rightarrow> 'a ustate_scheme" where
  "handle_pressed p s = startTracking Resize p s"

definition dragged :: "real \<times> real \<Rightarrow> real \<times> real \<Rightarrow> rect \<Rightarrow> rect \<Rightarrow> rect" where
  "dragged win d orig r =
     r\<lparr>rc_left := clamp_to (rc_left orig + fst d) 0 (fst win - 80),
       rc_top := clamp_to (rc_top orig + snd d) 0 (snd win - 48)\<rparr>"

definition resized :: "real \<times> real \<Rightarrow> real \<times> real \<Rightarrow> rect \<Rightarrow> rect \<Rightarrow> rect" where
  "resized win d orig r =
     r\<lparr>rc_width := clamp_to (rc_width orig + fst d) 420 (fst win - rc_left orig),
       rc_height := clamp_to (rc_height orig + snd d) 320 (snd win - rc_top orig)\<rparr>"

definition track_move :: "real \<times> real \<Rightarrow> real \<times> real \<Rightarrow> tracking \<Rightarrow> rect \<Rightarrow> rect" where
  "track_move win p t =
     (let d = (fst p - fst (tr_start t), snd p - snd (tr_start t))
      in case tr_gesture t of Drag \<Rightarrow> dragged win d (tr_orig t) | Resize \<Rightarrow> resized win d (tr_orig t))"

definition pointer_moved :: "real \<times> real \<Rightarrow> 'a ustate_scheme \<Rightarrow> 'a ustate_scheme" where
  "pointer_moved p s = s\<lparr>sw_rect := fold (track_move (innerWidth s, innerHeight s) p) (sw_tracks s) (sw_rect s)\<rparr>"

definition pointer_up :: "'a ustate_scheme \<Rightarrow> 'a ustate_scheme" where
  "pointer_up s = s\<lparr>sw_tracks := []\<rparr>"

section \<open>The stream list\<close>

definition setupStreams :: "'a ustate_scheme \<Rightarrow> 'a ustate_scheme" where
  "setupStreams s = upd_el ''streamProtocolFilter'' (el_value (storage_get ''streamProtocolFilter'' [] s)) s"

definition loadStreams :: "string \<Rightarrow> 'a world_scheme \<Rightarrow> 'a world_scheme" where
  "loadStreams protocol s =
     (if \<not> has_el ''streamsList'' s then s
      else emit (Ask (GetStreams protocol))
             (upd_el ''streamsList'' (el_html (div_c ''loading'' ''Loading streams...'')) s))"

definition protocolFilter_changed :: "string \<Rightarrow> 'a world_scheme \<Rightarrow> 'a world_scheme" where
  "protocolFilter_changed v s =
     loadStreams v (storage_set ''streamProtocolFilter'' v (upd_el ''streamProtocolFilter'' (el_value v) s))"

definition refreshStreams_click :: "'a world_scheme \<Rightarrow> 'a world_scheme" where
  "refreshStreams_click s = loadStreams (value_of ''streamProtocolFilter'' s) s"

definition endpoint :: "string \<Rightarrow> nat \<Rightarrow> string" where
  "endpoint ip port = ip @ '':'' @ show_nat port"

definition renderStreamItem :: "real \<Rightarrow> 'a stream_info_scheme \<Rightarrow> string" where
  "renderStreamItem nowMs stream =
     (let protocolClass = filter (\<lambda>c. \<not> is_space c) (to_lower (st_protocol stream))
      in tag ''div'' [(''class'', ''stream-item''), (''data-stream-id'', escapeHtml (st_id stream))]
           (div_c ''stream-item-header''
              (span_c (''stream-protocol '' @ protocolClass) (escapeHtml (st_protocol stream))
               @ span_c ''stream-type'' (escapeHtml (st_type stream)))
            @ div_c ''stream-endpoints''
                (endpoint (escapeHtml (st_srcIp stream)) (st_srcPort stream) @ '' '' @ arrow_right @ '' ''
                 @ endpoint (escapeHtml (st_dstIp stream)) (st_dstPort stream))
            @ div_c ''stream-summary'' (escapeHtml (or_else (st_summary stream) ''No summary''))
            @ div_c ''stream-meta''
                (span (show_nat (st_packetCount stream) @ '' packets'') @ span (formatBytes (st_byteCount stream))
                 @ span (formatTimeAgo nowMs (st_lastSeen stream)))))"

definition streams_empty :: "string \<Rightarrow> string" where
  "streams_empty msg = div_c ''streams-empty'' msg"

definition loadStreams_reply :: "stream_info list reply \<Rightarrow> 'a world_scheme \<Rightarrow> 'a world_scheme" where
  "loadStreams_reply r s =
     (case r of
        Body streams \<Rightarrow>
          let s = upd_el ''streamCount'' (el_text (show_nat (length streams))) s
          in upd_el ''streamsList''
               (el_html (if streams = [] then streams_empty ''No streams captured yet''
                         else concat (map (renderStreamItem (now s)) streams))) s
      | _ \<Rightarrow> upd_el ''streamsList'' (el_html (streams_empty ''Failed to load streams''))
               (emit (Warn ''Failed to load streams:'') s))"

section \<open>The detail window\<close>

definition truncateBase64 :: "string \<Rightarrow> nat \<Rightarrow> string" where
  "truncateBase64 base64Data maxChars =
     (case atob base64Data of
        None \<Rightarrow> ''(Unable to decode)''
      | Some binary \<Rightarrow>
          map (\<lambda>b. if 32 \<le> b \<and> b < 127 then char_of b else CHR ''.'') (take maxChars binary)
          @ (if maxChars < length binary then ''...'' else []))"

definition stream_packet_text :: "(real \<Rightarrow> string) \<Rightarrow> nat \<times> stream_packet \<Rightarrow> string" where
  "stream_packet_text timeText ip =
     (let (idx, pkt) = ip
      in ''['' @ show_nat (idx + 1) @ ''] '' @ (if sp_request pkt then ''Request'' else ''Response'') @ '' - ''
         @ timeText (sp_timestamp pkt) @ '' - '' @ show_nat (sp_length pkt) @ '' bytes'' @ newline
         @ (if sp_payload pkt \<noteq> [] then truncateBase64 (sp_payload pkt) 100 else ''(empty)'') @ newline)"

definition raw_text :: "stream_data \<Rightarrow> string" where
  "raw_text d =
     (if st_requestHex d \<noteq> [] then ''=== REQUEST DATA ==='' @ newline @ st_requestHex d else [])
     @ (if st_responseHex d \<noteq> [] then newline @ ''=== RESPONSE DATA ==='' @ newline @ st_responseHex d else [])"

text \<open>What a tab shows of a stream; \<open>None\<close> for a tab the switch does not list.\<close>

definition tab_text :: "(real \<Rightarrow> string) \<Rightarrow> string \<Rightarrow> stream_data \<Rightarrow> string option" where
  "tab_text timeText name d =
     (if name = ''decoded'' then Some (or_else (st_decodedContent d) ''No decoded content available'')
      else if name = ''raw'' then Some (or_else (raw_text d) ''No raw data available'')
      else if name = ''packets'' then
        Some (if st_packets d = [] then ''No packets recorded''
              else join newline (map (stream_packet_text timeText) (zip [0..<length (st_packets d)] (st_packets d))))
      else None)"

definition renderStreamContent :: "'a ustate_scheme \<Rightarrow> 'a ustate_scheme" where
  "renderStreamContent s =
     (case currentStreamData s of
        None \<Rightarrow> s
      | Some d \<Rightarrow>
          (case tab_text (localeTime s) (currentStreamTab s) d of
             None \<Rightarrow> s
           | Some t \<Rightarrow> upd_el ''streamContentPre'' (el_text t) s))"

definition mark_tab :: "string \<Rightarrow> 'a world_scheme \<Rightarrow> 'a world_scheme" where
  "mark_tab name s = for_class ''stream-tab'' (\<lambda>k e. force_class ''active'' (e_data e ''streamTab'' = name) e) s"

definition switchStreamTab :: "string \<Rightarrow> 'a ustate_scheme \<Rightarrow> 'a ustate_scheme" where
  "switchStreamTab name s = renderStreamContent (mark_tab name (s\<lparr>currentStreamTab := name\<rparr>))"

definition meta_item :: "string \<Rightarrow> string \<Rightarrow> string" where
  "meta_item label value =
     div_c ''stream-meta-item'' (span_c ''stream-meta-label'' label @ span_c ''stream-meta-value'' value)"

definition stream_meta_html :: "(real \<Rightarrow> string) \<Rightarrow> stream_data \<Rightarrow> string" where
  "stream_meta_html dateTime d =
     meta_item ''Type'' (escapeHtml (st_type d)) @ meta_item ''Packets'' (show_nat (st_packetCount d))
     @ meta_item ''Bytes'' (formatBytes (st_byteCount d)) @ meta_item ''Started'' (dateTime (st_startTime d))
     @ meta_item ''Last Seen'' (dateTime (st_lastSeen d))"

text \<open>The words of a \<^verbatim>\<open>className\<close>.\<close>

definition class_words :: "string \<Rightarrow> string set" where
  "class_words s = set (filter (\<lambda>w. w \<noteq> []) (split_on (CHR '' '') s))"

definition fill_stream_detail :: "stream_data \<Rightarrow> 'a ustate_scheme \<Rightarrow> 'a ustate_scheme" where
  "fill_stream_detail d s =
     (let s = upd_el ''streamDetailTitle'' (el_text (endpoint (st_srcIp d) (st_srcPort d) @ '' '' @ arrow_right @ '' ''
                @ endpoint (st_dstIp d) (st_dstPort d))) s;
          s = upd_el ''streamProtocolBadge''
                (\<lambda>e. (el_text (st_protocol d) e)\<lparr>e_classes := class_words (''stream-protocol-badge '' @ to_lower (st_protocol d))\<rparr>) s
      in upd_el ''streamDetailMeta'' (el_html (stream_meta_html (localeDateTime s) d)) s)"

definition openStreamDetail :: "string \<Rightarrow> 'a world_scheme \<Rightarrow> 'a world_scheme" where
  "openStreamDetail streamId s =
     (if has_el ''streamDetailPanel'' s then emit (Ask (GetStream streamId)) s else s)"

definition openStreamDetail_reply :: "stream_data reply \<Rightarrow> 'a ustate_scheme \<Rightarrow> 'a ustate_scheme" where
  "openStreamDetail_reply r s =
     (case r of
        Body d \<Rightarrow>
          let s = fill_stream_detail d (s\<lparr>currentStreamData := Some d\<rparr>);
              s = renderStreamContent (mark_tab ''decoded'' (s\<lparr>currentStreamTab := ''decoded''\<rparr>));
              s = upd_el ''streamDetailPanel'' (el_style ''display'' ''flex'') s
          in upd_el ''modalBackdrop'' (el_style ''display'' ''block'') s
      | _ \<Rightarrow> emit (Warn ''Failed to load stream details:'') s)"

definition closeStreamDetail :: "'a ustate_scheme \<Rightarrow> 'a ustate_scheme" where
  "closeStreamDetail s =
     (let s = upd_el ''streamDetailPanel'' (el_style ''display'' ''none'') s;
          s = (if \<not> has_class ''detailsPanel'' ''open'' s
               then upd_el ''modalBackdrop'' (el_style ''display'' ''none'') s else s)
      in s\<lparr>currentStreamData := None\<rparr>)"

section \<open>The window shows the chosen tab of the chosen stream\<close>

text \<open>What can happen to the detail window once the page is set up.\<close>

inductive stream_step :: "'a ustate_scheme \<Rightarrow> 'a ustate_scheme \<Rightarrow> bool" where
  opened: "stream_step s (openStreamDetail_reply r s)"
| switched: "name \<in> {''decoded'', ''raw'', ''packets''} \<Longrightarrow> stream_step s (switchStreamTab name s)"
| closed: "stream_step s (closeStreamDetail s)"

inductive_cases stream_stepE: "stream_step s s'"

definition tab_elem :: "string \<Rightarrow> elem \<Rightarrow> bool" where
  "tab_elem k e = (k \<noteq> ''streamProtocolBadge'' \<and> ''stream-tab'' \<in> e_classes e)"

definition stream_shown :: "'a ustate_scheme \<Rightarrow> bool" where
  "stream_shown s =
     (has_el ''streamContentPre'' s
      \<and> (\<forall>k e. dom s k = Some e \<longrightarrow> tab_elem k e \<longrightarrow> (''active'' \<in> e_classes e) = (e_data e ''streamTab'' = currentStreamTab s))
      \<and> (\<forall>d. currentStreamData s = Some d \<longrightarrow>
            tab_text (localeTime s) (currentStreamTab s) d = Some (text_of ''streamContentPre'' s)))"

text \<open>An update that keeps the classes and attributes of every tab keeps the marked tab.\<close>

lemma tabs_upd_el:
  assumes "\<And>e. tab_elem k (f e) = tab_elem k e \<and> (tab_elem k e \<longrightarrow> e_classes (f e) = e_classes e \<and> e_data (f e) = e_data e)"
  shows "(\<forall>j e. dom (upd_el k f s) j = Some e \<longrightarrow> tab_elem j e \<longrightarrow> P (e_classes e) (e_data e))
    = (\<forall>j e. dom s j = Some e \<longrightarrow> tab_elem j e \<longrightarrow> P (e_classes e) (e_data e))"
  using assms by (auto simp: world_simps)

lemma tab_elem_plain [simp]: "tab_elem k (el_text t e) = tab_elem k e" "tab_elem k (el_style p v e) = tab_elem k e"
  "tab_elem k (el_html h e) = tab_elem k e"
  by (simp_all add: tab_elem_def elem_defs)

lemma plain_classes [simp]:
  "e_classes (el_text t e) = e_classes e" "e_data (el_text t e) = e_data e"
  "e_classes (el_style p v e) = e_classes e" "e_data (el_style p v e) = e_data e"
  "e_classes (el_html h e) = e_classes e" "e_data (el_html h e) = e_data e"
  by (simp_all add: elem_defs)

definition tabs_at :: "string \<Rightarrow> 'a world_scheme \<Rightarrow> bool" where
  "tabs_at name s = (\<forall>k e. dom s k = Some e \<longrightarrow> tab_elem k e \<longrightarrow> (''active'' \<in> e_classes e) = (e_data e ''streamTab'' = name))"

lemma tabs_at_plain [simp]:
  "tabs_at n (upd_el k (el_text t) s) = tabs_at n s" "tabs_at n (upd_el k (el_style p v) s) = tabs_at n s"
  "tabs_at n (upd_el k (el_html h) s) = tabs_at n s" "tabs_at n (emit ev s) = tabs_at n s"
  unfolding tabs_at_def by (rule tabs_upd_el, simp)+ (simp add: world_simps)

lemma force_class_spec [simp]:
  "c \<in> e_classes (force_class c on e) \<longleftrightarrow> on" "e_data (force_class c on e) = e_data e"
  "c' \<noteq> c \<Longrightarrow> c' \<in> e_classes (force_class c on e) \<longleftrightarrow> c' \<in> e_classes e"
  by (simp_all add: force_class_def add_class_def remove_class_def)

lemma tabs_at_mark: "tabs_at n (mark_tab n s)"
  unfolding tabs_at_def
proof (intro allI impI)
  fix k e assume e: "dom (mark_tab n s) k = Some e" and t: "tab_elem k e"
  then obtain e' where e': "dom s k = Some e'"
    "e = (if ''stream-tab'' \<in> e_classes e' then force_class ''active'' (e_data e' ''streamTab'' = n) e' else e')"
    by (auto simp: mark_tab_def world_simps)
  then have "''stream-tab'' \<in> e_classes e'" using t by (simp add: tab_elem_def split: if_splits)
  then show "(''active'' \<in> e_classes e) = (e_data e ''streamTab'' = n)" using e'(2) by simp
qed

lemma shown_text [simp]:
  "has_el k s \<Longrightarrow> text_of k (upd_el k (el_text t) s) = t"
  by (auto simp: has_el_def text_of_def world_simps el_text_def html_of_def)

lemma text_other [simp]:
  "j \<noteq> k \<Longrightarrow> text_of j (upd_el k f s) = text_of j s" "has_el j (upd_el k f s) = has_el j s"
  "has_el j (mark_tab n s) = has_el j s" "has_el j (emit ev s) = has_el j s" "text_of j (emit ev s) = text_of j s"
  by (simp_all add: has_el_def text_of_def world_simps mark_tab_def)

text \<open>What the window's variables are after rendering.\<close>

definition stream_vars :: "'a ustate_scheme \<Rightarrow> stream_data option \<times> string \<times> (real \<Rightarrow> string)" where
  "stream_vars s = (currentStreamData s, currentStreamTab s, localeTime s)"

lemma stream_vars_page [simp]:
  "stream_vars (upd_el k f s) = stream_vars s" "stream_vars (emit ev s) = stream_vars s"
  "stream_vars (mark_tab n s) = stream_vars s"
  by (simp_all add: stream_vars_def page_defs mark_tab_def)

lemma stream_shown_iff: "stream_shown s \<longleftrightarrow> has_el ''streamContentPre'' s
    \<and> (case stream_vars s of (d, n, timeText) \<Rightarrow> tabs_at n s
        \<and> (\<forall>x. d = Some x \<longrightarrow> tab_text timeText n x = Some (text_of ''streamContentPre'' s)))"
  by (simp add: stream_shown_def stream_vars_def tabs_at_def)

lemma render_shown:
  assumes "has_el ''streamContentPre'' s" and "tabs_at (currentStreamTab s) s"
    and "currentStreamTab s \<in> {''decoded'', ''raw'', ''packets''}"
  shows "stream_shown (renderStreamContent s)" and "stream_vars (renderStreamContent s) = stream_vars s"
proof -
  have "tab_text (localeTime s) (currentStreamTab s) d \<noteq> None" for d using assms(3) by (auto simp: tab_text_def)
  then obtain t where "\<And>d. currentStreamData s = Some d \<Longrightarrow> tab_text (localeTime s) (currentStreamTab s) d = Some t"
    by (cases "currentStreamData s") auto
  then show "stream_shown (renderStreamContent s)" using assms(1,2)
    by (cases "currentStreamData s") (auto simp: renderStreamContent_def stream_shown_iff stream_vars_def [of s])
  show "stream_vars (renderStreamContent s) = stream_vars s"
    by (simp add: renderStreamContent_def split: option.splits)
qed

lemma shown_page: "k \<noteq> ''streamContentPre'' \<Longrightarrow> stream_shown (upd_el k (el_style p v) s) = stream_shown s"
  by (simp add: stream_shown_iff)

lemma step_shown: "stream_step s s' \<Longrightarrow> stream_shown s \<Longrightarrow> stream_shown s'"
proof (induction rule: stream_step.induct)
  case (opened s r)
  show ?case
  proof (cases r)
    case (Body d)
    define t where "t = mark_tab ''decoded'' ((fill_stream_detail d (s\<lparr>currentStreamData := Some d\<rparr>))\<lparr>currentStreamTab := ''decoded''\<rparr>)"
    have "has_el ''streamContentPre'' (u\<lparr>currentStreamTab := n\<rparr>) = has_el ''streamContentPre'' u"
      "has_el ''streamContentPre'' (u\<lparr>currentStreamData := x\<rparr>) = has_el ''streamContentPre'' u"
      for u :: "'a ustate_scheme" and n x by (simp_all add: has_el_def)
    then have "has_el ''streamContentPre'' t" using opened
      by (simp add: t_def fill_stream_detail_def Let_def stream_shown_def)
    moreover have tab: "currentStreamTab t = ''decoded''" by (simp add: t_def mark_tab_def for_class_def)
    moreover have "tabs_at ''decoded'' t" by (simp add: t_def tabs_at_mark)
    ultimately have "stream_shown (renderStreamContent t)" by (intro render_shown) simp_all
    then show ?thesis using Body
      by (simp add: openStreamDetail_reply_def Let_def t_def [symmetric] shown_page)
  qed (use opened in \<open>simp_all add: openStreamDetail_reply_def stream_shown_iff\<close>)
next
  case (switched name s)
  define t where "t = mark_tab name (s\<lparr>currentStreamTab := name\<rparr>)"
  have "has_el ''streamContentPre'' t" using switched by (simp add: t_def stream_shown_def) (simp add: has_el_def)
  moreover have "currentStreamTab t = name" by (simp add: t_def mark_tab_def for_class_def)
  moreover have "tabs_at name t" by (simp add: t_def tabs_at_mark)
  ultimately show ?case using switched render_shown [of t] by (simp add: switchStreamTab_def t_def [symmetric])
next
  case (closed s)
  have "stream_shown (u\<lparr>currentStreamData := None\<rparr>)" if "stream_shown u" for u :: "'a ustate_scheme"
    using that by (auto simp: stream_shown_def has_el_def)
  then show ?case using closed by (simp add: closeStreamDetail_def Let_def shown_page)
qed

text \<open>
  C24: whatever streams are opened, closed and switched between, the tab that is marked is the current
  one and the text shown is that tab's text of the current stream.
\<close>

theorem stream_window_shows_tab: "stream_step\<^sup>*\<^sup>* s s' \<Longrightarrow> stream_shown s \<Longrightarrow> stream_shown s'"
  by (induction rule: rtranclp_induct) (simp_all add: step_shown)

text \<open>
  Lemma: the reply to an earlier request is shown whenever it arrives: over the stream that was opened
  after it, and after the window was closed, which opens it again.
\<close>

theorem late_stream_reply_shown:
  fixes s :: "'a ustate_scheme" and d :: stream_data
  assumes "has_el ''streamDetailPanel'' s"
  defines "s' \<equiv> openStreamDetail_reply (Body d) s"
  shows "currentStreamData s' = Some d \<and> style_of ''streamDetailPanel'' ''display'' s' = ''flex''
    \<and> currentStreamData (openStreamDetail_reply (Body d) (openStreamDetail_reply (Body d') s)) = Some d
    \<and> style_of ''streamDetailPanel'' ''display'' (openStreamDetail_reply (Body d) (closeStreamDetail s)) = ''flex''"
proof -
  have el: "has_el ''streamDetailPanel'' (u\<lparr>currentStreamTab := n\<rparr>) = has_el ''streamDetailPanel'' u"
    "has_el ''streamDetailPanel'' (u\<lparr>currentStreamData := x\<rparr>) = has_el ''streamDetailPanel'' u"
    for u :: "'a ustate_scheme" and n x by (simp_all add: has_el_def)
  have ren: "has_el ''streamDetailPanel'' (renderStreamContent u) = has_el ''streamDetailPanel'' u"
    "stream_vars (renderStreamContent u) = stream_vars u" for u :: "'a ustate_scheme"
    by (simp_all add: renderStreamContent_def split: option.splits)
  have f: "currentStreamData (fill_stream_detail d u) = currentStreamData u"
    "has_el ''streamDetailPanel'' (fill_stream_detail d u) = has_el ''streamDetailPanel'' u" for d and u :: "'a ustate_scheme"
    by (simp_all add: fill_stream_detail_def Let_def) (simp add: upd_el_def)
  have data: "currentStreamData (openStreamDetail_reply (Body d) u) = Some d" for d and u :: "'a ustate_scheme"
  proof -
    have "stream_vars (openStreamDetail_reply (Body d) u)
        = stream_vars ((fill_stream_detail d (u\<lparr>currentStreamData := Some d\<rparr>))\<lparr>currentStreamTab := ''decoded''\<rparr>)"
      by (simp add: openStreamDetail_reply_def Let_def ren)
    then show ?thesis by (simp add: stream_vars_def f)
  qed
  have open_again: "style_of ''streamDetailPanel'' ''display'' (openStreamDetail_reply (Body d) u) = ''flex''"
    if "has_el ''streamDetailPanel'' u" for d and u :: "'a ustate_scheme"
    using that by (simp add: openStreamDetail_reply_def Let_def style_of_upd_el_other el ren f)
  have "has_el ''streamDetailPanel'' (closeStreamDetail s)" using assms(1) by (simp add: closeStreamDetail_def Let_def el)
  then show ?thesis using assms(1) by (simp add: s'_def data open_again)
qed

section \<open>The window stays where it can be grabbed\<close>

inductive window_step :: "'a ustate_scheme \<Rightarrow> 'a ustate_scheme \<Rightarrow> bool" where
  header: "window_step s (header_pressed onClose p s)"
| handle: "window_step s (handle_pressed p s)"
| move: "window_step s (pointer_moved p s)"
| up: "window_step s (pointer_up s)"

text \<open>At least 80 pixels of the header are on screen, and the window is not smaller than its minimum.\<close>

definition grabbable :: "real \<times> real \<Rightarrow> rect \<Rightarrow> bool" where
  "grabbable win r =
     (0 \<le> rc_left r \<and> rc_left r \<le> fst win - 80 \<and> 0 \<le> rc_top r \<and> rc_top r \<le> snd win - 48
      \<and> 420 \<le> rc_width r \<and> 320 \<le> rc_height r)"

definition window_vars :: "'a ustate_scheme \<Rightarrow> (real \<times> real) \<times> rect" where
  "window_vars s = ((innerWidth s, innerHeight s), sw_rect s)"

lemma window_vars_pressed [simp]:
  "window_vars (header_pressed b p s) = window_vars s" "window_vars (handle_pressed p s) = window_vars s"
  "window_vars (pointer_up s) = window_vars s"
  by (simp_all add: window_vars_def header_pressed_def handle_pressed_def startTracking_def ensureExplicitPosition_def
      pointer_up_def Let_def)

lemma window_vars_moved:
  "window_vars (pointer_moved p s) = (fst (window_vars s), fold (track_move (fst (window_vars s)) p) (sw_tracks s) (snd (window_vars s)))"
  by (simp add: window_vars_def pointer_moved_def)

lemma track_grabbable:
  assumes "80 \<le> fst win" and "48 \<le> snd win" and "grabbable win r"
  shows "grabbable win (track_move win p t r)"
  using assms by (auto simp: grabbable_def track_move_def dragged_def resized_def clamp_to_def Let_def split: gesture.split)

lemma tracks_grabbable:
  assumes "80 \<le> fst win" and "48 \<le> snd win"
  shows "grabbable win r \<Longrightarrow> grabbable win (fold (track_move win p) ts r)"
  using assms by (induction ts arbitrary: r) (simp_all add: track_grabbable)

lemma window_step_vars:
  assumes "window_step s s'" and "80 \<le> fst (fst (window_vars s))" and "48 \<le> snd (fst (window_vars s))"
  shows "fst (window_vars s') = fst (window_vars s)
    \<and> (grabbable (fst (window_vars s)) (snd (window_vars s)) \<longrightarrow> grabbable (fst (window_vars s)) (snd (window_vars s')))"
  using assms by (induction rule: window_step.induct) (simp_all add: window_vars_moved tracks_grabbable)

text \<open>
  C25: however the stream window is dragged and resized, by any number of pointers, at least 80 pixels of
  its header stay on screen and it keeps its minimum size; a drag brings a lost window back, and resizing
  alone never pushes the right or lower edge past the screen unless the minimum size does.
\<close>

theorem stream_window_grabbable:
  assumes "80 \<le> innerWidth s" and "48 \<le> innerHeight s"
  defines "win \<equiv> (innerWidth s, innerHeight s)"
  shows "(window_step\<^sup>*\<^sup>* s s' \<longrightarrow> grabbable win (sw_rect s) \<longrightarrow> grabbable win (sw_rect s'))
    \<and> (let r = dragged win d orig r0 in 0 \<le> rc_left r \<and> rc_left r \<le> fst win - 80 \<and> 0 \<le> rc_top r \<and> rc_top r \<le> snd win - 48)
    \<and> (let r = resized win d orig orig in rc_left r + rc_width r \<le> max (fst win) (rc_left orig + 420)
        \<and> rc_top r + rc_height r \<le> max (snd win) (rc_top orig + 320))"
proof -
  have "fst (window_vars s') = win \<and> (grabbable win (sw_rect s) \<longrightarrow> grabbable win (snd (window_vars s')))"
    if "window_step\<^sup>*\<^sup>* s s'"
    using that
  proof (induction rule: rtranclp_induct)
    case (step t u)
    then show ?case using window_step_vars [OF step(2)] assms by simp
  qed (simp add: window_vars_def win_def)
  then show ?thesis using assms(1,2)
    by (auto simp: window_vars_def dragged_def resized_def clamp_to_def win_def Let_def)
qed

section \<open>What the list shows\<close>

lemma opens_lower: "CHR ''<'' \<notin> set s \<Longrightarrow> CHR ''<'' \<notin> set (to_lower s)"
proof -
  have "to_lower_char c = CHR ''<'' \<Longrightarrow> c = CHR ''<''" for c
    by (auto simp: to_lower_char_def Let_def char_of_eq_iff take_bit_nat_eq_self split: if_splits)
  then show "CHR ''<'' \<notin> set s \<Longrightarrow> CHR ''<'' \<notin> set (to_lower s)" by (force simp: to_lower_def)
qed

text \<open>
  Lemma: nothing a captured stream contains (its id, type, addresses and summary) adds a tag to its entry
  in the list: the entry has its ten elements and no others.
\<close>

theorem stream_item_escaped:
  assumes "CHR ''<'' \<notin> set (st_protocol stream)"
  shows "opens (renderStreamItem nowMs stream) = 20"
proof -
  have "opens (filter (\<lambda>c. \<not> is_space c) (to_lower (st_protocol stream))) = 0"
    using opens_lower [OF assms] by (simp add: opens_def count_list_0_iff)
  moreover have "opens (show_int i) = 0" for i by (simp add: show_int_def)
  moreover have "opens (to_fixed1 n m) = 0" for n m
    by (simp add: to_fixed1_def show_tenths_def Let_def)
  ultimately show ?thesis
    by (simp add: renderStreamItem_def Let_def div_c_def span_c_def span_def opens_tag endpoint_def formatBytes_def
        formatTimeAgo_def)
qed

text \<open>
  Lemma: the preview of a payload is the printable reading of the bytes the server encoded, cut at the limit.
\<close>

theorem payload_preview_roundtrip:
  assumes "\<forall>b \<in> set bs. b < 256"
  shows "truncateBase64 (b64_encode bs) n =
    map (\<lambda>b. if 32 \<le> b \<and> b < 127 then char_of b else CHR ''.'') (take n bs) @ (if n < length bs then ''...'' else [])"
  using atob_encode [OF assms(1)] by (simp add: truncateBase64_def)

section \<open>Examples\<close>

definition sample_ustate :: ustate where
  "sample_ustate = sstate.extend (sample_sstate\<lparr>innerWidth := 1000, innerHeight := 800,
       dom := [''streamContentPre'' \<mapsto> fresh_elem, ''streamDetailPanel'' \<mapsto> fresh_elem]\<rparr>)
     (ustate.fields None ''decoded'' \<lparr> rc_left = 100, rc_top = 50, rc_width = 600, rc_height = 400 \<rparr> False [])"

lemma sample_ustate_fields [simp]:
  "innerWidth sample_ustate = 1000" "innerHeight sample_ustate = 800" "currentStreamData sample_ustate = None"
  "sw_rect sample_ustate = \<lparr> rc_left = 100, rc_top = 50, rc_width = 600, rc_height = 400 \<rparr>"
  "dom sample_ustate = [''streamContentPre'' \<mapsto> fresh_elem, ''streamDetailPanel'' \<mapsto> fresh_elem]"
  by (simp_all add: sample_ustate_def sstate.extend_def sstate.defs ustate.defs)

definition sample_stream :: stream_data where
  "sample_stream = \<lparr> st_id = ''s1'', st_protocol = ''HTTP'', st_type = ''tcp'', st_srcIp = ''10.0.0.1'', st_srcPort = 5000,
     st_dstIp = ''10.0.0.2'', st_dstPort = 80, st_summary = ''<b>GET</b>'', st_packetCount = 4, st_byteCount = 900,
     st_startTime = 0, st_lastSeen = 1000, st_decodedContent = ''GET /'', st_requestHex = ''47'', st_responseHex = [],
     st_packets = [] \<rparr>"

theorem stream_window_shows_tab_witness:
  "stream_shown (switchStreamTab ''raw'' (openStreamDetail_reply (Body sample_stream) sample_ustate))"
  by (rule stream_window_shows_tab [of sample_ustate], rule rtranclp.rtrancl_into_rtrancl, rule r_into_rtranclp)
    (auto simp: stream_shown_def has_el_def tab_elem_def fresh_elem_def intro: opened switched split: if_splits)

theorem late_stream_reply_shown_witness:
  "style_of ''streamDetailPanel'' ''display'' (openStreamDetail_reply (Body sample_stream) (closeStreamDetail sample_ustate)) = ''flex''"
  using late_stream_reply_shown [of sample_ustate sample_stream] by (simp add: has_el_def)

theorem stream_window_grabbable_witness:
  "grabbable (1000, 800) (sw_rect (pointer_moved (5000, 10) (header_pressed False (150, 60) sample_ustate)))"
proof -
  have "window_step\<^sup>*\<^sup>* sample_ustate (pointer_moved (5000, 10) (header_pressed False (150, 60) sample_ustate))"
    by (blast intro: header move rtranclp.rtrancl_into_rtrancl)
  then show ?thesis
    using stream_window_grabbable [of sample_ustate "pointer_moved (5000, 10) (header_pressed False (150, 60) sample_ustate)"]
    by (simp add: grabbable_def)
qed

theorem stream_item_escaped_witness: "opens (renderStreamItem 60000 sample_stream) = 20"
  by (rule stream_item_escaped) (simp add: sample_stream_def)

theorem payload_preview_roundtrip_witness: "truncateBase64 (b64_encode [72, 105, 0]) 2 = ''Hi...''"
  using payload_preview_roundtrip [of "[72, 105, 0]" 2] by (simp add: char_of_def bit_0)

end
