(* ===== verification/Search.thy ===== *)
theory Search
  imports Streams
begin

text \<open>
  The search box (\<^verbatim>\<open>static/app.js\<close>): the completion shown behind the text, the local scan of
  nodes and edges, the three server searches whose replies are merged into its results, the result list
  and what clicking one does, and bringing a host into view.  A search is a run, numbered by
  \<^verbatim>\<open>serverSearchId\<close>: its array of results outlives the call in the two callbacks that share it.
\<close>

section \<open>State\<close>

record sresult =
  r_nodeId :: string
  r_label :: string
  r_ip :: string
  r_matches :: "(string \<times> string) list"        \<comment> \<open>type and value\<close>
  r_packetCount :: nat
  r_byteCount :: string
  r_subnets :: "string \<times> string"
  r_packetIds :: "nat list"
  r_streamId :: string
  r_replay :: "(real \<times> nat) option"             \<comment> \<open>offset and packet id of a replay match\<close>

record search_run =
  sr_query :: string
  sr_results :: "sresult list"
  sr_payloadId :: nat

record qstate = ustate +
  serverSearchId :: nat
  payloadSearchId :: nat
  searchRuns :: "nat \<Rightarrow> search_run"
  shownResults :: "sresult list"                  \<comment> \<open>the entries of the list on the page\<close>
  searchTimer :: "string option"                  \<comment> \<open>the query the running debounce timer closes over\<close>
  searchFocused :: bool                           \<comment> \<open>\<^verbatim>\<open>document.activeElement === input\<close>\<close>
  ghostSuffix :: string
  numberText :: "real \<Rightarrow> string"                  \<comment> \<open>the language's rendering of a number\<close>

section \<open>The completion behind the text\<close>

definition FILTER_SUGGESTIONS :: "string list" where
  "FILTER_SUGGESTIONS =
     [''ip.addr == '', ''ip.src == '', ''ip.dst == '', ''eth.addr == '', ''tcp.port == '', ''udp.port == '',
      ''host contains '', ''hostname == '', ''dns.qry.name contains '', ''frame contains '',
      ''and '', ''or '', ''not '',
      ''tcp'', ''udp'', ''dns'', ''http'', ''https'', ''tls'', ''icmp'', ''arp'', ''ssh'']"

definition last_token :: "string \<Rightarrow> string" where
  "last_token value = rev (takeWhile (\<lambda>c. \<not> is_space c \<and> c \<noteq> CHR ''('' \<and> c \<noteq> CHR '')'') (rev value))"

definition computeGhostSuffix :: "string \<Rightarrow> string" where
  "computeGhostSuffix value =
     (let frag = last_token value
      in if frag = [] then []
         else case find (\<lambda>s. length frag < length s \<and> prefix (to_lower frag) (to_lower s)) FILTER_SUGGESTIONS of
                None \<Rightarrow> []
              | Some s \<Rightarrow> drop (length frag) s)"

definition ghost_html :: "string \<Rightarrow> string \<Rightarrow> string" where
  "ghost_html value suf =
     tag ''span'' [(''style'', ''visibility: hidden;'')] (escapeHtml value) @ span_c ''ghost-suffix'' (escapeHtml suf)"

definition updateSearchGhost :: "'a qstate_scheme \<Rightarrow> 'a qstate_scheme" where
  "updateSearchGhost s =
     (if \<not> has_el ''searchInput'' s \<or> \<not> has_el ''searchGhost'' s then s
      else
        let v = value_of ''searchInput'' s;
            suf = (if searchFocused s then computeGhostSuffix v else []);
            s = s\<lparr>ghostSuffix := suf\<rparr>;
            n = (\<lambda>p. px (num_of ''searchInput'' p s))
        in if suf = [] then upd_el ''searchGhost'' (el_text []) s
           else upd_el ''searchGhost''
                  (el_html (ghost_html v suf) \<circ> el_style ''line-height'' (n ''offsetHeight'')
                   \<circ> el_style ''height'' (n ''offsetHeight'') \<circ> el_style ''width'' (n ''offsetWidth'')
                   \<circ> el_style ''top'' (n ''offsetTop'') \<circ> el_style ''left'' (n ''offsetLeft'')) s)"

section \<open>The list of results\<close>

definition clearSearch :: "'a world_scheme \<Rightarrow> 'a world_scheme" where
  "clearSearch s =
     (let s = upd_el ''searchInput'' (el_value []) s;
          s = upd_el ''searchClear'' (el_style ''display'' ''none'') s
      in upd_el ''searchResults'' (remove_class ''show'') s)"

text \<open>The stream a result links to: the server's, or that of its first packet in the cache.\<close>

definition result_stream :: "'a pstate_scheme \<Rightarrow> sresult \<Rightarrow> string" where
  "result_stream s r =
     (if r_streamId r \<noteq> [] then r_streamId r
      else case r_packetIds r of
             [] \<Rightarrow> []
           | pid # _ \<Rightarrow> (case map_of (packetCache s) pid of None \<Rightarrow> [] | Some p \<Rightarrow> p_streamId p))"

definition result_tag :: "string \<Rightarrow> string" where
  "result_tag body = span_c ''search-result-tag'' body"

definition result_html :: "'a qstate_scheme \<Rightarrow> string \<Rightarrow> sresult \<Rightarrow> string" where
  "result_html s query r =
     (let stream = result_stream s r;
          attrs = [(''class'', ''search-result-item''), (''data-node-id'', r_nodeId r)]
            @ (if r_packetIds r \<noteq> [] then [(''data-packet-ids'', join '','' (map show_nat (r_packetIds r)))] else [])
            @ (if stream \<noteq> [] then [(''data-stream-id'', stream)] else [])
            @ (case r_replay r of None \<Rightarrow> []
               | Some (off, pid) \<Rightarrow> [(''data-replay-offset'', numberText s off), (''data-replay-packet-id'', show_nat pid)])
      in tag ''div'' attrs
           (div_c ''search-result-title''
              (highlightMatch (r_label r) query
               @ only_if (r_packetIds r \<noteq> [])
                   (tag ''span'' [(''class'', ''search-result-tag''), (''style'', ''background: rgba(52, 152, 219, 0.3);'')] ''Packets'')
               @ only_if (stream \<noteq> [])
                   (tag ''span'' [(''class'', ''search-result-tag search-stream-tag''),
                      (''style'', ''background: rgba(155, 89, 182, 0.3); cursor: pointer;'')] ''Streams''))
            @ div_c ''search-result-subtitle''
                (result_tag (''IP: '' @ highlightMatch (r_ip r) query)
                 @ concat (map (\<lambda>m. result_tag (highlightMatch (snd m) query)) (take 3 (r_matches r)))
                 @ only_if (0 < r_packetCount r) (result_tag (show_nat (r_packetCount r) @ '' packets'')))))"

definition by_relevance :: "sresult list \<Rightarrow> sresult list" where
  "by_relevance rs = sort_key (\<lambda>r. - int (r_packetCount r)) rs"

text \<open>
  \<^verbatim>\<open>displaySearchResults\<close> sorts the run's own array.
\<close>

definition upd_run :: "nat \<Rightarrow> (search_run \<Rightarrow> search_run) \<Rightarrow> 'a qstate_scheme \<Rightarrow> 'a qstate_scheme" where
  "upd_run n f s = s\<lparr>searchRuns := (searchRuns s)(n := f (searchRuns s n))\<rparr>"

definition displaySearchResults :: "nat \<Rightarrow> 'a qstate_scheme \<Rightarrow> 'a qstate_scheme" where
  "displaySearchResults n s =
     (let results = sr_results (searchRuns s n); query = sr_query (searchRuns s n)
      in if results = [] then
           upd_el ''searchResults'' (add_class ''show'' \<circ> el_html (div_c ''search-no-results'' ''No results found''))
             (s\<lparr>shownResults := []\<rparr>)
         else
           let s = upd_run n (\<lambda>run. run\<lparr>sr_results := by_relevance results\<rparr>) s;
               top10 = take 10 (by_relevance results);
               s = s\<lparr>shownResults := top10\<rparr>
           in upd_el ''searchResults'' (add_class ''show'' \<circ> el_html (concat (map (result_html s query) top10))) s)"

section \<open>The local scan\<close>

definition has_query :: "string \<Rightarrow> string \<Rightarrow> bool" where
  "has_query query txt = contains_str (to_lower txt) (to_lower query)"

definition extractTitleMatches :: "string \<Rightarrow> string \<Rightarrow> (string \<times> string) list" where
  "extractTitleMatches title query =
     List.map_filter (\<lambda>ln.
         if has_query query ln then
           (case split_on (CHR '':'') ln of [a, b] \<Rightarrow> Some (trim a, trim b) | _ \<Rightarrow> None)
         else None)
       (split_on (char_of (10 :: nat)) title)"

definition node_matches :: "string \<Rightarrow> vnode option \<Rightarrow> node_item \<Rightarrow> (string \<times> string) list" where
  "node_matches query meta node =
     (if i_id node \<noteq> [] \<and> has_query query (i_id node) then [(''IP'', i_id node)] else [])
     @ (if i_label node \<noteq> [] \<and> has_query query (i_label node) then [(''Hostname'', i_label node)] else [])
     @ map (\<lambda>ip. (''IP Address'', ip)) (filter (\<lambda>ip. ip \<noteq> [] \<and> has_query query ip) (i_ips node))
     @ (case meta of
          None \<Rightarrow> []
        | Some m \<Rightarrow> if has_query query (formatNodeTooltip m) then extractTitleMatches (formatNodeTooltip m) query else [])"

definition host_result :: "vnode option \<Rightarrow> node_item \<Rightarrow> (string \<times> string) list \<Rightarrow> sresult" where
  "host_result meta node ms =
     \<lparr> r_nodeId = i_id node, r_label = or_else (i_label node) (i_id node), r_ip = i_id node, r_matches = ms,
       r_packetCount = (case meta of None \<Rightarrow> 0 | Some m \<Rightarrow> v_packetCount m),
       r_byteCount = (case meta of None \<Rightarrow> [] | Some m \<Rightarrow> formatBytes (v_byteCount m)),
       r_subnets = ([], []), r_packetIds = [], r_streamId = [], r_replay = None \<rparr>"

definition node_results :: "string \<Rightarrow> 'a gstate_scheme \<Rightarrow> sresult list" where
  "node_results query s =
     List.map_filter (\<lambda>node.
         let meta = map_of (nodeMeta s) (i_id node); ms = node_matches query meta node
         in if ms = [] then None else Some (host_result meta node ms))
       (map snd (nodes s))"

definition addEdgeMatch :: "edge_item \<Rightarrow> string \<Rightarrow> string
    \<Rightarrow> (string \<times> (string \<times> string) list) list \<Rightarrow> (string \<times> (string \<times> string) list) list" where
  "addEdgeMatch edge kind value em =
     (let old = (case map_of em (j_from edge) of None \<Rightarrow> [] | Some ms \<Rightarrow> ms)
      in AList.update (j_from edge) (old @ [(kind, value)]) em)"

definition edge_scan :: "string \<Rightarrow> edge_item \<Rightarrow> (string \<times> (string \<times> string) list) list
    \<Rightarrow> (string \<times> (string \<times> string) list) list" where
  "edge_scan query edge em =
     (let protoName = fst (j_protocol edge);
          em = (if protoName \<noteq> [] \<and> has_query query protoName then addEdgeMatch edge ''Protocol'' protoName em else em)
      in if j_label edge \<noteq> [] \<and> has_query query (j_label edge) then addEdgeMatch edge ''Data'' (j_label edge) em else em)"

text \<open>\<^verbatim>\<open>results.find(...)\<close>, then a change of the object found.\<close>

fun upd_first :: "('a \<Rightarrow> bool) \<Rightarrow> ('a \<Rightarrow> 'a) \<Rightarrow> 'a list \<Rightarrow> 'a list" where
  "upd_first P f [] = []"
| "upd_first P f (x # xs) = (if P x then f x # xs else x # upd_first P f xs)"

definition has_result :: "string \<Rightarrow> sresult list \<Rightarrow> bool" where
  "has_result k rs = (\<exists>r \<in> set rs. r_nodeId r = k)"

definition merge_edge_match :: "'a gstate_scheme \<Rightarrow> string \<times> (string \<times> string) list \<Rightarrow> sresult list \<Rightarrow> sresult list" where
  "merge_edge_match s em results =
     (case map_of (nodes s) (fst em) of
        None \<Rightarrow> results
      | Some node \<Rightarrow>
          if has_result (fst em) results
          then upd_first (\<lambda>r. r_nodeId r = fst em) (\<lambda>r. r\<lparr>r_matches := r_matches r @ snd em\<rparr>) results
          else results @ [(host_result (map_of (nodeMeta s) (fst em)) node (snd em))\<lparr>r_nodeId := fst em\<rparr>])"

definition local_results :: "string \<Rightarrow> 'a gstate_scheme \<Rightarrow> sresult list" where
  "local_results query s =
     fold (merge_edge_match s) (fold (edge_scan query) (map snd (edges s)) []) (node_results query s)"

section \<open>Running a search\<close>

definition replay_file :: "'a pstate_scheme \<Rightarrow> string" where
  "replay_file s = (case rm_currentFile (replayMode s) of None \<Rightarrow> ''null'' | Some f \<Rightarrow> f)"

definition performSearch :: "string \<Rightarrow> 'a qstate_scheme \<Rightarrow> 'a qstate_scheme" where
  "performSearch query s =
     (let n = Suc (serverSearchId s);
          live = (\<not> rm_active (replayMode s));
          pid = (if live then Suc (payloadSearchId s) else payloadSearchId s);
          s = upd_run n (\<lambda>_. \<lparr> sr_query = query, sr_results = local_results query s, sr_payloadId = pid \<rparr>) s;
          s = displaySearchResults n s;
          s = s\<lparr>serverSearchId := n, payloadSearchId := pid\<rparr>
      in if live then emit (Ask (GetPayloadSearch query 50)) (emit (Ask (GetSearch query 20)) s)
         else emit (Ask (GetReplaySearch (replay_file s) query 50)) s)"

text \<open>The entries of the three server replies.\<close>

record replay_match =
  rp_offset :: real
  rp_field :: string
  rp_preview :: string
  rp_protocol :: string
  rp_src :: string
  rp_srcPort :: nat
  rp_dst :: string
  rp_dstPort :: nat
  rp_index :: nat

record host_match =
  hm_id :: string
  hm_label :: string
  hm_ips :: "string list option"
  hm_packetCount :: nat
  hm_byteCount :: nat
  hm_subnet24 :: string
  hm_subnet16 :: string

record payload_match =
  pm_packet :: "packet option"
  pm_preview :: string

definition replay_result :: "'a qstate_scheme \<Rightarrow> replay_match \<Rightarrow> sresult" where
  "replay_result s m =
     (let timeLabel = formatDateTime (rm_startTime (replayMode s) + rp_offset m * 1000) s;
          desc = (if rp_field m = ''payload'' then ''Payload: '' @ quoted (rp_preview m)
                  else if rp_field m = ''protocol'' then ''Protocol: '' @ rp_protocol m else ''Host match'')
      in \<lparr> r_nodeId = rp_src m, r_label = rp_src m, r_ip = rp_src m,
           r_matches = [(''Replay'', timeLabel @ '' '' @ em_dash @ '' '' @ endpoint (rp_src m) (rp_srcPort m) @ '' ''
             @ arrow_right @ '' '' @ endpoint (rp_dst m) (rp_dstPort m) @ '' ('' @ rp_protocol m @ '') '' @ desc)],
           r_packetCount = 0, r_byteCount = [], r_subnets = ([], []), r_packetIds = [], r_streamId = [],
           r_replay = Some (rp_offset m, rp_index m + 1) \<rparr>)"

definition replay_search_reply :: "nat \<Rightarrow> replay_match list reply \<Rightarrow> 'a qstate_scheme \<Rightarrow> 'a qstate_scheme" where
  "replay_search_reply n r s =
     (case r of
        Body ms \<Rightarrow>
          if n \<noteq> serverSearchId s then s
          else
            let s' = upd_run n (\<lambda>run. run\<lparr>sr_results := sr_results run @ map (replay_result s) ms\<rparr>) s
            in if ms \<noteq> [] then displaySearchResults n s' else s'
      | _ \<Rightarrow> s)"

definition hidden_result :: "'a gstate_scheme \<Rightarrow> host_match \<Rightarrow> sresult" where
  "hidden_result s m =
     \<lparr> r_nodeId = hm_id m, r_label = or_else (hm_label m) (hm_id m), r_ip = hm_id m,
       r_matches = [(if map_of (nodes s) (hm_id m) \<noteq> None then ''Host'' else ''Hidden host'',
         join '', '' (case hm_ips m of None \<Rightarrow> [hm_id m] | Some ips \<Rightarrow> ips))],
       r_packetCount = hm_packetCount m, r_byteCount = formatBytes (hm_byteCount m),
       r_subnets = (hm_subnet24 m, hm_subnet16 m), r_packetIds = [], r_streamId = [], r_replay = None \<rparr>"

definition merge_host :: "'a gstate_scheme \<Rightarrow> host_match \<Rightarrow> sresult list \<Rightarrow> sresult list" where
  "merge_host s m results = (if has_result (hm_id m) results then results else results @ [hidden_result s m])"

definition server_search_reply :: "nat \<Rightarrow> host_match list reply \<Rightarrow> 'a qstate_scheme \<Rightarrow> 'a qstate_scheme" where
  "server_search_reply n r s =
     (case r of
        Body ms \<Rightarrow>
          if n \<noteq> serverSearchId s then s
          else
            let old = sr_results (searchRuns s n); results = fold (merge_host s) ms old;
                s = upd_run n (\<lambda>run. run\<lparr>sr_results := results\<rparr>) s
            in if length old < length results then displaySearchResults n s else s
      | _ \<Rightarrow> s)"

definition payload_host :: "'a gstate_scheme \<Rightarrow> string \<Rightarrow> sresult" where
  "payload_host s src =
     (let meta = map_of (nodeMeta s) src
      in \<lparr> r_nodeId = src, r_label = (case map_of (nodes s) src of None \<Rightarrow> src | Some node \<Rightarrow> or_else (i_label node) src),
           r_ip = src, r_matches = [],
           r_packetCount = (case meta of None \<Rightarrow> 0 | Some m \<Rightarrow> v_packetCount m),
           r_byteCount = (case meta of None \<Rightarrow> [] | Some m \<Rightarrow> formatBytes (v_byteCount m)),
           r_subnets = ([], []), r_packetIds = [], r_streamId = [], r_replay = None \<rparr>)"

definition add_payload :: "packet \<Rightarrow> string \<Rightarrow> sresult \<Rightarrow> sresult" where
  "add_payload p preview r =
     r\<lparr>r_matches := r_matches r @ [(''Payload'', ''Found in packet #'' @ show_nat (p_id p) @ '': '' @ quoted preview)],
       r_packetIds := r_packetIds r @ [p_id p],
       r_streamId := or_else (r_streamId r) (p_streamId p)\<rparr>"

definition merge_payload :: "'a gstate_scheme \<Rightarrow> packet \<Rightarrow> string \<Rightarrow> sresult list \<Rightarrow> sresult list" where
  "merge_payload s p preview results =
     (let results = (if has_result (p_src p) results then results else results @ [payload_host s (p_src p)])
      in upd_first (\<lambda>r. r_nodeId r = p_src p) (add_payload p preview) results)"

definition payload_step :: "payload_match \<Rightarrow> sresult list \<times> 'a gstate_scheme \<Rightarrow> sresult list \<times> 'a gstate_scheme" where
  "payload_step m st =
     (case pm_packet m of
        None \<Rightarrow> st
      | Some p \<Rightarrow>
          (merge_payload (snd st) p (pm_preview m) (fst st),
           (snd st)\<lparr>packetCache := AList.update (p_id p) p (packetCache (snd st))\<rparr>))"

definition payload_search_reply :: "nat \<Rightarrow> payload_match list reply \<Rightarrow> 'a qstate_scheme \<Rightarrow> 'a qstate_scheme" where
  "payload_search_reply n r s =
     (case r of
        Body ms \<Rightarrow>
          if sr_payloadId (searchRuns s n) \<noteq> payloadSearchId s then s
          else
            let (results, s) = fold payload_step ms (sr_results (searchRuns s n), s);
                s = upd_run n (\<lambda>run. run\<lparr>sr_results := results\<rparr>) s
            in if ms \<noteq> [] then displaySearchResults n s else s
      | _ \<Rightarrow> s)"

section \<open>Typing\<close>

definition search_input :: "'a qstate_scheme \<Rightarrow> 'a qstate_scheme" where
  "search_input s =
     (let query = trim (value_of ''searchInput'' s);
          s = upd_el ''searchClear'' (el_style ''display'' (if query \<noteq> [] then ''flex'' else ''none'')) s;
          s = updateSearchGhost s;
          s = (if searchTimer s \<noteq> None then emit (Cancel SearchTimer) (s\<lparr>searchTimer := None\<rparr>) else s)
      in if query = [] then upd_el ''searchResults'' (remove_class ''show'') s
         else emit (After SearchTimer 300) (s\<lparr>searchTimer := Some query\<rparr>))"

definition searchTimer_fires :: "'a qstate_scheme \<Rightarrow> 'a qstate_scheme" where
  "searchTimer_fires s =
     (case searchTimer s of None \<Rightarrow> s | Some q \<Rightarrow> performSearch q (s\<lparr>searchTimer := None\<rparr>))"

text \<open>Tab, or the right arrow at the end of the text, takes the completion.\<close>

definition search_key :: "string \<Rightarrow> bool \<Rightarrow> 'a qstate_scheme \<Rightarrow> 'a qstate_scheme" where
  "search_key key atEnd s =
     (let s = (if ghostSuffix s \<noteq> [] \<and> (key = ''Tab'' \<or> (key = ''ArrowRight'' \<and> atEnd))
               then let s = upd_el ''searchInput'' (el_value (value_of ''searchInput'' s @ ghostSuffix s)) s;
                        s = updateSearchGhost (s\<lparr>ghostSuffix := []\<rparr>)
                    in search_input s
               else s)
      in if key = ''Escape'' then upd_el ''searchGhost'' (el_text []) ((clearSearch s)\<lparr>ghostSuffix := []\<rparr>) else s)"

definition search_blur :: "'a qstate_scheme \<Rightarrow> 'a qstate_scheme" where
  "search_blur s = upd_el ''searchGhost'' (el_text []) (s\<lparr>searchFocused := False\<rparr>)"

definition searchClear_click :: "'a qstate_scheme \<Rightarrow> 'a qstate_scheme" where
  "searchClear_click s = (clearSearch s)\<lparr>searchFocused := True\<rparr>"

definition clicked_outside :: "'a world_scheme \<Rightarrow> 'a world_scheme" where
  "clicked_outside s = clearSearch s"

section \<open>Bringing a host into view\<close>

text \<open>A running poll: the host it waits for and how often it has looked.\<close>

type_synonym focus_poll = "string \<times> nat"

definition focus_present :: "string \<Rightarrow> 'a gstate_scheme \<Rightarrow> 'a gstate_scheme" where
  "focus_present nodeId s =
     (let s = with_net (selectNodes [nodeId]) s;
          s = with_net (focus_on (now s) nodeId (3 / 2) (Some 500)) s
      in clearSearch (emit (After DetailTimer 500) s))"

definition focusOnNode :: "string \<Rightarrow> 'a dstate_scheme \<Rightarrow> focus_poll option \<times> 'a dstate_scheme" where
  "focusOnNode nodeId s =
     (if network s = None then (None, s)
      else if map_of (nodes s) nodeId = None then
        (let c24 = hostSubnet24 nodeId (Some [nodeId]); c16 = subnet16Of nodeId (Some [nodeId])
         in if c24 = [] \<and> c16 = [] then (None, s)
            else
              let exp = expandedSubnets s;
                  exp = (if c16 \<noteq> [] then set_add c16 exp else exp);
                  exp = (if c24 \<noteq> [] then set_add c24 exp else exp);
                  s = sendAggregation (s\<lparr>expandedSubnets := exp\<rparr>)
              in (Some (nodeId, 0), emit (After FocusPoll 250) s))
      else (None, focus_present nodeId s))"

definition poll_fires :: "focus_poll \<Rightarrow> 'a dstate_scheme \<Rightarrow> focus_poll option \<times> 'a dstate_scheme" where
  "poll_fires p s =
     (let (nodeId, tries) = p
      in if map_of (nodes s) nodeId \<noteq> None
         then (None, snd (focusOnNode nodeId (emit (Cancel FocusPoll) s)))
         else if 20 < Suc tries then (None, emit (Cancel FocusPoll) s)
         else (Some (nodeId, Suc tries), s))"

text \<open>The timer set by a focus shows the details of its node.\<close>

definition detailTimer_fires :: "string \<Rightarrow> 'a dstate_scheme \<Rightarrow> detail_call option \<times> 'a dstate_scheme" where
  "detailTimer_fires nodeId s = showNodeDetails nodeId s"

section \<open>Clicking a result\<close>

definition open_packet_panel :: "'a pstate_scheme \<Rightarrow> 'a pstate_scheme" where
  "open_packet_panel s =
     (if has_class ''packetPanel'' ''show'' s then s else loadPackets (upd_el ''packetPanel'' (add_class ''show'') s))"

definition stream_tag_click :: "sresult \<Rightarrow> 'a qstate_scheme \<Rightarrow> 'a qstate_scheme" where
  "stream_tag_click r s =
     (if result_stream s r \<noteq> [] then clearSearch (openStreamDetail (result_stream s r) s) else s)"

definition finish_click :: "string \<Rightarrow> 'a qstate_scheme \<Rightarrow> focus_poll option \<times> 'a qstate_scheme" where
  "finish_click nodeId s = (let (p, s) = focusOnNode nodeId s in (p, clearSearch s))"

definition jump_to_offset :: "real \<Rightarrow> 'a sstate_scheme \<Rightarrow> 'a sstate_scheme" where
  "jump_to_offset off s =
     (let s = upd_replay (\<lambda>rm. rm\<lparr>rm_currentOffset := off\<rparr>) s;
          s = (if 0 < rm_durationSeconds (replayMode s)
               then upd_el ''timelineSlider'' (el_num ''value'' (off / rm_durationSeconds (replayMode s) * 100)) s else s)
      in loadReplayDataAtOffset off (updateTimelineDisplay s))"

text \<open>Up to the first \<^verbatim>\<open>await\<close>; what the click does after it is in the two continuations.\<close>

definition result_click :: "sresult \<Rightarrow> 'a qstate_scheme \<Rightarrow> focus_poll option \<times> 'a qstate_scheme" where
  "result_click r s =
     (case (r_replay r, rm_active (replayMode s)) of
        (Some (off, pid), True) \<Rightarrow> (None, jump_to_offset off s)
      | _ \<Rightarrow>
          if r_packetIds r \<noteq> [] then finish_click (r_nodeId r) (emit (After SelectTimer 100) (open_packet_panel s))
          else if r_nodeId r \<noteq> [] then (None, emit (Ask (GetRecentPacket (r_nodeId r))) s)
          else finish_click (r_nodeId r) s)"

definition jumped :: "nat \<Rightarrow> 'a qstate_scheme \<Rightarrow> 'a qstate_scheme" where
  "jumped pid s = clearSearch (selectPacket pid (loadPackets (upd_el ''packetPanel'' (add_class ''show'') s)))"

definition recent_packet_reply :: "string \<Rightarrow> packet option reply \<Rightarrow> 'a qstate_scheme \<Rightarrow> focus_poll option \<times> 'a qstate_scheme" where
  "recent_packet_reply nodeId r s =
     finish_click nodeId
       (case r of
          Body (Some pkt) \<Rightarrow>
            showPacketInspector pkt (open_packet_panel (s\<lparr>packetCache := AList.update (p_id pkt) pkt (packetCache s)\<rparr>))
        | _ \<Rightarrow> s)"

definition selectTimer_fires :: "sresult \<Rightarrow> 'a qstate_scheme \<Rightarrow> 'a qstate_scheme" where
  "selectTimer_fires r s = selectPacket (fold max (r_packetIds r) 0) s"

section \<open>Lookups of the counters\<close>

definition metaPacketCount :: "node_item option \<Rightarrow> 'a gstate_scheme \<Rightarrow> nat" where
  "metaPacketCount node s =
     (case node of None \<Rightarrow> 0
      | Some n \<Rightarrow> (case map_of (nodeMeta s) (i_id n) of Some m \<Rightarrow> v_packetCount m | None \<Rightarrow> i_packetCount n))"

definition metaByteCount :: "node_item option \<Rightarrow> 'a gstate_scheme \<Rightarrow> string" where
  "metaByteCount node s =
     (case node of None \<Rightarrow> []
      | Some n \<Rightarrow>
          let b = (case map_of (nodeMeta s) (i_id n) of Some m \<Rightarrow> v_byteCount m | None \<Rightarrow> i_byteCount n)
          in if b = 0 then [] else formatBytes b)"

definition nodeTooltipFor :: "string \<Rightarrow> 'a gstate_scheme \<Rightarrow> string" where
  "nodeTooltipFor k s = (case map_of (nodeMeta s) k of None \<Rightarrow> [] | Some m \<Rightarrow> formatNodeTooltip m)"

end
