(* ===== verification/SearchSpec.thy ===== *)
theory SearchSpec
  imports Search
begin

text \<open>
  What a search finds and shows: the local scan against its specification, the merging of the server's
  replies, the order and guards of the asynchronous replies, and the poll that brings a hidden host into
  view.
\<close>

section \<open>Lines of a tooltip\<close>

lemma split_on_sublist: "l \<in> set (split_on c xs) \<Longrightarrow> sublist l xs"
proof (induction xs arbitrary: l)
  case (Cons x xs)
  have first: "prefix (hd (split_on c xs)) xs" for xs :: "'a list" and c
    by (induction xs) (auto split: list.splits)
  show ?case
  proof (cases "x = c")
    case False
    obtain y ys where y: "split_on c xs = y # ys" using split_on_nonempty [of c xs] by (cases "split_on c xs") auto
    then have "prefix y xs" using first [of c xs] by simp
    then show ?thesis using Cons False y by (auto simp: sublist_Cons_right)
  qed (use Cons in \<open>auto simp: sublist_Cons_right\<close>)
qed simp

lemma split_on_length: "length (split_on c xs) = Suc (count_list xs c)"
  by (induction xs) (auto split: list.splits)

lemma to_lower_sublist: "sublist xs ys \<Longrightarrow> sublist (to_lower xs) (to_lower ys)"
  by (simp add: to_lower_def map_mono_sublist)

lemma has_query_mono: "sublist xs ys \<Longrightarrow> has_query q xs \<Longrightarrow> has_query q ys"
  unfolding has_query_def contains_sublist using to_lower_sublist sublist_order.order.trans by blast

text \<open>A line of a tooltip that can be reported: it reads \<open>key: value\<close>, with one colon.\<close>

definition line_hit :: "string \<Rightarrow> string \<Rightarrow> bool" where
  "line_hit query title =
     (\<exists>l \<in> set (split_on (char_of (10 :: nat)) title). has_query query l \<and> count_list l (CHR '':'') = 1)"

lemma title_matches: "extractTitleMatches title query \<noteq> [] \<longleftrightarrow> line_hit query title"
proof -
  have pair: "(case xs of [a, b] \<Rightarrow> Some (trim a, trim b) | _ \<Rightarrow> None) \<noteq> None \<longleftrightarrow> length xs = 2" for xs :: "string list"
    by (auto simp: length_Suc_conv numeral_2_eq_2 split: list.split)
  have two: "(case split_on (CHR '':'') l of [a, b] \<Rightarrow> Some (trim a, trim b) | _ \<Rightarrow> None) \<noteq> None
      \<longleftrightarrow> count_list l (CHR '':'') = 1" for l
    unfolding pair split_on_length by simp
  have ne: "List.map_filter f xs \<noteq> [] \<longleftrightarrow> (\<exists>x \<in> set xs. f x \<noteq> None)" for f :: "'a \<Rightarrow> 'b option" and xs
    by (induction xs) (auto simp: map_filter_simps split: option.splits)
  show ?thesis unfolding extractTitleMatches_def ne line_hit_def using two by (metis (no_types, lifting))
qed

definition node_hit :: "string \<Rightarrow> vnode option \<Rightarrow> node_item \<Rightarrow> bool" where
  "node_hit query meta node =
     ((i_id node \<noteq> [] \<and> has_query query (i_id node)) \<or> (i_label node \<noteq> [] \<and> has_query query (i_label node))
      \<or> (\<exists>ip \<in> set (i_ips node). ip \<noteq> [] \<and> has_query query ip)
      \<or> (\<exists>m. meta = Some m \<and> line_hit query (formatNodeTooltip m)))"

lemma line_hit_title: "line_hit q t \<Longrightarrow> has_query q t"
proof -
  assume "line_hit q t"
  then obtain l where l: "l \<in> set (split_on (char_of (10 :: nat)) t)" "has_query q l" by (auto simp: line_hit_def)
  show "has_query q t" by (rule has_query_mono [OF split_on_sublist [OF l(1)] l(2)])
qed

lemma node_matches_iff: "node_matches query meta node \<noteq> [] \<longleftrightarrow> node_hit query meta node"
proof -
  have tip: "(case meta of None \<Rightarrow> []
      | Some m \<Rightarrow> if has_query query (formatNodeTooltip m) then extractTitleMatches (formatNodeTooltip m) query else []) \<noteq> []
    \<longleftrightarrow> (\<exists>m. meta = Some m \<and> line_hit query (formatNodeTooltip m))"
    using title_matches line_hit_title by (cases meta) auto
  have ips: "map (\<lambda>ip. (''IP Address'', ip)) (filter P xs) \<noteq> [] \<longleftrightarrow> (\<exists>x \<in> set xs. P x)" for P and xs :: "string list"
    by (simp add: filter_empty_conv)
  have one: "(if b then [x] else []) \<noteq> [] \<longleftrightarrow> b" for b and x :: "string \<times> string" by simp
  have app: "xs @ ys \<noteq> [] \<longleftrightarrow> xs \<noteq> [] \<or> ys \<noteq> []" for xs ys :: "(string \<times> string) list" by simp
  show ?thesis unfolding node_matches_def node_hit_def app one ips tip by (rule refl)
qed

definition edge_hit :: "string \<Rightarrow> edge_item \<Rightarrow> bool" where
  "edge_hit query edge =
     ((fst (j_protocol edge) \<noteq> [] \<and> has_query query (fst (j_protocol edge)))
      \<or> (j_label edge \<noteq> [] \<and> has_query query (j_label edge)))"

section \<open>The hosts a scan reports\<close>

definition result_ids :: "sresult list \<Rightarrow> string list" where
  "result_ids rs = map r_nodeId rs"

lemma has_result_iff: "has_result k rs \<longleftrightarrow> k \<in> set (result_ids rs)"
  by (auto simp: has_result_def result_ids_def)

lemma upd_first_ids: "(\<And>r. r_nodeId (f r) = r_nodeId r) \<Longrightarrow> result_ids (upd_first P f rs) = result_ids rs"
  by (induction rs) (simp_all add: result_ids_def)

lemma result_ids_append [simp]: "result_ids (rs @ rs') = result_ids rs @ result_ids rs'" "result_ids [] = []"
  "result_ids (r # rs) = r_nodeId r # result_ids rs"
  by (simp_all add: result_ids_def)

lemma edge_scan_keys: "set (map_keys (edge_scan query e em)) = set (map_keys em) \<union> (if edge_hit query e then {j_from e} else {})"
  by (auto simp: edge_scan_def edge_hit_def addEdgeMatch_def map_keys_def Let_def dom_update simp flip: dom_map_of_conv_image_fst)

lemma edge_scans_keys:
  "set (map_keys (fold (edge_scan query) es em)) = set (map_keys em) \<union> j_from ` {e \<in> set es. edge_hit query e}"
  by (induction es arbitrary: em) (auto simp: edge_scan_keys)

lemma merge_edge_ids: "result_ids (merge_edge_match s em rs) =
    result_ids rs @ (if map_of (nodes s) (fst em) \<noteq> None \<and> fst em \<notin> set (result_ids rs) then [fst em] else [])"
  by (auto simp: merge_edge_match_def has_result_iff upd_first_ids split: option.splits)

lemma merge_edges_ids: "set (result_ids (fold (merge_edge_match s) ems rs)) =
    set (result_ids rs) \<union> {k \<in> set (map_keys ems). map_of (nodes s) k \<noteq> None}"
  by (induction ems arbitrary: rs) (auto simp: merge_edge_ids map_keys_def)

lemma merge_edges_distinct: "distinct (result_ids rs) \<Longrightarrow> distinct (result_ids (fold (merge_edge_match s) ems rs))"
  by (induction ems arbitrary: rs) (simp_all add: merge_edge_ids)

lemma node_results_ids: "result_ids (node_results query s) =
    map i_id (filter (\<lambda>n. node_hit query (map_of (nodeMeta s) (i_id n)) n) (map snd (nodes s)))"
proof -
  have "result_ids (List.map_filter (\<lambda>n. let m = map_of (nodeMeta s) (i_id n); ms = node_matches query m n
      in if ms = [] then None else Some (host_result m n ms)) xs)
    = map i_id (filter (\<lambda>n. node_hit query (map_of (nodeMeta s) (i_id n)) n) xs)" for xs
    by (induction xs) (auto simp: map_filter_simps Let_def host_result_def simp flip: node_matches_iff)
  then show ?thesis by (simp add: node_results_def)
qed

lemma node_results_distinct:
  assumes "keyed_by i_id (nodes s)" and "distinct (map_keys (nodes s))"
  shows "distinct (result_ids (node_results query s))"
proof -
  have "map i_id (map snd (nodes s)) = map_keys (nodes s)"
    using assms by (auto simp: keyed_by_def map_keys_def)
  then have "distinct (map i_id (map snd (nodes s)))" using assms(2) by simp
  then show ?thesis unfolding node_results_ids by (rule distinct_map_filter)
qed

lemma local_results_distinct:
  assumes "keyed_by i_id (nodes s)" and "distinct (map_keys (nodes s))"
  shows "distinct (result_ids (local_results query s))"
  using merge_edges_distinct [OF node_results_distinct [OF assms]] by (simp add: local_results_def)


section \<open>Replies\<close>

datatype search_reply =
  HostsReply nat "host_match list reply"
| PayloadReply nat "payload_match list reply"
| ReplayReply nat "replay_match list reply"

fun run_of :: "search_reply \<Rightarrow> nat" where
  "run_of (HostsReply n r) = n"
| "run_of (PayloadReply n r) = n"
| "run_of (ReplayReply n r) = n"

fun handle_reply :: "search_reply \<Rightarrow> 'a qstate_scheme \<Rightarrow> 'a qstate_scheme" where
  "handle_reply (HostsReply n r) s = server_search_reply n r s"
| "handle_reply (PayloadReply n r) s = payload_search_reply n r s"
| "handle_reply (ReplayReply n r) s = replay_search_reply n r s"

text \<open>The numbers and the arrays of the searches, apart from what displaying one changes.\<close>

definition search_vars :: "'a qstate_scheme \<Rightarrow> nat \<times> nat \<times> (nat \<Rightarrow> search_run)" where
  "search_vars s = (serverSearchId s, payloadSearchId s, searchRuns s)"

lemma search_vars_page [simp]: "search_vars (upd_el k f s) = search_vars s" "search_vars (emit ev s) = search_vars s"
  by (simp_all add: search_vars_def page_defs)

lemma search_vars_display: "search_vars (displaySearchResults n s) =
    (serverSearchId s, payloadSearchId s,
     (searchRuns s)(n := (searchRuns s n)\<lparr>sr_results := by_relevance (sr_results (searchRuns s n))\<rparr>))"
proof -
  have shown: "search_vars (t\<lparr>shownResults := x\<rparr>) = search_vars t" for t :: "'a qstate_scheme" and x
    by (simp add: search_vars_def)
  have "sort_key f [] = []" for f :: "sresult \<Rightarrow> int" by simp
  moreover have same: "r\<lparr>sr_results := []\<rparr> = r" if "sr_results r = []" for r :: search_run using that by (cases r) simp
  ultimately show ?thesis
    by (auto simp: displaySearchResults_def Let_def shown by_relevance_def) (simp_all add: search_vars_def upd_run_def same)
qed

lemma by_relevance_twice [simp]: "by_relevance (by_relevance rs) = by_relevance rs"
  by (simp add: by_relevance_def sort_key_id_if_sorted)

lemma search_vars_perform:
  defines "live s \<equiv> \<not> rm_active (replayMode s)"
  shows "search_vars (performSearch q s) = (Suc (serverSearchId s),
     (if live s then Suc (payloadSearchId s) else payloadSearchId s),
     (searchRuns s)(Suc (serverSearchId s) := \<lparr> sr_query = q, sr_results = by_relevance (local_results q s),
        sr_payloadId = (if live s then Suc (payloadSearchId s) else payloadSearchId s) \<rparr>))"
proof -
  have ids: "search_vars (t\<lparr>serverSearchId := a, payloadSearchId := b\<rparr>) = (a, b, searchRuns t)" for t :: "'a qstate_scheme" and a b
    by (simp add: search_vars_def)
  have runs: "searchRuns t = r" if "search_vars t = (a, b, r)" for t :: "'a qstate_scheme" and a b r
    using that by (simp add: search_vars_def)
  show ?thesis
    by (auto simp: performSearch_def Let_def ids live_def runs [OF search_vars_display] upd_run_def)
qed

interpretation hosts: seq_guard serverSearchId performSearch server_search_reply "\<lambda>_. True" "\<lambda>_. True"
  using search_vars_perform by unfold_locales (auto simp: search_vars_def server_search_reply_def split: reply.splits)

interpretation replays: seq_guard serverSearchId performSearch replay_search_reply "\<lambda>_. True" "\<lambda>_. True"
  using search_vars_perform by unfold_locales (auto simp: search_vars_def replay_search_reply_def split: reply.splits)

text \<open>No earlier search waits for payloads under a number not yet given out.\<close>

definition runs_ok :: "'a qstate_scheme \<Rightarrow> bool" where
  "runs_ok s = (\<forall>n \<le> serverSearchId s. sr_payloadId (searchRuns s n) \<le> payloadSearchId s)"

text \<open>
  C22: once a live search has been started, whatever replies to earlier searches arrive, in whatever
  order, change nothing.
\<close>

theorem newest_search_wins:
  assumes "runs_ok s" and "\<not> rm_active (replayMode s)" and "\<forall>r \<in> set rs. run_of r \<le> serverSearchId s"
  shows "fold handle_reply rs (performSearch q s) = performSearch q s"
  using assms(3)
proof (induction rs)
  case (Cons r rs)
  let ?p = "performSearch q s"
  have vars: "payloadSearchId ?p = Suc (payloadSearchId s)"
    "k \<le> serverSearchId s \<Longrightarrow> searchRuns ?p k = searchRuns s k" for k
    using search_vars_perform [of q s] assms(2) by (simp_all add: search_vars_def)
  have "handle_reply r ?p = ?p"
  proof (cases r)
    case (HostsReply n x)
    then show ?thesis using hosts.late_reply_ignored [where s = s and r = x and n = n and q = q] Cons.prems by simp
  next
    case (ReplayReply n x)
    then show ?thesis using replays.late_reply_ignored [where s = s and r = x and n = n and q = q] Cons.prems by simp
  next
    case (PayloadReply n x)
    have "sr_payloadId (searchRuns ?p n) \<noteq> payloadSearchId ?p"
      using assms(1) Cons.prems PayloadReply vars by (force simp: runs_ok_def)
    then show ?thesis using PayloadReply by (simp add: payload_search_reply_def split: reply.split)
  qed
  then show ?case using Cons by simp
qed simp

lemma shown_display: "shownResults (displaySearchResults n t) = take 10 (by_relevance (sr_results (searchRuns t n)))"
  by (simp add: displaySearchResults_def Let_def) (simp add: upd_el_def by_relevance_def)

lemma search_id_display: "serverSearchId (displaySearchResults n t) = serverSearchId t"
  using search_vars_display [of n t] by (simp add: search_vars_def)

lemma merge_payload_ids: "result_ids (merge_payload s p pv rs) =
    result_ids rs @ (if p_src p \<in> set (result_ids rs) then [] else [p_src p])"
  by (simp add: merge_payload_def Let_def has_result_iff upd_first_ids add_payload_def payload_host_def)

lemma merge_payload_nonempty: "merge_payload s p pv rs \<noteq> []"
proof
  assume "merge_payload s p pv rs = []"
  then have "result_ids (merge_payload s p pv rs) = []" by simp
  then show False unfolding merge_payload_ids by (auto split: if_splits)
qed

text \<open>
  Lemma: the search over a capture file does not advance the number of the payload search, so the payload
  reply of the live search before it is still merged and its results replace the list of the new search.
\<close>

theorem payload_reply_overrides_replay:
  fixes s :: "'a qstate_scheme" and p :: packet and q preview :: string
  assumes "rm_active (replayMode s)" and "sr_payloadId (searchRuns s n) = payloadSearchId s" and "n \<le> serverSearchId s"
  defines "s' \<equiv> payload_search_reply n (Body [\<lparr> pm_packet = Some p, pm_preview = preview \<rparr>]) (performSearch q s)"
  shows "shownResults s' = take 10 (by_relevance (merge_payload (performSearch q s) p preview (sr_results (searchRuns s n))))
    \<and> shownResults s' \<noteq> [] \<and> serverSearchId s' = Suc (serverSearchId s)"
proof -
  let ?p = "performSearch q s"
  have vars: "serverSearchId ?p = Suc (serverSearchId s)" "payloadSearchId ?p = payloadSearchId s" "searchRuns ?p n = searchRuns s n"
    using search_vars_perform [of q s] assms(1,3) by (simp_all add: search_vars_def)
  let ?ms = "merge_payload ?p p preview (sr_results (searchRuns s n))"
  let ?t = "upd_run n (\<lambda>run. run\<lparr>sr_results := ?ms\<rparr>) (?p\<lparr>packetCache := AList.update (p_id p) p (packetCache ?p)\<rparr>)"
  have st: "fold payload_step [\<lparr> pm_packet = Some p, pm_preview = preview \<rparr>] (rs, u)
      = (merge_payload u p preview rs, u\<lparr>packetCache := AList.update (p_id p) p (packetCache u)\<rparr>)"
    for rs and u :: "'a qstate_scheme" by (simp add: payload_step_def)
  have guard: "sr_payloadId (searchRuns s n) = payloadSearchId ?p" using vars assms(2) by simp
  have s': "s' = displaySearchResults n ?t"
    unfolding s'_def payload_search_reply_def by (simp only: reply.case vars(3) guard st prod.case Let_def) simp
  have ne: "?ms \<noteq> []" by (rule merge_payload_nonempty)
  have run: "sr_results (searchRuns (upd_run n (\<lambda>r. r\<lparr>sr_results := rs\<rparr>) u) n) = rs"
    "serverSearchId (upd_run n f u) = serverSearchId u" "serverSearchId (u\<lparr>packetCache := c\<rparr>) = serverSearchId u"
    for rs f c and u :: "'a qstate_scheme" by (simp_all add: upd_run_def)
  have "shownResults s' = take 10 (by_relevance ?ms)" unfolding s' shown_display run ..
  moreover have "serverSearchId s' = Suc (serverSearchId s)" unfolding s' search_id_display run by (rule vars(1))
  moreover have "length (by_relevance rs) = length rs" for rs by (simp add: by_relevance_def)
  then have "by_relevance ?ms \<noteq> []" using ne by (metis length_0_conv)
  ultimately show ?thesis by simp
qed

text \<open>
  Lemma: clearing the box does not stop the running debounce timer: it searches for the text that was
  cleared and opens the result list again.
\<close>

theorem cleared_search_reopens:
  assumes "searchTimer s = Some query" and "has_el ''searchResults'' s"
  shows "\<not> has_class ''searchResults'' ''show'' (searchClear_click s)
    \<and> has_class ''searchResults'' ''show'' (searchTimer_fires (searchClear_click s))"
proof -
  have show_again: "has_class ''searchResults'' ''show'' (displaySearchResults n t)" if "has_el ''searchResults'' t"
    for n and t :: "'a qstate_scheme"
    using that by (auto simp: displaySearchResults_def Let_def has_class_def has_el_def world_simps add_class_def upd_run_def)
  have frame: "has_class k c (emit ev t) = has_class k c t" "has_class k c (t\<lparr>serverSearchId := a, payloadSearchId := b\<rparr>) = has_class k c t"
    for k c ev and t :: "'a qstate_scheme" and a b by (simp_all add: has_class_def world_simps)
  have perform: "has_class ''searchResults'' ''show'' (performSearch q t)" if "has_el ''searchResults'' t"
    for q and t :: "'a qstate_scheme"
    using that by (simp add: performSearch_def Let_def frame, intro impI conjI show_again) (simp_all add: upd_run_def has_el_def)
  have "searchTimer (searchClear_click s) = Some query" using assms(1)
    by (simp add: searchClear_click_def clearSearch_def Let_def upd_el_def)
  moreover have "has_el ''searchResults'' ((searchClear_click s)\<lparr>searchTimer := None\<rparr>)" using assms(2)
    by (simp add: searchClear_click_def clearSearch_def Let_def has_el_def world_simps)
  moreover have "\<not> has_class ''searchResults'' ''show'' (searchClear_click s)" using assms(2)
    by (auto simp: searchClear_click_def clearSearch_def Let_def has_class_def has_el_def world_simps remove_class_def)
  ultimately show ?thesis by (simp add: searchTimer_fires_def perform)
qed

section \<open>What the list shows\<close>

lemma by_relevance_mset: "mset (by_relevance rs) = mset rs"
  by (simp add: by_relevance_def)

lemma by_relevance_ids: "distinct (result_ids (by_relevance rs)) = distinct (result_ids rs)"
proof -
  have "mset (result_ids (by_relevance rs)) = mset (result_ids rs)" by (simp add: result_ids_def by_relevance_mset)
  then show ?thesis by (rule mset_eq_imp_distinct_iff)
qed

text \<open>
  Lemma: the list shows at most ten results of the search, and none that was left out has seen more packets
  than one that is shown.
\<close>

theorem shown_best:
  fixes t :: "'a qstate_scheme" and n :: nat
  defines "listed \<equiv> shownResults (displaySearchResults n t)" and "all \<equiv> sr_results (searchRuns t n)"
  shows "length listed \<le> 10 \<and> set listed \<subseteq> set all
    \<and> (\<forall>r \<in> set listed. \<forall>r' \<in> set (drop 10 (by_relevance all)). r_packetCount r' \<le> r_packetCount r)
    \<and> mset listed + mset (drop 10 (by_relevance all)) = mset all"
proof -
  have listed: "listed = take 10 (by_relevance all)" by (simp add: listed_def all_def shown_display)
  have cut: "by_relevance all = listed @ drop 10 (by_relevance all)" by (simp add: listed)
  have "sorted (map (\<lambda>r. - int (r_packetCount r)) (listed @ drop 10 (by_relevance all)))"
    unfolding cut [symmetric] by (simp add: by_relevance_def)
  then have best: "\<forall>r \<in> set listed. \<forall>r' \<in> set (drop 10 (by_relevance all)). r_packetCount r' \<le> r_packetCount r"
    by (auto simp: sorted_append)
  have parts: "mset listed + mset (drop 10 (by_relevance all)) = mset all"
    using arg_cong [OF cut, of mset] by (simp only: by_relevance_mset mset_append)
  have "set listed \<subseteq> set (by_relevance all)" unfolding listed by (rule set_take_subset)
  also have "set (by_relevance all) = set all" by (simp add: by_relevance_def)
  finally show ?thesis using best parts by (simp add: listed)
qed

fun live_reply :: "search_reply \<Rightarrow> bool" where
  "live_reply (ReplayReply n r) = False"
| "live_reply r = True"

definition no_twice :: "'a qstate_scheme \<Rightarrow> bool" where
  "no_twice s = ((\<forall>n. distinct (result_ids (sr_results (searchRuns s n)))) \<and> distinct (result_ids (shownResults s)))"

lemma merge_hosts_distinct: "distinct (result_ids rs) \<Longrightarrow> distinct (result_ids (fold (merge_host s) ms rs))"
  by (induction ms arbitrary: rs) (simp_all add: merge_host_def has_result_iff hidden_result_def)

lemma payload_steps:
  assumes "distinct (result_ids rs)"
  shows "distinct (result_ids (fst (fold payload_step ms (rs, s))))"
    and "searchRuns (snd (fold payload_step ms (rs, s))) = searchRuns s"
    and "shownResults (snd (fold payload_step ms (rs, s))) = shownResults s"
  using assms
  by (induction ms arbitrary: rs s) (simp_all add: payload_step_def merge_payload_ids split: option.split)

lemma no_twice_display: "no_twice t \<Longrightarrow> no_twice (displaySearchResults n t)"
proof -
  assume t: "no_twice t"
  have "searchRuns (displaySearchResults n t)
      = (searchRuns t)(n := (searchRuns t n)\<lparr>sr_results := by_relevance (sr_results (searchRuns t n))\<rparr>)"
    using search_vars_display [of n t] by (simp add: search_vars_def)
  moreover have "result_ids (take k rs) = take k (result_ids rs)" for k rs by (simp add: result_ids_def take_map)
  ultimately show ?thesis using t by (simp add: no_twice_def by_relevance_ids shown_display)
qed

lemma no_twice_run: "no_twice t \<Longrightarrow> distinct (result_ids rs) \<Longrightarrow> no_twice (upd_run n (\<lambda>run. run\<lparr>sr_results := rs\<rparr>) t)"
  by (simp add: no_twice_def upd_run_def)

lemma no_twice_reply:
  assumes "no_twice s" and "live_reply r"
  shows "no_twice (handle_reply r s)"
proof (cases r)
  case (HostsReply n x)
  have "distinct (result_ids (sr_results (searchRuns s n)))" using assms(1) by (simp add: no_twice_def)
  then have "no_twice (upd_run n (\<lambda>run. run\<lparr>sr_results := fold (merge_host s) ms (sr_results (searchRuns s n))\<rparr>) s)" for ms
    by (intro no_twice_run assms(1) merge_hosts_distinct)
  then show ?thesis using assms(1) HostsReply
    by (auto simp: server_search_reply_def Let_def split: reply.split intro!: no_twice_display)
next
  case (PayloadReply n x)
  have d: "distinct (result_ids (sr_results (searchRuns s n)))" using assms(1) by (simp add: no_twice_def)
  have "no_twice (snd (fold payload_step ms (sr_results (searchRuns s n), s)))" for ms
    using assms(1) by (simp add: no_twice_def payload_steps [OF d])
  then have "no_twice (upd_run n (\<lambda>run. run\<lparr>sr_results := fst (fold payload_step ms (sr_results (searchRuns s n), s))\<rparr>)
      (snd (fold payload_step ms (sr_results (searchRuns s n), s))))" for ms
    by (intro no_twice_run payload_steps(1) d)
  then show ?thesis using assms(1) PayloadReply
    by (auto simp: payload_search_reply_def Let_def case_prod_beta no_twice_run d split: reply.split intro!: no_twice_display)
next
  case (ReplayReply n x)
  then show ?thesis using assms(2) by simp
qed

text \<open>
  C21: whatever the server's host and payload searches add to a live search, in whatever order they
  answer, every host is listed once.
\<close>

theorem no_host_twice:
  assumes "keyed_by i_id (nodes s)" and "distinct (map_keys (nodes s))" and "no_twice s"
    and "\<forall>r \<in> set rs. live_reply r"
  shows "distinct (map r_nodeId (shownResults (fold handle_reply rs (performSearch q s))))"
proof -
  let ?n = "Suc (serverSearchId s)"
  have "distinct (result_ids (local_results q s))" using local_results_distinct [OF assms(1,2)] .
  then have "no_twice (upd_run ?n (\<lambda>_. \<lparr> sr_query = q, sr_results = local_results q s, sr_payloadId = pid \<rparr>) s)" for pid
    using assms(3) by (simp add: no_twice_def upd_run_def)
  then have displayed: "no_twice (displaySearchResults ?n
      (upd_run ?n (\<lambda>_. \<lparr> sr_query = q, sr_results = local_results q s, sr_payloadId = pid \<rparr>) s))" for pid
    by (rule no_twice_display)
  have ids: "no_twice (t\<lparr>serverSearchId := a, payloadSearchId := b\<rparr>) = no_twice t" "no_twice (emit ev t) = no_twice t"
    for t :: "'a qstate_scheme" and a b ev by (simp_all add: no_twice_def emit_def)
  have "no_twice (performSearch q s)" using displayed by (simp add: performSearch_def Let_def ids)
  then have "no_twice (fold handle_reply rs (performSearch q s))" using assms(4)
    by (induction rs rule: rev_induct) (simp_all add: no_twice_reply)
  then show ?thesis by (simp add: no_twice_def result_ids_def)
qed

section \<open>A hidden host comes into view\<close>

text \<open>The ticks of one poll, each in the state the page is then in.\<close>

fun poll_run :: "focus_poll \<Rightarrow> 'a dstate_scheme list \<Rightarrow> focus_poll option" where
  "poll_run p [] = Some p"
| "poll_run p (s # ss) = (case fst (poll_fires p s) of None \<Rightarrow> None | Some p' \<Rightarrow> poll_run p' ss)"

lemma poll_run_ends: "21 \<le> length ss + n \<Longrightarrow> ss \<noteq> [] \<Longrightarrow> poll_run (k, n) ss = None"
proof (induction ss arbitrary: n)
  case (Cons s ss)
  show ?case
  proof (cases "fst (poll_fires (k, n) s)")
    case (Some p)
    then have "p = (k, Suc n)" and "\<not> 20 < Suc n" by (auto simp: poll_fires_def Let_def split: if_splits)
    then show ?thesis using Some Cons by (cases ss) auto
  qed simp
qed simp

text \<open>
  C23: asking for a host that is inside a collapsed subnet sends the server an expansion state with both
  its subnets expanded and polls for it; the poll ends within 21 ticks, and as soon as the host is in
  the view it is selected and the camera moves to it.
\<close>

theorem hidden_host_focused:
  fixes s t :: "'a dstate_scheme" and k :: string and ss :: "'a dstate_scheme list"
  assumes "network s \<noteq> None" and "map_of (nodes s) k = None" and "ws_open s"
    and "hostSubnet24 k (Some [k]) \<noteq> []" and "subnet16Of k (Some [k]) \<noteq> []" and "21 \<le> length ss"
  defines "s' \<equiv> snd (focusOnNode k s)"
  shows "fst (focusOnNode k s) = Some (k, 0) \<and> poll_run (k, 0) ss = None
    \<and> {hostSubnet24 k (Some [k]), subnet16Of k (Some [k])} \<subseteq> set (expandedSubnets s')
    \<and> last (sent s') = agg_msg s'
    \<and> (map_of (nodes t) k \<noteq> None \<longrightarrow> network t \<noteq> None \<longrightarrow>
        poll_fires (k, n) t = (None, focus_present k (emit (Cancel FocusPoll) t)))"
proof -
  let ?exp = "set_add (hostSubnet24 k (Some [k])) (set_add (subnet16Of k (Some [k])) (expandedSubnets s))"
  let ?u = "s\<lparr>expandedSubnets := ?exp\<rparr>"
  have f: "focusOnNode k s = (Some (k, 0), emit (After FocusPoll 250) (sendAggregation ?u))"
    using assms(1,2,4,5) by (simp add: focusOnNode_def Let_def)
  have "sent s' = sent ?u @ [agg_msg ?u]" using sendAggregation_sends(1) [of ?u] assms(3) by (simp add: s'_def f)
  moreover have "agg_msg s' = agg_msg ?u"
    using agg_msg_vars [of "sendAggregation ?u" ?u] by (simp add: s'_def f) (simp add: agg_msg_def emit_def)
  ultimately have msg: "last (sent s') = agg_msg s'" by simp
  have "expandedSubnets (sendAggregation ?u) = ?exp"
    by (simp add: sendAggregation_def updateFocusClusterBadge_def Let_def sendControl_def page_defs)
  then have "expandedSubnets s' = ?exp" by (simp add: s'_def f emit_def)
  then have exp: "{hostSubnet24 k (Some [k]), subnet16Of k (Some [k])} \<subseteq> set (expandedSubnets s')" by simp
  have "poll_run (k, 0) ss = None" using assms(6) by (intro poll_run_ends) auto
  moreover have "poll_fires (k, n) t = (None, focus_present k (emit (Cancel FocusPoll) t))"
    if "map_of (nodes t) k \<noteq> None" "network t \<noteq> None"
    using that by (auto simp: poll_fires_def focusOnNode_def emit_def)
  ultimately show ?thesis using msg exp f by simp
qed

section \<open>The completion\<close>

text \<open>
  Lemma: what is shown behind the text completes the word being typed to one of the suggestions, whatever
  the case it is typed in.
\<close>

theorem ghost_completes_word:
  assumes "computeGhostSuffix v \<noteq> []"
  shows "suffix (last_token v) v \<and> last_token v \<noteq> []
    \<and> (\<exists>sug \<in> set FILTER_SUGGESTIONS. to_lower (last_token v @ computeGhostSuffix v) = to_lower sug)"
proof -
  have "suffix (last_token v) v"
    unfolding last_token_def by (metis rev_rev_ident suffix_def append_eq_conv_conj rev_append takeWhile_dropWhile_id)
  moreover obtain sug where sug: "sug \<in> set FILTER_SUGGESTIONS" "prefix (to_lower (last_token v)) (to_lower sug)"
    "computeGhostSuffix v = drop (length (last_token v)) sug" and ne: "last_token v \<noteq> []"
    using assms by (auto simp: computeGhostSuffix_def Let_def find_Some_iff in_set_conv_nth split: if_splits option.splits)
  moreover have "to_lower (last_token v @ drop (length (last_token v)) sug) = to_lower sug"
    using sug(2) by (auto simp: to_lower_def prefix_def drop_map [symmetric])
  ultimately show ?thesis by auto
qed

section \<open>Examples\<close>

definition empty_run :: search_run where
  "empty_run = \<lparr> sr_query = [], sr_results = [], sr_payloadId = 0 \<rparr>"

definition sample_qstate :: qstate where
  "sample_qstate = ustate.extend (sample_ustate\<lparr>dom := [''searchResults'' \<mapsto> fresh_elem],
       nodes := [(''10.1.2.3'', build_node_item ''traffic'' False None (sample_vnode ''10.1.2.3''))]\<rparr>)
     (qstate.fields 0 0 (\<lambda>_. empty_run) [] (Some ''dns'') True [] (\<lambda>_. []))"

lemma sample_qstate_fields [simp]:
  "serverSearchId sample_qstate = 0" "payloadSearchId sample_qstate = 0" "searchRuns sample_qstate = (\<lambda>_. empty_run)"
  "shownResults sample_qstate = []" "searchTimer sample_qstate = Some ''dns''" "ws_open sample_qstate"
  "network sample_qstate = Some sample_renderer" "dom sample_qstate = [''searchResults'' \<mapsto> fresh_elem]"
  "nodes sample_qstate = [(''10.1.2.3'', build_node_item ''traffic'' False None (sample_vnode ''10.1.2.3''))]"
  by (simp_all add: sample_qstate_def ustate.extend_def ustate.defs qstate.defs sample_ustate_def sstate.extend_def
      sstate.defs sample_sstate_def dstate.extend_def dstate.defs)

lemma sample_search_facts:
  "keyed_by i_id (nodes sample_qstate)" "distinct (map_keys (nodes sample_qstate))" "no_twice sample_qstate"
  "runs_ok sample_qstate"
  by (simp_all add: keyed_by_def map_keys_def no_twice_def runs_ok_def empty_run_def build_node_item_def sample_vnode_def)


theorem newest_search_wins_witness:
  "fold handle_reply [PayloadReply 0 (Body []), HostsReply 0 Broken]
     (performSearch ''dns'' (sample_qstate\<lparr>replayMode := (replayMode sample_qstate)\<lparr>rm_active := False\<rparr>\<rparr>))
   = performSearch ''dns'' (sample_qstate\<lparr>replayMode := (replayMode sample_qstate)\<lparr>rm_active := False\<rparr>\<rparr>)"
  by (rule newest_search_wins) (use sample_search_facts in \<open>simp_all add: runs_ok_def empty_run_def\<close>)

theorem payload_reply_overrides_replay_witness:
  "shownResults (payload_search_reply 0 (Body [\<lparr> pm_packet = Some (sample_packet 7 ''DNS''), pm_preview = ''a'' \<rparr>])
     (performSearch ''tls'' (sample_qstate\<lparr>replayMode := (replayMode sample_qstate)\<lparr>rm_active := True\<rparr>\<rparr>))) \<noteq> []"
  by (rule payload_reply_overrides_replay [THEN conjunct2, THEN conjunct1]) (simp_all add: empty_run_def)

theorem cleared_search_reopens_witness: "has_class ''searchResults'' ''show'' (searchTimer_fires (searchClear_click sample_qstate))"
  using cleared_search_reopens [of sample_qstate "''dns''"] by (simp add: has_el_def)

theorem shown_best_witness: "length (shownResults (displaySearchResults 0 sample_qstate)) \<le> 10"
  using shown_best [of 0 sample_qstate] by blast

theorem no_host_twice_witness:
  "distinct (map r_nodeId (shownResults (fold handle_reply [HostsReply 1 (Body [])] (performSearch ''dns'' sample_qstate))))"
  by (rule no_host_twice [OF sample_search_facts(1-3)]) simp

theorem hidden_host_focused_witness:
  "poll_run (''10.9.9.9'', 0) (replicate 21 sample_qstate) = None"
proof -
  have "hostSubnet24 ''10.9.9.9'' (Some [''10.9.9.9'']) = ''10.9.9.0/24''"
    by (simp add: hostSubnet24_def dotted_quad_def map_filter_simps digits_ne_def is_digit_def)
  moreover have "subnet16Of ''10.9.9.9'' (Some [''10.9.9.9'']) = ''10.9.0.0/16''"
    unfolding subnet16Of_def calculation by (simp add: subnet16_of_string_def digits_ne_def is_digit_def)
  ultimately show ?thesis
    using hidden_host_focused [of sample_qstate "''10.9.9.9''" "replicate 21 sample_qstate"] by simp
qed

theorem ghost_completes_word_witness: "computeGhostSuffix ''ip.sr'' = ''c == '' \<and> suffix (last_token ''ip.sr'') ''ip.sr''"
proof -
  have "computeGhostSuffix ''ip.sr'' = ''c == ''"
    by (simp add: computeGhostSuffix_def last_token_def FILTER_SUGGESTIONS_def is_space_def to_lower_def to_lower_char_def)
  then show ?thesis using ghost_completes_word [of "''ip.sr''"] by simp
qed

end
