(* ===== verification/SearchWorker.thy ===== *)
theory SearchWorker
  imports PacketData
begin

text \<open>
  \<^verbatim>\<open>static/search-worker.js\<close>: the payload search.  A JavaScript string is here the list of its
  UTF-16 code units, because \<^verbatim>\<open>stringToBytes\<close> stores each one into a \<^verbatim>\<open>Uint8Array\<close>, which
  keeps the low eight bits; \<^verbatim>\<open>toLowerCase\<close> is modelled on ASCII letters.  The nested loops
  keep their indices.
\<close>

section \<open>Bytes\<close>

definition stringToBytes :: "nat list \<Rightarrow> bytes" where
  "stringToBytes str = map word_of_nat str"

definition toLowerBytes :: "bytes \<Rightarrow> bytes" where
  "toLowerBytes bs = map (\<lambda>b. if 65 \<le> b \<and> b \<le> 90 then b + 32 else b) bs"

definition lower_units :: "nat list \<Rightarrow> nat list" where
  "lower_units us = map (\<lambda>u. if 65 \<le> u \<and> u \<le> 90 then u + 32 else u) us"

section \<open>The search loops\<close>

function match_from :: "bytes \<Rightarrow> bytes \<Rightarrow> nat \<Rightarrow> nat \<Rightarrow> bool" where
  "match_from p q i j =
     (if j < length q then (if p ! (i + j) \<noteq> q ! j then False else match_from p q i (Suc j))
      else True)"
  by pat_completeness auto
termination
  by (relation "measure (\<lambda>(p, q, i, j). length q - j)") auto

function find_from :: "bytes \<Rightarrow> bytes \<Rightarrow> nat \<Rightarrow> nat option" where
  "find_from p q i =
     (if i + length q \<le> length p then (if match_from p q i 0 then Some i else find_from p q (Suc i))
      else None)"
  by pat_completeness auto
termination
  by (relation "measure (\<lambda>(p, q, i). Suc (length p) - i)") auto

declare match_from.simps [simp del] find_from.simps [simp del]

definition searchInPayload :: "bytes \<Rightarrow> bytes \<Rightarrow> bool" where
  "searchInPayload payloadLower queryBytes =
     (if queryBytes = [] \<or> length payloadLower < length queryBytes then False
      else find_from payloadLower queryBytes 0 \<noteq> None)"

definition printable :: "8 word \<Rightarrow> char" where
  "printable b = (if 32 \<le> b \<and> b \<le> 126 then char_of (unat b) else CHR ''.'')"

definition getPayloadPreview :: "bytes \<Rightarrow> bytes \<Rightarrow> bytes \<Rightarrow> string" where
  "getPayloadPreview payloadBytes payloadLower queryBytes =
     (case find_from payloadLower queryBytes 0 of
        None \<Rightarrow> []
      | Some matchPos \<Rightarrow>
          let start = matchPos - 20;
              stop = min (length payloadBytes) (matchPos + length queryBytes + 20);
              preview = map printable (take (stop - start) (drop start payloadBytes))
          in if 50 < length preview then take 47 preview @ ''...'' else preview)"

section \<open>The message handler\<close>

record search_result =
  r_packetId :: nat
  r_src :: string
  r_srcPort :: nat
  r_dst :: string
  r_dstPort :: nat
  r_protocol :: string
  r_preview :: string

fun search_packets :: "bytes \<Rightarrow> packet list \<Rightarrow> search_result list" where
  "search_packets queryBytes [] = []"
| "search_packets queryBytes (packet # rest) =
     (if p_payload packet = [] then search_packets queryBytes rest
      else case base64ToBytes (p_payload packet) of
             None \<Rightarrow> search_packets queryBytes rest
           | Some payloadBytes \<Rightarrow>
               let payloadLower = toLowerBytes payloadBytes
               in if searchInPayload payloadLower queryBytes
                  then \<lparr> r_packetId = p_id packet, r_src = p_src packet, r_srcPort = p_srcPort packet,
                         r_dst = p_dst packet, r_dstPort = p_dstPort packet,
                         r_protocol = p_protocol packet,
                         r_preview = getPayloadPreview payloadBytes payloadLower queryBytes \<rparr>
                       # search_packets queryBytes rest
                  else search_packets queryBytes rest)"

definition onmessage :: "packet list \<Rightarrow> nat list \<Rightarrow> nat \<Rightarrow> nat \<times> search_result list" where
  "onmessage packets query requestId =
     (requestId, search_packets (stringToBytes (lower_units query)) packets)"

section \<open>The loops find exactly the occurrences\<close>

lemma match_from_spec:
  "match_from p q i j \<longleftrightarrow> (\<forall>k. j \<le> k \<and> k < length q \<longrightarrow> p ! (i + k) = q ! k)"
proof (induction p q i j rule: match_from.induct)
  case (1 p q i j)
  have "j \<le> k \<longleftrightarrow> k = j \<or> Suc j \<le> k" for k by auto
  then show ?case
    using "1.IH" by (subst match_from.simps) auto
qed

lemma match_at_slice:
  assumes "i + length q \<le> length p"
  shows "match_from p q i 0 \<longleftrightarrow> take (length q) (drop i p) = q"
  using assms by (auto simp: match_from_spec list_eq_iff_nth_eq)

lemma find_from_Some:
  "find_from p q i = Some k \<Longrightarrow>
     i \<le> k \<and> k + length q \<le> length p \<and> take (length q) (drop k p) = q"
proof (induction p q i rule: find_from.induct)
  case (1 p q i)
  show ?case
    using "1.prems" "1.IH" by (subst (asm) find_from.simps)
      (auto simp: match_at_slice split: if_splits)
qed

lemma find_from_None:
  "find_from p q i = None \<Longrightarrow> i \<le> k \<Longrightarrow> k + length q \<le> length p \<Longrightarrow>
     take (length q) (drop k p) \<noteq> q"
proof (induction p q i rule: find_from.induct)
  case (1 p q i)
  show ?case
  proof (cases "i = k")
    case True
    with "1.prems" show ?thesis by (subst (asm) find_from.simps) (auto simp: match_at_slice split: if_splits)
  next
    case False
    with "1.prems" "1.IH" show ?thesis by (subst (asm) find_from.simps) (auto split: if_splits)
  qed
qed

lemma sublist_slice: "sublist q p \<longleftrightarrow> (\<exists>k. k + length q \<le> length p \<and> take (length q) (drop k p) = q)"
proof
  assume "sublist q p"
  then obtain xs ys where "p = xs @ q @ ys" by (auto simp: sublist_def)
  then show "\<exists>k. k + length q \<le> length p \<and> take (length q) (drop k p) = q"
    by (intro exI [of _ "length xs"]) simp
next
  assume "\<exists>k. k + length q \<le> length p \<and> take (length q) (drop k p) = q"
  then obtain k where "take (length q) (drop k p) = q" by blast
  then show "sublist q p" by (metis append_take_drop_id sublist_def)
qed

lemma searchInPayload_iff: "searchInPayload p q \<longleftrightarrow> q \<noteq> [] \<and> sublist q p"
proof -
  have "find_from p q 0 \<noteq> None \<longleftrightarrow> sublist q p"
    using find_from_Some [of p q 0] find_from_None [of p q 0]
    by (fastforce simp: sublist_slice)
  then show ?thesis
    by (auto simp: searchInPayload_def dest: sublist_length_le)
qed

text \<open>
  C40: the indexed byte loops decide containment: the worker reports a payload exactly when the
  non-empty query bytes occur in it as a contiguous block.
\<close>

theorem search_finds_exactly: "searchInPayload payloadLower queryBytes \<longleftrightarrow>
    queryBytes \<noteq> [] \<and> sublist queryBytes payloadLower"
  by (rule searchInPayload_iff)

lemma printable_range: "32 \<le> (of_char (printable b) :: nat) \<and> (of_char (printable b) :: nat) \<le> 126"
proof (cases "32 \<le> b \<and> b \<le> 126")
  case True
  then have "32 \<le> unat b \<and> unat b \<le> 126" by (simp add: word_le_nat_alt)
  then show ?thesis using True by (simp add: printable_def)
next
  case False
  then show ?thesis by (auto simp: printable_def)
qed

text \<open>
  Lemma: a preview never exceeds 50 characters and holds only printable ASCII, whatever the bytes.
\<close>

theorem preview_bounded_printable:
  "length (getPayloadPreview pb pl q) \<le> 50 \<and>
   (\<forall>c \<in> set (getPayloadPreview pb pl q). 32 \<le> (of_char c :: nat) \<and> (of_char c :: nat) \<le> 126)"
proof (cases "find_from pl q 0")
  case None
  then show ?thesis by (simp add: getPayloadPreview_def)
next
  case (Some k)
  then show ?thesis using printable_range
    by (auto simp: getPayloadPreview_def Let_def dest!: in_set_takeD)
qed

theorem preview_bounded_printable_witness:
  "32 \<le> (of_char (CHR ''A'') :: nat)"
proof -
  have k: "find_from [97] [97] 0 = Some 0"
    by (simp add: find_from.simps match_from.simps)
  have "CHR ''A'' \<in> set (getPayloadPreview [65] [97] [97])"
    by (simp add: getPayloadPreview_def k printable_def word_le_nat_alt char_of_def bit_0 Let_def)
  then show ?thesis using preview_bounded_printable [of "[65]" "[97]" "[97]"] by blast
qed

text \<open>
  Lemma: for a query of at most 27 bytes the preview of a match shows the matched bytes of the
  original payload, in full.
\<close>

theorem preview_shows_match:
  assumes "length pl = length pb" and "find_from pl q 0 = Some k" and "length q \<le> 27"
  shows "sublist (map printable (take (length q) (drop k pb))) (getPayloadPreview pb pl q)"
proof -
  let ?n = "length q"
  define start where "start = k - 20"
  define stop where "stop = min (length pb) (k + ?n + 20)"
  define win where "win = map printable (take (stop - start) (drop start pb))"
  have bnd: "k + ?n \<le> length pb" using find_from_Some [OF assms(2)] assms(1) by simp
  have off: "k - start \<le> 20" "start \<le> k" by (auto simp: start_def)
  have in_win: "take ?n (drop (k - start) (take m win)) = map printable (take ?n (drop k pb))"
    if "k - start + ?n \<le> m" for m
  proof -
    have "k - start + ?n \<le> stop - start" using bnd off by (auto simp: stop_def)
    then have "take (k - start + ?n) win = map printable (take (k - start + ?n) (drop start pb))"
      by (simp add: win_def take_map min_def)
    moreover have "take ?n (drop (k - start) (take m win)) =
        drop (k - start) (take (k - start + ?n) win)"
      using that by (simp add: take_drop min_def add.commute)
    ultimately show ?thesis using off
      by (simp add: drop_map take_drop [symmetric] drop_take)
  qed
  have win_off: "k - start + ?n \<le> 47" using off assms(3) by simp
  have sub: "sublist (map printable (take ?n (drop k pb))) (take m win)" if "k - start + ?n \<le> m" for m
    using in_win [OF that] by (metis sublist_take sublist_drop sublist_order.order.trans)
  have "getPayloadPreview pb pl q = (if 50 < length win then take 47 win @ ''...'' else win)"
    by (simp only: getPayloadPreview_def assms(2) win_def start_def stop_def Let_def option.case)
  moreover have "sublist (map printable (take ?n (drop k pb))) (take 47 win @ ''...'')"
    using sub [OF win_off] by (meson prefixI prefix_imp_sublist sublist_order.order.trans)
  moreover have "sublist (map printable (take ?n (drop k pb))) win"
    using sub [of "max (length win) (k - start + ?n)"] by simp
  ultimately show ?thesis by simp
qed

theorem preview_shows_match_witness:
  "sublist ''AB'' (getPayloadPreview [65, 66] [97, 98] [97, 98])"
proof -
  have k: "find_from [97, 98] [97, 98] 0 = Some 0"
    by (simp add: find_from.simps match_from.simps)
  have "map printable (take (length [97, 98 :: 8 word]) (drop 0 [65, 66])) = ''AB''"
    by (simp add: printable_def word_le_nat_alt char_of_def bit_0)
  then show ?thesis using preview_shows_match [of "[97, 98]" "[65, 66]", OF _ k] by simp
qed

section \<open>The handler reports every matching packet, and only those\<close>

definition packet_matches :: "bytes \<Rightarrow> packet \<Rightarrow> bool" where
  "packet_matches q p =
     (p_payload p \<noteq> [] \<and>
      (case base64ToBytes (p_payload p) of None \<Rightarrow> False
       | Some bs \<Rightarrow> q \<noteq> [] \<and> sublist q (toLowerBytes bs)))"

lemma search_packets_ids:
  "map r_packetId (search_packets q ps) = map p_id (filter (packet_matches q) ps)"
proof (induction ps)
  case Nil
  show ?case by simp
next
  case (Cons p ps)
  then show ?case
    by (cases "base64ToBytes (p_payload p)")
      (auto simp: packet_matches_def [of q p] searchInPayload_iff Let_def)
qed

text \<open>
  Lemma: the worker's answer to a request carries the request's id and lists, in the order given,
  exactly the packets whose payload decodes and contains the (lower-cased) query; a payload that
  does not decode is skipped without losing the others.
\<close>

theorem worker_reports_matches:
  "fst (onmessage ps query rid) = rid \<and>
   map r_packetId (snd (onmessage ps query rid)) =
     map p_id (filter (packet_matches (stringToBytes (lower_units query))) ps)"
  by (simp add: onmessage_def search_packets_ids)

lemma sent_payload_found:
  assumes "p_payload p = b64_encode (map unat bs)" and "bs \<noteq> []" and "u \<noteq> []"
    and "stringToBytes (lower_units u) = toLowerBytes bs"
  shows "packet_matches (stringToBytes (lower_units u)) p"
proof -
  have "b64_encode (map unat bs) \<noteq> []"
    using base64ToBytes_encode [of bs] assms(2)
    by (auto simp: base64ToBytes_def atob_def strip_pad_def map_filter_simps)
  then show ?thesis using assms
    by (auto simp: packet_matches_def base64ToBytes_encode stringToBytes_def lower_units_def)
qed

text \<open>
  Lemma: a code unit above 255 is cut to its low byte, so a query of the single character U+0161
  (small s with caron) reports every payload that contains the letter \<open>a\<close> or \<open>A\<close>.
\<close>

theorem wide_query_matches_letter:
  "map r_packetId (snd (onmessage ps [353] rid)) =
     map p_id (filter (packet_matches [97]) ps)"
proof -
  have "stringToBytes (lower_units [353]) = [97]"
    by (simp add: stringToBytes_def lower_units_def)
  then show ?thesis by (simp add: onmessage_def search_packets_ids)
qed

end
