(* ===== verification/Colors.thy ===== *)
theory Colors
  imports Prelude
begin

text \<open>
  \<^verbatim>\<open>static/colorutil.js\<close>: the colour parser the WebGL renderers share, with its cache, and the
  theme adjustment.  A channel is \<open>None\<close> where the source computes \<^verbatim>\<open>NaN\<close>.  The cache is
  passed in and out.  Number syntax with an exponent, a radix prefix or \<^verbatim>\<open>Infinity\<close> inside
  \<^verbatim>\<open>rgb(...)\<close> is read as \<^verbatim>\<open>NaN\<close>.
\<close>

type_synonym rgba = "real option list"
type_synonym color_cache = "(string \<times> rgba) list"

section \<open>The numbers of a colour\<close>

definition hex_digit :: "char \<Rightarrow> nat option" where
  "hex_digit c =
     (let n = (of_char c :: nat)
      in if 48 \<le> n \<and> n \<le> 57 then Some (n - 48)
         else if 65 \<le> n \<and> n \<le> 70 then Some (n - 55)
         else if 97 \<le> n \<and> n \<le> 102 then Some (n - 87)
         else None)"

text \<open>\<^verbatim>\<open>parseInt(s, 16)\<close>: white space, a sign, an optional \<^verbatim>\<open>0x\<close>, then the longest run of digits.\<close>

definition hex_run :: "string \<Rightarrow> int option" where
  "hex_run s =
     (let ds = List.map_filter hex_digit (takeWhile (\<lambda>c. hex_digit c \<noteq> None) s)
      in if ds = [] then None else Some (foldl (\<lambda>a d. 16 * a + int d) 0 ds))"

definition drop_0x :: "string \<Rightarrow> string" where
  "drop_0x s = (if prefix ''0x'' s \<or> prefix ''0X'' s then drop 2 s else s)"

definition parseInt16 :: "string \<Rightarrow> int option" where
  "parseInt16 s =
     (case dropWhile is_space s of
        [] \<Rightarrow> None
      | c # cs \<Rightarrow>
          if c = CHR ''-'' then map_option uminus (hex_run (drop_0x cs))
          else if c = CHR ''+'' then hex_run (drop_0x cs)
          else hex_run (drop_0x (c # cs)))"

text \<open>\<^verbatim>\<open>Number(s)\<close> on decimal literals: the empty string is 0.\<close>

definition parse_decimal :: "string \<Rightarrow> real option" where
  "parse_decimal s =
     (let ip = takeWhile is_digit s; rest = dropWhile is_digit s
      in case rest of
           [] \<Rightarrow> if ip = [] then None else Some (of_nat (read_nat ip))
         | c # fp \<Rightarrow>
             if c = CHR ''.'' \<and> list_all is_digit fp \<and> \<not> (ip = [] \<and> fp = [])
             then Some (of_nat (read_nat ip) + of_nat (read_nat fp) / 10 ^ length fp)
             else None)"

definition js_Number :: "string \<Rightarrow> real option" where
  "js_Number s =
     (case trim s of
        [] \<Rightarrow> Some 0
      | c # cs \<Rightarrow>
          if c = CHR ''-'' then map_option uminus (parse_decimal cs)
          else if c = CHR ''+'' then parse_decimal cs
          else parse_decimal (c # cs))"

section \<open>Parsing\<close>

definition channel255 :: "int option \<Rightarrow> real option" where
  "channel255 v = map_option (\<lambda>n. of_int n / 255) v"

definition parse_hex_color :: "string \<Rightarrow> rgba" where
  "parse_hex_color hex =
     (if length hex = 3
      then map (\<lambda>i. channel255 (parseInt16 [hex ! i, hex ! i])) [0, 1, 2] @ [Some 1]
      else map (\<lambda>i. channel255 (parseInt16 (take 2 (drop i hex)))) [0, 2, 4] @ [Some 1])"

text \<open>The first match of \<^verbatim>\<open>/rgba?\(([^)]+)\)/\<close>, its group.\<close>

definition rgba_here :: "string \<Rightarrow> string option" where
  "rgba_here s =
     (if prefix ''rgb'' s then
        let r = drop 3 s; r = (if prefix ''a'' r then drop 1 r else r)
        in case r of
             [] \<Rightarrow> None
           | c # cs \<Rightarrow>
               let body = takeWhile (\<lambda>x. x \<noteq> CHR '')'') cs
               in if c = CHR ''('' \<and> body \<noteq> [] \<and> length body < length cs then Some body else None
      else None)"

fun rgba_body :: "string \<Rightarrow> string option" where
  "rgba_body [] = None"
| "rgba_body (c # cs) =
     (case rgba_here (c # cs) of Some b \<Rightarrow> Some b | None \<Rightarrow> rgba_body cs)"

definition nth_number :: "real option list \<Rightarrow> nat \<Rightarrow> real option" where
  "nth_number p i = (if i < length p then p ! i else None)"

definition parse_rgba_color :: "string \<Rightarrow> rgba" where
  "parse_rgba_color body =
     (let p = map js_Number (split_on (CHR '','') body)
      in map (\<lambda>i. map_option (\<lambda>v. v / 255) (nth_number p i)) [0, 1, 2]
           @ [if 3 < length p then p ! 3 else Some 1])"

text \<open>\<open>None\<close>: neither form, so the caller's fallback is used.\<close>

definition parse_color :: "string \<Rightarrow> rgba option" where
  "parse_color str =
     (case str of
        c # hex \<Rightarrow> if c = CHR ''#'' then Some (parse_hex_color hex)
                   else map_option parse_rgba_color (rgba_body str)
      | [] \<Rightarrow> None)"

definition default_rgba :: rgba where
  "default_rgba = [Some (1 / 2), Some (1 / 2), Some (1 / 2), Some 1]"

text \<open>\<open>str = None\<close>: the argument is not a string.\<close>

definition parseRendererColor ::
    "string option \<Rightarrow> rgba option \<Rightarrow> color_cache \<Rightarrow> rgba \<times> color_cache" where
  "parseRendererColor str fallback cache =
     (let fb = (case fallback of Some f \<Rightarrow> f | None \<Rightarrow> default_rgba)
      in case str of
           None \<Rightarrow> (fb, cache)
         | Some st \<Rightarrow>
             if st = [] then (fb, cache)
             else case map_of cache st of
                    Some c \<Rightarrow> (c, cache)
                  | None \<Rightarrow>
                      let c = (case parse_color st of Some c \<Rightarrow> c | None \<Rightarrow> fb)
                      in (c, AList.update st c cache))"

section \<open>The theme adjustment\<close>

definition boost :: "real \<Rightarrow> real" where
  "boost v = min 1 (v + (1 - v) * (12 / 100))"

definition luminance :: "real \<Rightarrow> real \<Rightarrow> real \<Rightarrow> real" where
  "luminance r g b = 2126 / 10000 * r + 7152 / 10000 * g + 722 / 10000 * b"

definition adjust_dark :: "rgba \<Rightarrow> rgba" where
  "adjust_dark c =
     (case c of
        Some r # Some g # Some b # rest \<Rightarrow>
          let m = max r (max g b)
          in if 0 < m \<and> m < 95 / 100
             then Some (boost r) # Some (boost g) # Some (boost b) # rest else c
      | _ \<Rightarrow> c)"

definition adjust_light :: "rgba \<Rightarrow> rgba" where
  "adjust_light c =
     (case c of
        Some r # Some g # Some b # rest \<Rightarrow>
          let lum = luminance r g b;
              k = (if 75 / 100 < lum then 45 / 100 else if 55 / 100 < lum then 7 / 10 else 1)
          in Some (r * k) # Some (g * k) # Some (b * k) # rest
      | _ \<Rightarrow> c)"

definition themeProtocolColor ::
    "string option \<Rightarrow> bool \<Rightarrow> color_cache \<Rightarrow> rgba \<times> color_cache" where
  "themeProtocolColor hex isLight cache =
     (let (c, cache') =
            parseRendererColor hex (Some [Some (6 / 10), Some (65 / 100), Some (7 / 10), Some 1]) cache
      in ((if isLight then adjust_light c else adjust_dark c), cache'))"

section \<open>The cache is transparent for what parses\<close>

definition cache_ok :: "color_cache \<Rightarrow> bool" where
  "cache_ok cache \<longleftrightarrow> (\<forall>st c p. map_of cache st = Some c \<longrightarrow> parse_color st = Some p \<longrightarrow> c = p)"

lemma cache_ok_empty [simp]: "cache_ok []"
  by (simp add: cache_ok_def)

lemma cache_ok_step: "cache_ok cache \<Longrightarrow> cache_ok (snd (parseRendererColor str fb cache))"
  by (auto simp: cache_ok_def parseRendererColor_def Let_def split: option.splits)

fun parse_all :: "(string option \<times> rgba option) list \<Rightarrow> color_cache \<Rightarrow> color_cache" where
  "parse_all [] cache = cache"
| "parse_all ((st, fb) # qs) cache = parse_all qs (snd (parseRendererColor st fb cache))"

lemma cache_ok_parse_all: "cache_ok cache \<Longrightarrow> cache_ok (parse_all qs cache)"
  by (induction qs cache rule: parse_all.induct) (auto simp: cache_ok_step)

lemma parse_color_cached:
  assumes "parse_color st = Some c"
  shows "fst (parseRendererColor (Some st) fb (parse_all qs [])) = c"
proof -
  have ok: "cache_ok (parse_all qs [])" by (simp add: cache_ok_parse_all)
  have "st \<noteq> []" using assms by (auto simp: parse_color_def)
  then show ?thesis using ok assms
    by (auto simp: parseRendererColor_def cache_ok_def split: option.splits)
qed

text \<open>
  Lemma: whatever calls came before (with whatever fallbacks), a string that parses gives its own
  colour, so the shared cache is invisible to both renderers on every parseable colour.
\<close>

theorem parse_cached_transparent:
  assumes "parse_color st = Some c"
  shows "fst (parseRendererColor (Some st) fb (parse_all qs [])) = c"
  using assms by (rule parse_color_cached)

theorem parse_cached_transparent_witness:
  "parse_color ''#fff'' = Some [Some 1, Some 1, Some 1, Some 1] \<and>
   fst (parseRendererColor (Some ''#fff'') None
     (parse_all [(Some ''bad'', None), (Some ''#fff'', None)] []))
   = [Some 1, Some 1, Some 1, Some 1]"
proof -
  have p: "parse_color ''#fff'' = Some [Some 1, Some 1, Some 1, Some 1]"
    by (simp add: parse_color_def parse_hex_color_def parseInt16_def is_space_def hex_run_def
        drop_0x_def hex_digit_def channel255_def map_filter_def)
  show ?thesis
    using p parse_cached_transparent [OF p, of None "[(Some ''bad'', None), (Some ''#fff'', None)]"]
    by simp
qed

text \<open>
  Lemma: a string in neither form is cached with the fallback of its first caller: a later call with
  another fallback gets the first one's.
\<close>

theorem unparsed_keeps_first_fallback:
  assumes "parse_color st = None" and "st \<noteq> []" and "map_of cache st = None"
  shows "fst (parseRendererColor (Some st) (Some f2)
           (snd (parseRendererColor (Some st) (Some f1) cache))) = f1"
  using assms by (simp add: parseRendererColor_def Let_def)

theorem unparsed_keeps_first_fallback_witness:
  "fst (parseRendererColor (Some ''red'') (Some [Some 0, Some 0, Some 0, Some 1])
      (snd (parseRendererColor (Some ''red'') (Some [Some 1, Some 1, Some 1, Some 1]) [])))
   = [Some 1, Some 1, Some 1, Some 1]"
proof -
  have "parse_color ''red'' = None"
    by (simp add: parse_color_def rgba_here_def)
  then show ?thesis
    using unparsed_keeps_first_fallback
      [of "''red''" "[]" "[Some 0, Some 0, Some 0, Some 1]" "[Some 1, Some 1, Some 1, Some 1]"]
    by simp
qed

section \<open>Round trip and ranges\<close>

definition nibble :: "nat \<Rightarrow> char" where
  "nibble n = (if n < 10 then char_of (48 + n) else char_of (87 + n))"

definition hex_byte :: "nat \<Rightarrow> string" where
  "hex_byte n = [nibble (n div 16), nibble (n mod 16)]"

definition unit_channel :: "real option \<Rightarrow> bool" where
  "unit_channel ch = (case ch of None \<Rightarrow> True | Some v \<Rightarrow> 0 \<le> v \<and> v \<le> 1)"

lemma of_char_nibble: "n < 16 \<Longrightarrow> (of_char (nibble n) :: nat) = (if n < 10 then 48 + n else 87 + n)"
  by (simp add: nibble_def)

lemma hex_digit_nibble [simp]: "n < 16 \<Longrightarrow> hex_digit (nibble n) = Some n"
  by (auto simp: hex_digit_def of_char_nibble Let_def)

lemma nibble_neq: "n < 16 \<Longrightarrow> nibble n \<noteq> c" if "(of_char c :: nat) \<notin> {48..57} \<union> {97..102}" for c
  using that of_char_nibble [of n] by (auto split: if_splits)

lemma nibble_not_space [simp]: "n < 16 \<Longrightarrow> \<not> is_space (nibble n)"
  by (simp add: is_space_def of_char_nibble)

lemma parseInt16_hex_byte [simp]: "n < 256 \<Longrightarrow> parseInt16 (hex_byte n) = Some (int n)"
proof -
  assume n: "n < 256"
  have d: "n div 16 < 16" and m: "n mod 16 < 16" using n by auto
  have neq: "nibble (n div 16) \<noteq> CHR ''-''" "nibble (n div 16) \<noteq> CHR ''+''"
    "nibble (n mod 16) \<noteq> CHR ''x''" "nibble (n mod 16) \<noteq> CHR ''X''"
    using d m by (simp_all add: nibble_neq)
  have "16 * int (n div 16) + int (n mod 16) = int n"
    by (simp flip: of_nat_mult of_nat_add add: zdiv_int zmod_int)
  then show ?thesis using d m neq
    by (simp add: parseInt16_def hex_byte_def hex_run_def drop_0x_def map_filter_def)
qed

lemma hex_color_roundtrip_aux:
  assumes "r < 256" and "g < 256" and "b < 256"
  shows "parse_color (CHR ''#'' # hex_byte r @ hex_byte g @ hex_byte b) =
    Some [Some (real r / 255), Some (real g / 255), Some (real b / 255), Some 1]"
proof -
  have "take 2 (hex_byte x @ ys) = hex_byte x" "drop 2 (hex_byte x @ ys) = ys"
    "drop 4 (hex_byte x @ hex_byte y @ ys) = ys" "length (hex_byte x) = 2" for x y ys
    by (simp_all add: hex_byte_def)
  then show ?thesis using assms
    by (simp add: parse_color_def parse_hex_color_def channel255_def)
qed

text \<open>
  Lemma: printing a colour as \<^verbatim>\<open>#rrggbb\<close> and parsing it gives the bytes back, scaled to 0..1.
\<close>

theorem hex_color_roundtrip:
  assumes "r < 256" and "g < 256" and "b < 256"
  shows "parse_color (CHR ''#'' # hex_byte r @ hex_byte g @ hex_byte b) =
    Some [Some (real r / 255), Some (real g / 255), Some (real b / 255), Some 1]"
  using assms by (rule hex_color_roundtrip_aux)

theorem hex_color_roundtrip_witness:
  "parse_color ''#3498db'' = Some [Some (52 / 255), Some (152 / 255), Some (219 / 255), Some 1]"
  using hex_color_roundtrip [of 52 152 219] by (simp add: hex_byte_def nibble_def char_of_def bit_0)

lemma boost_range: "0 \<le> v \<Longrightarrow> v \<le> 1 \<Longrightarrow> 0 \<le> boost v \<and> boost v \<le> 1"
  by (auto simp: boost_def)

lemma adjust_light_range: "\<forall>ch \<in> set c. unit_channel ch \<Longrightarrow> \<forall>ch \<in> set (adjust_light c). unit_channel ch"
  by (auto simp: adjust_light_def unit_channel_def Let_def mult_le_one
      split: list.splits option.splits)

lemma adjust_dark_range: "\<forall>ch \<in> set c. unit_channel ch \<Longrightarrow> \<forall>ch \<in> set (adjust_dark c). unit_channel ch"
  by (auto simp: adjust_dark_def unit_channel_def Let_def dest: boost_range
      split: list.splits option.splits intro: order_trans)

lemma theme_color_split:
  "fst (themeProtocolColor hex isLight cache) =
     (if isLight then adjust_light else adjust_dark)
       (fst (parseRendererColor hex (Some [Some (6 / 10), Some (65 / 100), Some (7 / 10), Some 1]) cache))"
  by (simp add: themeProtocolColor_def split: prod.splits)

text \<open>
  Lemma: on either theme, the colour of a protocol given as \<^verbatim>\<open>#rrggbb\<close> stays inside 0..1 on every
  channel, whatever the cache has seen.
\<close>

theorem theme_color_range:
  assumes "r < 256" and "g < 256" and "b < 256"
    and "ch \<in> set (fst (themeProtocolColor (Some (CHR ''#'' # hex_byte r @ hex_byte g @ hex_byte b))
           isLight (parse_all qs [])))"
  shows "unit_channel ch"
proof -
  let ?st = "CHR ''#'' # hex_byte r @ hex_byte g @ hex_byte b"
  let ?c = "[Some (real r / 255), Some (real g / 255), Some (real b / 255), Some 1]"
  have p: "parse_color ?st = Some ?c" using assms by (intro hex_color_roundtrip_aux) auto
  have parsed: "fst (parseRendererColor (Some ?st) fb (parse_all qs [])) = ?c" for fb
    by (rule parse_color_cached [OF p])
  have ok: "\<forall>ch \<in> set ?c. unit_channel ch"
    using assms(1-3) by (auto simp: unit_channel_def)
  have "ch \<in> set ((if isLight then adjust_light else adjust_dark) ?c)"
    using assms(4) by (simp only: theme_color_split parsed)
  then show ?thesis
    using adjust_light_range [OF ok] adjust_dark_range [OF ok] by (cases isLight) auto
qed

theorem theme_color_range_witness:
  "unit_channel (Some (1 * (45 / 100)))"
proof -
  have "Some (1 * (45 / 100)) \<in> set (fst (themeProtocolColor
      (Some (CHR ''#'' # hex_byte 255 @ hex_byte 255 @ hex_byte 255)) True (parse_all [] [])))"
    using hex_color_roundtrip_aux [of 255 255 255]
    by (simp add: themeProtocolColor_def parseRendererColor_def adjust_light_def luminance_def Let_def)
  from theme_color_range [OF _ _ _ this] show ?thesis by simp
qed

end
