(* ===== verification/HitTest.thy ===== *)
theory HitTest
  imports Renderer
begin

text \<open>
  Pointer input of the WebGL renderer (\<^verbatim>\<open>static/glrenderer.js\<close>): the spatial hash and the
  search in it, the distance to a curved edge, mouse buttons, dragging, hovering, and the poll that
  fits the camera once the layout has settled.  The reference definitions say what a hit is; the
  code's routines are shown to find it.  Ids are never the empty string, which the code would read
  as no id.
\<close>

section \<open>Hits on nodes\<close>

definition HIT_GRID_CELL :: real where "HIT_GRID_CELL = 80"

definition cell_of :: "real \<times> real \<Rightarrow> int \<times> int" where
  "cell_of p = (\<lfloor>fst p / HIT_GRID_CELL\<rfloor>, \<lfloor>snd p / HIT_GRID_CELL\<rfloor>)"

definition grid_add :: "string \<times> body_node \<Rightarrow> ((int \<times> int) \<times> string list) list \<Rightarrow> ((int \<times> int) \<times> string list) list" where
  "grid_add kn grid =
     (let key = cell_of (b_x (snd kn), b_y (snd kn));
          bucket = (case map_of grid key of None \<Rightarrow> [] | Some ids \<Rightarrow> ids)
      in AList.update key (bucket @ [fst kn]) grid)"

definition rebuildHitGrid :: "renderer \<Rightarrow> renderer" where
  "rebuildHitGrid r =
     r\<lparr>rn_hitGrid := Some (fold grid_add (rn_nodes r) []), rn_cachedNodeCount := length (rn_nodes r), rn_hitDirty := False\<rparr>"

text \<open>\<^verbatim>\<open>n.options.size || 20\<close>, widened by four screen pixels.\<close>

definition hit_radius :: "renderer \<Rightarrow> body_node \<Rightarrow> real" where
  "hit_radius r n = (if b_size n = 0 then 20 else b_size n) + 4 / cam_scale (rn_camera r)"

definition sq_dist :: "real \<times> real \<Rightarrow> real \<times> real \<Rightarrow> real" where
  "sq_dist p q = (fst p - fst q) * (fst p - fst q) + (snd p - snd q) * (snd p - snd q)"

definition node_dist :: "real \<times> real \<Rightarrow> body_node \<Rightarrow> real" where
  "node_dist g n = sq_dist g (b_x n, b_y n)"

definition closer :: "real \<Rightarrow> ('a \<times> real) option \<Rightarrow> bool" where
  "closer d best = (case best of None \<Rightarrow> True | Some (_, bd) \<Rightarrow> d < bd)"

definition consider_node :: "renderer \<Rightarrow> real \<times> real \<Rightarrow> string \<Rightarrow> (string \<times> real) option \<Rightarrow> (string \<times> real) option" where
  "consider_node r g k best =
     (case map_of (rn_nodes r) k of
        None \<Rightarrow> best
      | Some n \<Rightarrow>
          let rad = hit_radius r n; d = node_dist g n
          in if d < rad * rad \<and> closer d best then Some (k, d) else best)"

definition neighbour_cells :: "int \<times> int \<Rightarrow> (int \<times> int) list" where
  "neighbour_cells c = [(fst c + dx, snd c + dy). dx \<leftarrow> [-1, 0, 1], dy \<leftarrow> [-1, 0, 1]]"

definition grid_bucket :: "renderer \<Rightarrow> int \<times> int \<Rightarrow> string list" where
  "grid_bucket r c =
     (case rn_hitGrid r of None \<Rightarrow> []
      | Some grid \<Rightarrow> (case map_of grid c of None \<Rightarrow> [] | Some ids \<Rightarrow> ids))"

definition hitNode :: "real \<times> real \<Rightarrow> renderer \<Rightarrow> string option \<times> renderer" where
  "hitNode p r =
     (let g = DOMtoCanvas r p;
          r = (if rn_hitDirty r \<or> rn_hitGrid r = None then rebuildHitGrid r else r);
          ids = concat (map (grid_bucket r) (neighbour_cells (cell_of g)))
      in (map_option fst (fold (consider_node r g) ids None), r))"

text \<open>The reference: among the nodes whose disc the point is in, a nearest one.\<close>

definition node_hit_at :: "renderer \<Rightarrow> real \<times> real \<Rightarrow> string \<Rightarrow> bool" where
  "node_hit_at r g k = (\<exists>n. map_of (rn_nodes r) k = Some n \<and> node_dist g n < hit_radius r n * hit_radius r n)"

definition nearest_hit :: "renderer \<Rightarrow> real \<times> real \<Rightarrow> string option \<Rightarrow> bool" where
  "nearest_hit r g res =
     (case res of
        None \<Rightarrow> \<forall>k. \<not> node_hit_at r g k
      | Some k \<Rightarrow> node_hit_at r g k \<and>
          (\<forall>k' n n'. map_of (rn_nodes r) k = Some n \<longrightarrow> map_of (rn_nodes r) k' = Some n' \<longrightarrow> node_hit_at r g k' \<longrightarrow>
             node_dist g n \<le> node_dist g n'))"

section \<open>Hits on edges\<close>

definition EDGE_CURVE :: real where "EDGE_CURVE = 12 / 100"

definition edgeBend :: "string \<Rightarrow> string \<Rightarrow> real" where
  "edgeBend f t = (if lexordp (\<lambda>a b. (of_char a :: nat) < of_char b) f t then 1 else - 1)"

definition edgeCurvePoint :: "real \<times> real \<Rightarrow> real \<times> real \<Rightarrow> real \<Rightarrow> real \<Rightarrow> real \<times> real" where
  "edgeCurvePoint a b t bend =
     (let dx = fst b - fst a; dy = snd b - snd a;
          len = (if dx = 0 \<and> dy = 0 then 1 / 10000 else sqrt (dx * dx + dy * dy));
          cx = (fst a + fst b) / 2 - dy / len * len * EDGE_CURVE * bend;
          cy = (snd a + snd b) / 2 + dx / len * len * EDGE_CURVE * bend;
          mt = 1 - t
      in (mt * mt * fst a + 2 * mt * t * cx + t * t * fst b, mt * mt * snd a + 2 * mt * t * cy + t * t * snd b))"

text \<open>The point of the segment nearest to \<open>g\<close>, as the code computes it.\<close>

definition seg_param :: "real \<times> real \<Rightarrow> real \<times> real \<Rightarrow> real \<times> real \<Rightarrow> real" where
  "seg_param g a b =
     (let abx = fst b - fst a; aby = snd b - snd a; len2 = abx * abx + aby * aby;
          t = (if 0 < len2 then ((fst g - fst a) * abx + (snd g - snd a) * aby) / len2 else 0)
      in max 0 (min 1 t))"

definition seg_point :: "real \<times> real \<Rightarrow> real \<times> real \<Rightarrow> real \<Rightarrow> real \<times> real" where
  "seg_point a b t = (fst a + (fst b - fst a) * t, snd a + (snd b - snd a) * t)"

definition seg_dist :: "real \<times> real \<Rightarrow> real \<times> real \<Rightarrow> real \<times> real \<Rightarrow> real" where
  "seg_dist g a b = sq_dist g (seg_point a b (seg_param g a b))"

text \<open>The eight pieces of the polyline that stands for the curve.\<close>

definition curve_pieces :: "real \<times> real \<Rightarrow> real \<times> real \<Rightarrow> real \<Rightarrow> ((real \<times> real) \<times> (real \<times> real)) list" where
  "curve_pieces a b bend =
     map (\<lambda>i. (if i = 1 then a else edgeCurvePoint a b (real (i - 1) / 8) bend, edgeCurvePoint a b (real i / 8) bend)) [1..<9]"

definition consider_piece :: "string \<Rightarrow> real \<times> real \<Rightarrow> (real \<times> real) \<times> (real \<times> real) \<Rightarrow> string option \<times> real \<Rightarrow> string option \<times> real" where
  "consider_piece k g pq best =
     (let d = seg_dist g (fst pq) (snd pq) in if d < snd best then (Some k, d) else best)"

definition edge_ends :: "renderer \<Rightarrow> body_edge \<Rightarrow> ((real \<times> real) \<times> (real \<times> real)) option" where
  "edge_ends r e =
     (case (map_of (rn_nodes r) (be_from e), map_of (rn_nodes r) (be_to e)) of
        (Some a, Some b) \<Rightarrow> Some ((b_x a, b_y a), (b_x b, b_y b))
      | _ \<Rightarrow> None)"

definition hit_slack :: "renderer \<Rightarrow> real" where
  "hit_slack r = 6 / cam_scale (rn_camera r)"

definition rejected :: "renderer \<Rightarrow> real \<times> real \<Rightarrow> real \<times> real \<Rightarrow> real \<times> real \<Rightarrow> bool" where
  "rejected r g a b =
     (let bow = sqrt (sq_dist a b) * EDGE_CURVE * (1 / 2) + hit_slack r in bow * bow < seg_dist g a b)"

definition consider_edge :: "renderer \<Rightarrow> real \<times> real \<Rightarrow> string \<times> body_edge \<Rightarrow> string option \<times> real \<Rightarrow> string option \<times> real" where
  "consider_edge r g ke best =
     (case edge_ends r (snd ke) of
        None \<Rightarrow> best
      | Some (a, b) \<Rightarrow>
          if rejected r g a b then best
          else fold (consider_piece (fst ke) g) (curve_pieces a b (edgeBend (be_from (snd ke)) (be_to (snd ke)))) best)"

definition hitEdge :: "real \<times> real \<Rightarrow> renderer \<Rightarrow> string option" where
  "hitEdge p r =
     (let g = DOMtoCanvas r p in fst (fold (consider_edge r g) (rn_edges r) (None, hit_slack r * hit_slack r)))"

text \<open>The reference: every curve is measured, none is rejected first.\<close>

definition measure_edge :: "renderer \<Rightarrow> real \<times> real \<Rightarrow> string \<times> body_edge \<Rightarrow> string option \<times> real \<Rightarrow> string option \<times> real" where
  "measure_edge r g ke best =
     (case edge_ends r (snd ke) of
        None \<Rightarrow> best
      | Some (a, b) \<Rightarrow>
          fold (consider_piece (fst ke) g) (curve_pieces a b (edgeBend (be_from (snd ke)) (be_to (snd ke)))) best)"

definition nearest_edge :: "real \<times> real \<Rightarrow> renderer \<Rightarrow> string option" where
  "nearest_edge p r =
     (let g = DOMtoCanvas r p in fst (fold (measure_edge r g) (rn_edges r) (None, hit_slack r * hit_slack r)))"

section \<open>The mouse\<close>

datatype gl_event =
  HoverNode string | BlurNode string | HoverEdge string | BlurEdge string
| Click "string list" "string list"
| DragStart "string list" | DragEnd "string list"

record mouse_down =
  md_x :: real
  md_y :: real
  md_node :: "string option"
  md_moved :: bool

record gl_input =
  gi_down :: "mouse_down option"
  gi_hoverNode :: "string option"
  gi_hoverEdge :: "string option"
  gi_events :: "gl_event list"      \<comment> \<open>what the listeners were told, oldest first\<close>

definition tell :: "gl_event list \<Rightarrow> gl_input \<Rightarrow> gl_input" where
  "tell evs s = s\<lparr>gi_events := gi_events s @ evs\<rparr>"

definition mouse_pressed :: "nat \<Rightarrow> real \<times> real \<Rightarrow> gl_input \<times> renderer \<Rightarrow> gl_input \<times> renderer" where
  "mouse_pressed button p sr =
     (if button \<noteq> 0 then sr
      else let (k, r) = hitNode p (snd sr)
           in ((fst sr)\<lparr>gi_down := Some \<lparr> md_x = fst p, md_y = snd p, md_node = k, md_moved = False \<rparr>\<rparr>, r))"

definition move_body :: "string \<Rightarrow> real \<times> real \<Rightarrow> renderer \<Rightarrow> renderer" where
  "move_body k g r =
     (case map_of (rn_nodes r) k of None \<Rightarrow> r
      | Some n \<Rightarrow> r\<lparr>rn_nodes := AList.update k (n\<lparr>b_x := fst g, b_y := snd g\<rparr>) (rn_nodes r)\<rparr>)"

definition pan_camera :: "real \<times> real \<Rightarrow> renderer \<Rightarrow> renderer" where
  "pan_camera d r =
     (let c = rn_camera r
      in r\<lparr>rn_camera := c\<lparr>cam_cx := cam_cx c - fst d / cam_scale c, cam_cy := cam_cy c - snd d / cam_scale c\<rparr>,
           rn_anim := None, rn_userMovedCamera := True\<rparr>)"

definition opt_list :: "'a option \<Rightarrow> 'a list" where
  "opt_list x = (case x of None \<Rightarrow> [] | Some v \<Rightarrow> [v])"

definition mouse_dragged :: "real \<times> real \<Rightarrow> mouse_down \<Rightarrow> gl_input \<times> renderer \<Rightarrow> gl_input \<times> renderer" where
  "mouse_dragged p md sr =
     (let (s, r) = sr; dx = fst p - md_x md; dy = snd p - md_y md;
          begins = (\<not> md_moved md \<and> 16 < dx * dx + dy * dy);
          md = (if begins then md\<lparr>md_moved := True\<rparr> else md);
          s = (if begins then tell [DragStart (opt_list (md_node md))] s else s)
      in if \<not> md_moved md then (s\<lparr>gi_down := Some md\<rparr>, r)
         else case md_node md of
                Some k \<Rightarrow> (s\<lparr>gi_down := Some md\<rparr>, redraw (move_body k (DOMtoCanvas r p) r))
              | None \<Rightarrow> (s\<lparr>gi_down := Some (md\<lparr>md_x := fst p, md_y := snd p\<rparr>)\<rparr>, redraw (pan_camera (dx, dy) r)))"

definition hover_node :: "string option \<Rightarrow> gl_input \<Rightarrow> gl_input" where
  "hover_node n s =
     (if n = gi_hoverNode s then s
      else tell (map BlurNode (opt_list (gi_hoverNode s)) @ map HoverNode (opt_list n)) (s\<lparr>gi_hoverNode := n\<rparr>))"

definition hover_edge :: "string option \<Rightarrow> gl_input \<Rightarrow> gl_input" where
  "hover_edge e s =
     (if e = gi_hoverEdge s then s
      else tell (map BlurEdge (opt_list (gi_hoverEdge s)) @ map HoverEdge (opt_list e)) (s\<lparr>gi_hoverEdge := e\<rparr>))"

definition pointer_hover :: "real \<times> real \<Rightarrow> gl_input \<times> renderer \<Rightarrow> gl_input \<times> renderer" where
  "pointer_hover p sr =
     (if \<not> in_hover (op_interaction (rn_options (snd sr))) then sr
      else
        let (n, r) = hitNode p (snd sr); s = hover_node n (fst sr)
        in (hover_edge (if n = None then hitEdge p r else None) s, r))"

definition mouse_moved :: "real \<times> real \<Rightarrow> gl_input \<times> renderer \<Rightarrow> gl_input \<times> renderer" where
  "mouse_moved p sr =
     (case gi_down (fst sr) of Some md \<Rightarrow> mouse_dragged p md sr | None \<Rightarrow> pointer_hover p sr)"

definition mouse_released :: "nat \<Rightarrow> bool \<Rightarrow> real \<times> real \<Rightarrow> gl_input \<times> renderer \<Rightarrow> gl_input \<times> renderer" where
  "mouse_released button inside p sr =
     (case (button, gi_down (fst sr)) of
        (0, Some md) \<Rightarrow>
          let s = (fst sr)\<lparr>gi_down := None\<rparr>; r = snd sr
          in if md_moved md then (tell [DragEnd (opt_list (md_node md))] s, r)
             else if \<not> inside then (s, r)
             else
               let (n, r) = hitNode p r;
                   e = (if n = None then hitEdge p r else None);
                   r = r\<lparr>rn_selected := n\<rparr>;
                   es = (case n of Some k \<Rightarrow> getConnectedEdges r k | None \<Rightarrow> opt_list e)
               in (tell [Click (opt_list n) es] s, redraw r)
      | _ \<Rightarrow> sr)"

definition mouse_left :: "gl_input \<Rightarrow> gl_input" where
  "mouse_left s = hover_edge None (hover_node None s)"

section \<open>Fitting the camera once the layout has settled\<close>

record settle =
  se_sig :: "(int \<times> int \<times> int \<times> int) option"
  se_stable :: nat
  se_checks :: nat

definition start_settle :: settle where
  "start_settle = \<lparr> se_sig = None, se_stable = 0, se_checks = 0 \<rparr>"

definition settle_sig :: "(string \<times> body_node) list \<Rightarrow> int \<times> int \<times> int \<times> int" where
  "settle_sig ns =
     (let ((minX, maxX), (minY, maxY)) = bounds ns in (round minX, round minY, round maxX, round maxY))"

text \<open>One tick of the interval; \<open>None\<close> when it is cleared.\<close>

definition settle_tick :: "real \<Rightarrow> settle \<times> renderer \<Rightarrow> settle option \<times> renderer" where
  "settle_tick nowMs st =
     (let (w, r) = st
      in if rn_destroyed r \<or> rn_userMovedCamera r then (None, r)
         else
           let w = w\<lparr>se_checks := Suc (se_checks w)\<rparr>
           in if 40 < se_checks w then (None, r)
              else if rn_nodes r = [] then (Some w, r)
              else if se_sig w = Some (settle_sig (rn_nodes r)) then
                (if 2 \<le> Suc (se_stable w) then (None, fit nowMs (Some 400) r)
                 else (Some (w\<lparr>se_stable := Suc (se_stable w)\<rparr>), r))
              else (Some (w\<lparr>se_stable := 0, se_sig := Some (settle_sig (rn_nodes r))\<rparr>), r))"

section \<open>The hash finds what a full search finds\<close>

text \<open>Every bucket holds exactly the nodes whose position lies in its cell.\<close>

definition grid_ok :: "renderer \<Rightarrow> bool" where
  "grid_ok r = (\<forall>c k. k \<in> set (grid_bucket r c)
     \<longleftrightarrow> (\<exists>n. map_of (rn_nodes r) k = Some n \<and> cell_of (b_x n, b_y n) = c))"

definition bucket_of :: "((int \<times> int) \<times> string list) list \<Rightarrow> int \<times> int \<Rightarrow> string list" where
  "bucket_of grid c = (case map_of grid c of None \<Rightarrow> [] | Some ids \<Rightarrow> ids)"

lemma bucket_add: "bucket_of (grid_add kn grid) c =
    bucket_of grid c @ (if c = cell_of (b_x (snd kn), b_y (snd kn)) then [fst kn] else [])"
  by (simp add: grid_add_def bucket_of_def Let_def update_Some_unfold split: option.split)

lemma bucket_fold: "set (bucket_of (fold grid_add ns grid) c) =
    set (bucket_of grid c) \<union> fst ` {kn \<in> set ns. cell_of (b_x (snd kn), b_y (snd kn)) = c}"
  by (induction ns arbitrary: grid) (auto simp: bucket_add)

lemma rebuild_bucket:
  assumes "distinct (map fst (rn_nodes r))"
  shows "k \<in> set (grid_bucket (rebuildHitGrid r) c)
    \<longleftrightarrow> (\<exists>n. map_of (rn_nodes r) k = Some n \<and> cell_of (b_x n, b_y n) = c)"
proof -
  have "grid_bucket (rebuildHitGrid r) c = bucket_of (fold grid_add (rn_nodes r) []) c"
    by (simp add: grid_bucket_def rebuildHitGrid_def bucket_of_def)
  moreover have "bucket_of [] c = []" by (simp add: bucket_of_def)
  ultimately have "set (grid_bucket (rebuildHitGrid r) c)
      = fst ` {kn \<in> set (rn_nodes r). cell_of (b_x (snd kn), b_y (snd kn)) = c}" by (simp only: bucket_fold) simp
  moreover have "map_of (rn_nodes r) k = Some n \<longleftrightarrow> (k, n) \<in> set (rn_nodes r)" for n using assms by simp
  ultimately show ?thesis by (simp only:) (simp add: image_iff Bex_def)
qed

lemma rebuild_ok: "distinct (map fst (rn_nodes r)) \<Longrightarrow> grid_ok (rebuildHitGrid r)"
  by (simp add: grid_ok_def rebuild_bucket) (simp add: rebuildHitGrid_def)

lemma near_cells:
  assumes "\<bar>x - y\<bar> < HIT_GRID_CELL"
  shows "\<lfloor>y / HIT_GRID_CELL\<rfloor> - \<lfloor>x / HIT_GRID_CELL\<rfloor> \<in> {-1, 0, 1}"
proof -
  let ?u = "x / HIT_GRID_CELL" and ?v = "y / HIT_GRID_CELL"
  have "?u < ?v + 1" "?v < ?u + 1" using assms by (simp_all add: HIT_GRID_CELL_def abs_less_iff field_simps)
  then have "\<lfloor>?u\<rfloor> \<le> \<lfloor>?v\<rfloor> + 1" "\<lfloor>?v\<rfloor> \<le> \<lfloor>?u\<rfloor> + 1" by linarith+
  then have "\<lfloor>?v\<rfloor> - \<lfloor>?u\<rfloor> = -1 \<or> \<lfloor>?v\<rfloor> - \<lfloor>?u\<rfloor> = 0 \<or> \<lfloor>?v\<rfloor> - \<lfloor>?u\<rfloor> = 1" by presburger
  then show ?thesis by blast
qed

lemma neighbour_cell_iff: "(x', y') \<in> set (neighbour_cells (x, y)) \<longleftrightarrow> x' - x \<in> {-1, 0, 1} \<and> y' - y \<in> {-1, 0, 1}"
  by (simp add: neighbour_cells_def) presburger

lemma square_bound:
  assumes "(u :: real) * u + v * v < w * w" and "0 \<le> w"
  shows "\<bar>u\<bar> < w"
proof -
  have "0 \<le> v * v" by simp
  then have "\<bar>u\<bar>\<^sup>2 < w\<^sup>2" using assms(1) unfolding power2_abs power2_eq_square by linarith
  then show ?thesis using assms(2) by (rule power2_less_imp_less)
qed

lemma hit_in_neighbourhood:
  assumes "node_dist g n < rad * rad" and "0 \<le> rad" and "rad \<le> HIT_GRID_CELL"
  shows "cell_of (b_x n, b_y n) \<in> set (neighbour_cells (cell_of g))"
proof -
  have "\<bar>fst g - b_x n\<bar> < rad" using square_bound [of "fst g - b_x n" "snd g - b_y n" rad] assms(1,2)
    by (simp add: node_dist_def sq_dist_def)
  moreover have "\<bar>snd g - b_y n\<bar> < rad" using square_bound [of "snd g - b_y n" "fst g - b_x n" rad] assms(1,2)
    by (simp add: node_dist_def sq_dist_def add.commute)
  ultimately show ?thesis using near_cells [of "fst g" "b_x n"] near_cells [of "snd g" "b_y n"] assms(3)
    by (simp add: neighbour_cell_iff cell_of_def)
qed

text \<open>What the scan of a list of ids leaves.\<close>

definition best_of :: "renderer \<Rightarrow> real \<times> real \<Rightarrow> string set \<Rightarrow> (string \<times> real) option \<Rightarrow> bool" where
  "best_of r g ids best =
     (case best of
        None \<Rightarrow> \<forall>k \<in> ids. \<not> node_hit_at r g k
      | Some (k, d) \<Rightarrow> k \<in> ids \<and> node_hit_at r g k \<and> (\<exists>n. map_of (rn_nodes r) k = Some n \<and> node_dist g n = d)
          \<and> (\<forall>k' \<in> ids. \<forall>n'. map_of (rn_nodes r) k' = Some n' \<longrightarrow> node_hit_at r g k' \<longrightarrow> d \<le> node_dist g n'))"

lemma consider_best: "best_of r g ids best \<Longrightarrow> best_of r g (insert k ids) (consider_node r g k best)"
  by (cases best) (auto simp: best_of_def consider_node_def node_hit_at_def closer_def Let_def split: option.splits)

lemma scan_best: "best_of r g A best \<Longrightarrow> best_of r g (set ids \<union> A) (fold (consider_node r g) ids best)"
proof (induction ids arbitrary: A best)
  case (Cons k ids)
  from Cons.IH [OF consider_best [OF Cons.prems, of k]] show ?case by (simp add: insert_commute Un_assoc)
qed simp

lemma best_is_nearest:
  assumes "best_of r g ids best" and "\<And>k. node_hit_at r g k \<Longrightarrow> k \<in> ids"
  shows "nearest_hit r g (map_option fst best)"
  using assms by (cases best) (auto simp: nearest_hit_def best_of_def, blast+)

lemma rebuild_frame [simp]: "rn_nodes (rebuildHitGrid r) = rn_nodes r" "rn_camera (rebuildHitGrid r) = rn_camera r"
  "DOMtoCanvas (rebuildHitGrid r) = DOMtoCanvas r"
  by (simp_all add: rebuildHitGrid_def DOMtoCanvas_def fun_eq_iff Let_def split: prod.split)

text \<open>
  C26: the search in the nine cells around the pointer finds what a search over all nodes finds, a nearest
  node whose disc contains the point or none, as long as no disc is wider than a cell.
\<close>

theorem hit_grid_exact:
  assumes "distinct (map fst (rn_nodes r))" and "rn_hitDirty r \<or> rn_hitGrid r = None \<or> grid_ok r"
    and "\<forall>(k, n) \<in> set (rn_nodes r). 0 \<le> hit_radius r n \<and> hit_radius r n \<le> HIT_GRID_CELL"
  shows "nearest_hit r (DOMtoCanvas r p) (fst (hitNode p r))"
proof -
  define r' where "r' = (if rn_hitDirty r \<or> rn_hitGrid r = None then rebuildHitGrid r else r)"
  have r': "rn_nodes r' = rn_nodes r" "rn_camera r' = rn_camera r" by (simp_all add: r'_def)
  have ok: "grid_ok r'" using assms(2) rebuild_ok [OF assms(1)] by (auto simp: r'_def)
  let ?g = "DOMtoCanvas r p"
  let ?ids = "concat (map (grid_bucket r') (neighbour_cells (cell_of ?g)))"
  have same: "node_hit_at r' = node_hit_at r" by (simp add: node_hit_at_def hit_radius_def r' fun_eq_iff)
  have "best_of r' ?g {} None" by (simp add: best_of_def)
  then have best: "best_of r' ?g (set ?ids) (fold (consider_node r' ?g) ?ids None)"
    using scan_best [of r' ?g "{}" None ?ids] by simp
  have all: "k \<in> set ?ids" if "node_hit_at r ?g k" for k
  proof -
    obtain n where n: "map_of (rn_nodes r) k = Some n" "node_dist ?g n < hit_radius r n * hit_radius r n"
      using \<open>node_hit_at r ?g k\<close> by (auto simp: node_hit_at_def)
    then have "0 \<le> hit_radius r n" "hit_radius r n \<le> HIT_GRID_CELL" using assms(3) by (auto dest: map_of_SomeD)
    then have "cell_of (b_x n, b_y n) \<in> set (neighbour_cells (cell_of ?g))" using hit_in_neighbourhood n(2) by blast
    moreover have "k \<in> set (grid_bucket r' (cell_of (b_x n, b_y n)))" using ok n(1) by (simp add: grid_ok_def r' del: split_paired_All)
    ultimately show ?thesis by auto
  qed
  have "fst (hitNode p r) = map_option fst (fold (consider_node r' ?g) ?ids None)"
    by (simp add: hitNode_def Let_def r'_def)
  moreover have "nearest_hit r' ?g (map_option fst (fold (consider_node r' ?g) ?ids None))"
    using best all unfolding same [symmetric] by (rule best_is_nearest)
  moreover have "nearest_hit r' = nearest_hit r" unfolding nearest_hit_def same r' ..
  ultimately show ?thesis by simp
qed

text \<open>
  Lemma: dragging a node moves it without marking the hash or the vertex data stale: the pointer that holds
  it does not find it where it now is, once it has left the cells around its old place.
\<close>

theorem dragged_node_missed:
  fixes s :: gl_input
  assumes "grid_ok r" and "\<not> rn_hitDirty r" and "rn_hitGrid r \<noteq> None" and "map_of (rn_nodes r) k = Some n"
    and "md_node md = Some k" and "md_moved md"
    and "cell_of (b_x n, b_y n) \<notin> set (neighbour_cells (cell_of (DOMtoCanvas r p)))"
  defines "r' \<equiv> snd (mouse_dragged p md (s, r))"
  shows "map_of (rn_nodes r') k = Some (n\<lparr>b_x := fst (DOMtoCanvas r p), b_y := snd (DOMtoCanvas r p)\<rparr>)
    \<and> fst (hitNode p r') \<noteq> Some k \<and> rn_nodesDirty r' = rn_nodesDirty r"
proof -
  have r': "r' = redraw (move_body k (DOMtoCanvas r p) r)" using assms(5,6) by (simp add: r'_def mouse_dragged_def Let_def)
  have cam: "DOMtoCanvas (redraw u) = DOMtoCanvas u" "DOMtoCanvas (u\<lparr>rn_nodes := x\<rparr>) = DOMtoCanvas u" for u x
    by (simp_all add: redraw_def DOMtoCanvas_def fun_eq_iff Let_def split: prod.split)
  have fields: "rn_hitGrid r' = rn_hitGrid r" "rn_hitDirty r' = rn_hitDirty r" "rn_nodesDirty r' = rn_nodesDirty r"
    "DOMtoCanvas r' = DOMtoCanvas r"
    "rn_nodes r' = AList.update k (n\<lparr>b_x := fst (DOMtoCanvas r p), b_y := snd (DOMtoCanvas r p)\<rparr>) (rn_nodes r)"
    using assms(4) by (simp_all add: r' move_body_def cam) (simp_all add: redraw_def)
  let ?ids = "concat (map (grid_bucket r') (neighbour_cells (cell_of (DOMtoCanvas r p))))"
  have "grid_bucket r' c = grid_bucket r c" for c by (simp add: grid_bucket_def fields)
  then have "k \<notin> set ?ids" using assms(1,4,7) by (auto simp: grid_ok_def)
  moreover have "best_of r' (DOMtoCanvas r p) (set ?ids) (fold (consider_node r' (DOMtoCanvas r p)) ?ids None)"
    using scan_best [of r' "DOMtoCanvas r p" "{}" None ?ids] by (simp add: best_of_def)
  ultimately have "map_option fst (fold (consider_node r' (DOMtoCanvas r p)) ?ids None) \<noteq> Some k"
    by (auto simp: best_of_def)
  moreover have "\<not> (rn_hitDirty r' \<or> rn_hitGrid r' = None)" using assms(2,3) by (simp add: fields)
  ultimately have "fst (hitNode p r') \<noteq> Some k" unfolding hitNode_def Let_def if_not_P [OF \<open>\<not> (rn_hitDirty r' \<or> _)\<close>]
    by (simp add: fields)
  then show ?thesis by (simp add: fields)
qed

section \<open>The rejected edges are out of reach\<close>

text \<open>The plane as the complex numbers, for its triangle inequality.\<close>

definition pt :: "real \<times> real \<Rightarrow> complex" where
  "pt p = Complex (fst p) (snd p)"

lemma sq_dist_norm: "sq_dist p q = (cmod (pt p - pt q))\<^sup>2"
  unfolding cmod_power2 by (simp add: sq_dist_def pt_def power2_eq_square)

lemma pt_seg_point: "pt (seg_point a b t) = pt a + of_real t * (pt b - pt a)"
  by (simp add: pt_def seg_point_def complex_eq_iff mult.commute)

lemma clamp_closest:
  assumes "0 \<le> u" and "u \<le> (1 :: real)"
  shows "(max 0 (min 1 t) - t)\<^sup>2 \<le> (u - t)\<^sup>2"
  unfolding abs_le_square_iff [symmetric] using assms by (auto simp: max_def min_def abs_if)

lemma sq_dist_seg:
  "sq_dist g (seg_point a b u) = sq_dist g a - 2 * u * ((fst g - fst a) * (fst b - fst a) + (snd g - snd a) * (snd b - snd a))
     + u\<^sup>2 * sq_dist b a"
  by (simp add: sq_dist_def seg_point_def power2_eq_square algebra_simps)

lemma sq_dist_zero: "sq_dist a b = 0 \<Longrightarrow> a = b"
  by (simp add: sq_dist_norm pt_def prod_eq_iff)

lemma seg_param_bounds: "0 \<le> seg_param g a b \<and> seg_param g a b \<le> 1"
  by (simp add: seg_param_def Let_def)

lemma seg_dist_least:
  assumes "0 \<le> u" and "u \<le> 1"
  shows "seg_dist g a b \<le> sq_dist g (seg_point a b u)"
proof (cases "b = a")
  case True
  then show ?thesis by (simp add: seg_dist_def seg_point_def)
next
  case False
  let ?L = "sq_dist b a" and ?D = "(fst g - fst a) * (fst b - fst a) + (snd g - snd a) * (snd b - snd a)"
  have L: "0 < ?L" using False sq_dist_zero [of b a] by (simp add: sq_dist_norm) (auto simp: pt_def prod_eq_iff)
  define t where "t = ?D / ?L"
  have param: "seg_param g a b = max 0 (min 1 t)" using L by (simp add: seg_param_def t_def Let_def sq_dist_def)
  have D: "?D = t * ?L" using L by (simp add: t_def)
  have "sq_dist g (seg_point a b v) = sq_dist g a - t\<^sup>2 * ?L + (v - t)\<^sup>2 * ?L" for v
    unfolding sq_dist_seg D by (simp add: power2_eq_square algebra_simps)
  moreover have "(max 0 (min 1 t) - t)\<^sup>2 * ?L \<le> (u - t)\<^sup>2 * ?L"
    using clamp_closest [OF assms] L by (simp add: mult_right_mono)
  ultimately show ?thesis by (simp add: seg_dist_def param)
qed

text \<open>The curve is its chord, bent sideways by at most half of \<open>EDGE_CURVE\<close> times the chord's length.\<close>

definition bow_of :: "real \<times> real \<Rightarrow> real \<times> real \<Rightarrow> real \<Rightarrow> complex" where
  "bow_of a b bend = Complex (- (snd b - snd a)) (fst b - fst a) * of_real (EDGE_CURVE * bend)"

lemma curve_bent: "pt (edgeCurvePoint a b t bend) = pt a + of_real t * (pt b - pt a) + of_real (2 * t * (1 - t)) * bow_of a b bend"
proof -
  let ?dx = "fst b - fst a" and ?dy = "snd b - snd a"
  define len where "len = (if ?dx = 0 \<and> ?dy = 0 then 1 / 10000 else sqrt (?dx * ?dx + ?dy * ?dy))"
  have "len \<noteq> 0" by (auto simp: len_def)
  then have "?dy / len * len = ?dy" "?dx / len * len = ?dx" by simp_all
  then show ?thesis unfolding edgeCurvePoint_def Let_def len_def [symmetric]
    by (simp add: pt_def bow_of_def complex_eq_iff) (simp add: field_simps)
qed

lemma edgeBend_cases: "edgeBend f t = 1 \<or> edgeBend f t = -1" by (simp add: edgeBend_def)

lemma bow_norm: "\<bar>bend\<bar> = 1 \<Longrightarrow> cmod (bow_of a b bend) = sqrt (sq_dist a b) * EDGE_CURVE"
  by (simp add: bow_of_def norm_mult complex_norm sq_dist_def EDGE_CURVE_def abs_mult power2_eq_square algebra_simps)

lemma bend_weight: "0 \<le> t \<Longrightarrow> t \<le> (1 :: real) \<Longrightarrow> 0 \<le> 2 * t * (1 - t) \<and> 2 * t * (1 - t) \<le> 1 / 2"
proof -
  assume "0 \<le> t" "t \<le> 1"
  moreover have "0 \<le> (2 * t - 1)\<^sup>2" by simp
  ultimately show ?thesis by (simp add: power2_eq_square algebra_simps mult_left_le)
qed

text \<open>A point of a piece between two points of the curve is as near to the chord as the bow allows.\<close>

lemma piece_near_chord:
  fixes a b :: "real \<times> real"
  assumes "0 \<le> t1" "t1 \<le> 1" "0 \<le> t2" "t2 \<le> 1" "0 \<le> s" "s \<le> 1" and "\<bar>bend\<bar> = 1"
  defines "X \<equiv> seg_point (edgeCurvePoint a b t1 bend) (edgeCurvePoint a b t2 bend) s"
  shows "\<exists>u. 0 \<le> u \<and> u \<le> 1 \<and> cmod (pt X - pt (seg_point a b u)) \<le> sqrt (sq_dist a b) * EDGE_CURVE * (1 / 2)"
proof -
  define u where "u = (1 - s) * t1 + s * t2"
  define w where "w = (1 - s) * (2 * t1 * (1 - t1)) + s * (2 * t2 * (1 - t2))"
  have u: "0 \<le> u" "u \<le> 1" using assms convex_bound_le [of t1 1 t2 "1 - s" s] by (simp_all add: u_def)
  have w: "0 \<le> w" "w \<le> 1 / 2"
    using assms bend_weight [of t1] bend_weight [of t2] convex_bound_le [of "2 * t1 * (1 - t1)" "1 / 2" "2 * t2 * (1 - t2)" "1 - s" s]
    by (simp_all add: w_def)
  have "pt X - pt (seg_point a b u) = of_real w * bow_of a b bend"
    by (simp add: X_def pt_seg_point curve_bent u_def w_def algebra_simps)
  then have "cmod (pt X - pt (seg_point a b u)) = w * (sqrt (sq_dist a b) * EDGE_CURVE)"
    using w(1) assms(7) by (simp add: norm_mult bow_norm)
  also have "\<dots> \<le> 1 / 2 * (sqrt (sq_dist a b) * EDGE_CURVE)"
    by (intro mult_right_mono w(2) mult_nonneg_nonneg) (simp_all add: EDGE_CURVE_def sq_dist_norm)
  finally show ?thesis using u by (auto simp: mult.commute mult.left_commute)
qed

lemma curve_start: "edgeCurvePoint a b 0 bend = a"
  by (simp add: edgeCurvePoint_def Let_def)

lemma curve_piece_cases:
  "pq \<in> set (curve_pieces a b bend) \<Longrightarrow> \<exists>i. 1 \<le> i \<and> i < 9 \<and>
     pq = (edgeCurvePoint a b (real (i - 1) / 8) bend, edgeCurvePoint a b (real i / 8) bend)"
  by (auto simp: curve_pieces_def curve_start)

lemma rejected_far:
  assumes "rejected r g a b" and "0 < cam_scale (rn_camera r)" and "\<bar>bend\<bar> = 1" and "pq \<in> set (curve_pieces a b bend)"
  shows "hit_slack r * hit_slack r \<le> seg_dist g (fst pq) (snd pq)"
proof -
  obtain i where i: "1 \<le> i" "i < 9" "pq = (edgeCurvePoint a b (real (i - 1) / 8) bend, edgeCurvePoint a b (real i / 8) bend)"
    using curve_piece_cases [OF assms(4)] by blast
  let ?X = "seg_point (fst pq) (snd pq) (seg_param g (fst pq) (snd pq))"
  let ?bow = "sqrt (sq_dist a b) * EDGE_CURVE * (1 / 2)"
  obtain u where u: "0 \<le> u" "u \<le> 1" "cmod (pt ?X - pt (seg_point a b u)) \<le> ?bow"
    using piece_near_chord [of "real (i - 1) / 8" "real i / 8" "seg_param g (fst pq) (snd pq)" bend a b]
      seg_param_bounds [of g "fst pq" "snd pq"] i assms(3) by auto
  have slack: "0 \<le> hit_slack r" using assms(2) by (simp add: hit_slack_def)
  have "0 \<le> ?bow" by (simp add: EDGE_CURVE_def sq_dist_norm)
  have "(?bow + hit_slack r)\<^sup>2 < (cmod (pt g - pt (seg_point a b u)))\<^sup>2"
    using assms(1) seg_dist_least [OF u(1,2), of g a b] by (simp add: rejected_def Let_def power2_eq_square sq_dist_norm)
  then have "?bow + hit_slack r < cmod (pt g - pt (seg_point a b u))" by (rule power2_less_imp_less) simp
  also have "\<dots> \<le> cmod (pt g - pt ?X) + cmod (pt ?X - pt (seg_point a b u))"
    using norm_triangle_ineq [of "pt g - pt ?X" "pt ?X - pt (seg_point a b u)"] by simp
  finally have "hit_slack r \<le> cmod (pt g - pt ?X)" using u(3) by linarith
  then show ?thesis using slack by (simp add: seg_dist_def sq_dist_norm power2_eq_square mult_mono)
qed

lemma consider_piece_least: "snd (consider_piece k g pq best) \<le> snd best"
  by (simp add: consider_piece_def Let_def)

lemma pieces_least: "snd (fold (consider_piece k g) pqs best) \<le> snd best"
proof (induction pqs arbitrary: best)
  case (Cons pq pqs)
  from Cons.IH show ?case unfolding fold_Cons comp_apply by (rule order_trans) (rule consider_piece_least)
qed simp

lemma pieces_far: "(\<And>pq. pq \<in> set pqs \<Longrightarrow> snd best \<le> seg_dist g (fst pq) (snd pq)) \<Longrightarrow> fold (consider_piece k g) pqs best = best"
proof (induction pqs)
  case (Cons pq pqs)
  have "consider_piece k g pq best = best" using Cons.prems [of pq] by (simp add: consider_piece_def Let_def)
  then show ?case using Cons by simp
qed simp

lemma measure_least: "snd (measure_edge r g ke best) \<le> snd best"
  by (auto simp: measure_edge_def pieces_least split: option.split)

lemma consider_measure:
  assumes "0 < cam_scale (rn_camera r)" and "snd best \<le> hit_slack r * hit_slack r"
  shows "consider_edge r g ke best = measure_edge r g ke best"
proof (cases "edge_ends r (snd ke)")
  case (Some ab)
  obtain a b where ab: "ab = (a, b)" by (rule prod.exhaust)
  let ?bend = "edgeBend (be_from (snd ke)) (be_to (snd ke))"
  have bend: "\<bar>?bend\<bar> = 1" using edgeBend_cases [of "be_from (snd ke)" "be_to (snd ke)"] by auto
  have "fold (consider_piece (fst ke) g) (curve_pieces a b ?bend) best = best" if "rejected r g a b"
    by (rule pieces_far, rule order_trans [OF assms(2)], rule rejected_far [OF that assms(1) bend])
  then show ?thesis by (simp add: consider_edge_def measure_edge_def Some ab)
qed (simp add: consider_edge_def measure_edge_def)

lemma scan_edges:
  "0 < cam_scale (rn_camera r) \<Longrightarrow> snd best \<le> hit_slack r * hit_slack r \<Longrightarrow>
     fold (consider_edge r g) es best = fold (measure_edge r g) es best"
  by (induction es arbitrary: best) (simp_all add: consider_measure order_trans [OF measure_least])

text \<open>
  C27: rejecting an edge by the distance to its chord loses no hit: the edge found is the one found when
  every curve is measured.
\<close>

theorem edge_reject_sound:
  assumes "0 < cam_scale (rn_camera r)"
  shows "hitEdge p r = nearest_edge p r"
  by (simp add: hitEdge_def nearest_edge_def Let_def scan_edges assms)

section \<open>Hovering and dragging are told in pairs\<close>

text \<open>What the pointer does; between two inputs the rest of the program may change the renderer.\<close>

datatype pointer_input =
  Press nat "real \<times> real"
| Move "real \<times> real"
| Release nat bool "real \<times> real"
| Leave
| Meanwhile "renderer \<Rightarrow> renderer"

fun point :: "pointer_input \<Rightarrow> gl_input \<times> renderer \<Rightarrow> gl_input \<times> renderer" where
  "point (Press button p) sr = mouse_pressed button p sr"
| "point (Move p) sr = mouse_moved p sr"
| "point (Release button inside p) sr = mouse_released button inside p sr"
| "point Leave sr = (mouse_left (fst sr), snd sr)"
| "point (Meanwhile f) sr = (fst sr, f (snd sr))"

definition no_input :: gl_input where
  "no_input = \<lparr> gi_down = None, gi_hoverNode = None, gi_hoverEdge = None, gi_events = [] \<rparr>"

text \<open>
  A listener that keeps the hovered node, the hovered edge and the dragged nodes; it stops at an
  event that does not fit what it keeps.
\<close>

record heard =
  he_node :: "string option"
  he_edge :: "string option"
  he_drag :: "string list option"

fun listen :: "gl_event \<Rightarrow> heard option \<Rightarrow> heard option" where
  "listen _ None = None"
| "listen (HoverNode k) (Some h) = (if he_node h = None then Some (h\<lparr>he_node := Some k\<rparr>) else None)"
| "listen (BlurNode k) (Some h) = (if he_node h = Some k then Some (h\<lparr>he_node := None\<rparr>) else None)"
| "listen (HoverEdge k) (Some h) = (if he_edge h = None \<and> he_node h = None then Some (h\<lparr>he_edge := Some k\<rparr>) else None)"
| "listen (BlurEdge k) (Some h) = (if he_edge h = Some k then Some (h\<lparr>he_edge := None\<rparr>) else None)"
| "listen (Click _ _) (Some h) = Some h"
| "listen (DragStart ks) (Some h) = Some (h\<lparr>he_drag := Some ks\<rparr>)"
| "listen (DragEnd ks) (Some h) = (if he_drag h = Some ks then Some (h\<lparr>he_drag := None\<rparr>) else None)"

definition heard_by :: "gl_event list \<Rightarrow> heard option" where
  "heard_by evs = fold listen evs (Some \<lparr> he_node = None, he_edge = None, he_drag = None \<rparr>)"

definition in_step :: "gl_input \<Rightarrow> bool" where
  "in_step s = (\<exists>h. heard_by (gi_events s) = Some h \<and> he_node h = gi_hoverNode s \<and> he_edge h = gi_hoverEdge s
     \<and> (\<forall>md. gi_down s = Some md \<longrightarrow> md_moved md \<longrightarrow> he_drag h = Some (opt_list (md_node md))))"

lemma heard_tell [simp]: "heard_by (gi_events (tell evs s)) = fold listen evs (heard_by (gi_events s))"
  by (simp add: heard_by_def tell_def)

lemma tell_frame [simp]: "gi_down (tell evs s) = gi_down s" "gi_hoverNode (tell evs s) = gi_hoverNode s"
  "gi_hoverEdge (tell evs s) = gi_hoverEdge s"
  by (simp_all add: tell_def)

lemma hover_node_frame [simp]: "gi_hoverNode (hover_node n s) = n" "gi_down (hover_node n s) = gi_down s"
  "gi_hoverEdge (hover_node n s) = gi_hoverEdge s"
  by (simp_all add: hover_node_def)

lemma hover_edge_frame [simp]: "gi_hoverEdge (hover_edge n s) = n" "gi_down (hover_edge n s) = gi_down s"
  "gi_hoverNode (hover_edge n s) = gi_hoverNode s"
  by (simp_all add: hover_edge_def)

lemma in_step_node: "in_step s \<Longrightarrow> in_step (hover_node n s)"
  by (cases "gi_hoverNode s"; cases n) (auto simp: in_step_def hover_node_def opt_list_def)

lemma in_step_edge: "in_step s \<Longrightarrow> e = None \<or> gi_hoverNode s = None \<Longrightarrow> in_step (hover_edge e s)"
  by (cases "gi_hoverEdge s"; cases e) (auto simp: in_step_def hover_edge_def opt_list_def)

lemma in_step_hover: "in_step (fst sr) \<Longrightarrow> in_step (fst (pointer_hover p sr))"
  by (auto simp: pointer_hover_def Let_def split: prod.split intro!: in_step_edge in_step_node)

lemma in_step_pressed: "in_step (fst sr) \<Longrightarrow> in_step (fst (mouse_pressed b p sr))"
  by (auto simp: mouse_pressed_def in_step_def Let_def split: prod.split)

lemma in_step_dragged:
  assumes "in_step s" and "gi_down s = Some md"
  shows "in_step (fst (mouse_dragged p md (s, r)))"
  using assms by (auto simp: mouse_dragged_def in_step_def Let_def split: option.split)

lemma in_step_released: "in_step (fst sr) \<Longrightarrow> in_step (fst (mouse_released b i p sr))"
  by (auto simp: mouse_released_def in_step_def Let_def heard_by_def tell_def split: option.split prod.split nat.split)

lemma in_step_point: "in_step (fst sr) \<Longrightarrow> in_step (fst (point i sr))"
proof (cases i)
  case (Move p)
  assume "in_step (fst sr)"
  then show ?thesis using in_step_dragged [of "fst sr" _ p "snd sr"]
    by (cases "gi_down (fst sr)") (simp_all add: Move mouse_moved_def in_step_hover)
qed (simp_all add: in_step_pressed in_step_released mouse_left_def in_step_edge in_step_node)


section \<open>The poll for a settled layout ends\<close>

text \<open>The ticks, each after whatever the program did to the renderer since the last.\<close>

fun settle_run :: "(real \<times> (renderer \<Rightarrow> renderer)) list \<Rightarrow> settle option \<times> renderer \<Rightarrow> settle option \<times> renderer" where
  "settle_run [] st = st"
| "settle_run ((nowMs, f) # ticks) (Some w, r) = settle_run ticks (settle_tick nowMs (w, f r))"
| "settle_run ((_, f) # ticks) (None, r) = settle_run ticks (None, f r)"

lemma settle_tick_checks: "fst (settle_tick nowMs (w, r)) = Some w' \<Longrightarrow> se_checks w' = Suc (se_checks w) \<and> se_checks w' \<le> 40"
  by (auto simp: settle_tick_def Let_def split: if_splits)

lemma settle_run_none: "fst (settle_run ticks (None, r)) = None"
  by (induction ticks arbitrary: r) auto

lemma settle_run_checks:
  "fst (settle_run ticks (Some w, r)) = Some w' \<Longrightarrow> se_checks w \<le> 40 \<Longrightarrow> se_checks w' = se_checks w + length ticks \<and> se_checks w' \<le> 40"
proof (induction ticks arbitrary: w r)
  case (Cons t ticks)
  obtain nowMs f where t: "t = (nowMs, f)" by (rule prod.exhaust)
  obtain v r' where v: "settle_tick nowMs (w, f r) = (v, r')" by (rule prod.exhaust)
  then obtain w1 where w1: "v = Some w1" using Cons.prems(1) by (cases v) (simp_all add: t settle_run_none)
  have "se_checks w1 = Suc (se_checks w)" "se_checks w1 \<le> 40" using settle_tick_checks [of nowMs w "f r" w1] v w1 by simp_all
  then show ?case using Cons.IH [of w1 r'] Cons.prems(1) by (simp add: t v w1)
qed simp

text \<open>
  Lemma: the poll that waits for the layout to settle is cleared after at most 41 ticks, whatever happens to
  the graph meanwhile.
\<close>

theorem settle_poll_ends:
  assumes "41 \<le> length ticks"
  shows "fst (settle_run ticks (Some start_settle, r)) = None"
  using assms settle_run_checks [of ticks start_settle r] by (cases "fst (settle_run ticks (Some start_settle, r))") (auto simp: start_settle_def)

text \<open>Lemma: a layout that stands still is fitted at the third tick, unless the user has taken the camera.\<close>

theorem still_layout_fitted:
  assumes "rn_nodes r \<noteq> []" and "\<not> rn_destroyed r" and "\<not> rn_userMovedCamera r"
  shows "settle_run [(t1, id), (t2, id), (t3, id)] (Some start_settle, r) = (None, fit t3 (Some 400) r)"
  using assms by (simp add: settle_tick_def start_settle_def)

section \<open>Instances\<close>

definition disc_at :: "real \<Rightarrow> real \<Rightarrow> body_node" where
  "disc_at x y = new_body_node\<lparr>b_x := x, b_y := y\<rparr>"

definition two_discs :: renderer where
  "two_discs = sample_renderer\<lparr>rn_nodes := [(''a'', disc_at 10 10), (''b'', disc_at 500 10)],
     rn_edges := [(''e'', \<lparr> be_from = ''a'', be_to = ''b'', be_label = None, be_color = ''#848484'', be_opacity = 1, be_width = 1 \<rparr>)]\<rparr>"

lemma two_discs_radius: "hit_radius two_discs n = (if b_size n = 0 then 20 else b_size n) + 4"
  by (simp add: hit_radius_def two_discs_def sample_renderer_def)

lemma hit_grid_exact_witness: "nearest_hit two_discs (DOMtoCanvas two_discs (410, 310)) (fst (hitNode (410, 310) two_discs))"
  by (rule hit_grid_exact)
    (auto simp: two_discs_radius, auto simp: two_discs_def sample_renderer_def disc_at_def new_body_node_def HIT_GRID_CELL_def)

lemma edge_reject_sound_witness: "hitEdge (410, 310) two_discs = nearest_edge (410, 310) two_discs"
  by (rule edge_reject_sound) (simp add: two_discs_def sample_renderer_def)

lemma settle_poll_ends_witness:
  "fst (settle_run (replicate 41 (0, \<lambda>r. r\<lparr>rn_nodes := []\<rparr>)) (Some start_settle, two_discs)) = None"
  by (rule settle_poll_ends) simp

lemma still_layout_fitted_witness:
  "settle_run [(500, id), (1000, id), (1500, id)] (Some start_settle, two_discs) = (None, fit 1500 (Some 400) two_discs)"
  by (rule still_layout_fitted) (simp_all add: two_discs_def sample_renderer_def)

definition hashed_disc :: renderer where
  "hashed_disc = sample_renderer\<lparr>rn_nodes := [(''a'', disc_at 10 10)], rn_hitGrid := Some [((0, 0), [''a''])], rn_hitDirty := False\<rparr>"

lemma hashed_disc_ok: "grid_ok hashed_disc"
  by (auto simp: grid_ok_def grid_bucket_def hashed_disc_def disc_at_def cell_of_def HIT_GRID_CELL_def)

lemma dragged_node_missed_witness:
  "map_of (rn_nodes (snd (mouse_dragged (800, 600) \<lparr> md_x = 0, md_y = 0, md_node = Some ''a'', md_moved = True \<rparr> (no_input, hashed_disc)))) ''a''
      = Some ((disc_at 10 10)\<lparr>b_x := fst (DOMtoCanvas hashed_disc (800, 600)), b_y := snd (DOMtoCanvas hashed_disc (800, 600))\<rparr>)
    \<and> fst (hitNode (800, 600) (snd (mouse_dragged (800, 600) \<lparr> md_x = 0, md_y = 0, md_node = Some ''a'', md_moved = True \<rparr> (no_input, hashed_disc))))
      \<noteq> Some ''a''
    \<and> rn_nodesDirty (snd (mouse_dragged (800, 600) \<lparr> md_x = 0, md_y = 0, md_node = Some ''a'', md_moved = True \<rparr> (no_input, hashed_disc)))
      = rn_nodesDirty hashed_disc"
proof (rule dragged_node_missed)
  show "cell_of (b_x (disc_at 10 10), b_y (disc_at 10 10)) \<notin> set (neighbour_cells (cell_of (DOMtoCanvas hashed_disc (800, 600))))"
    by (simp add: hashed_disc_def sample_renderer_def DOMtoCanvas_def disc_at_def cell_of_def HIT_GRID_CELL_def neighbour_cells_def)
qed (simp_all add: hashed_disc_ok, simp_all add: hashed_disc_def)

end
