(* ===== verification/Game.thy ===== *)
theory Game
  imports Search "HOL-Library.List_Lexorder" "HOL-Library.Char_ord"
begin

text \<open>
  The game mode (\<^verbatim>\<open>static/app.js\<close>), without the scene it draws: the planets that stand for the nodes and
  their placement, the elevators that stand for the edges, the traffic shown on them, and the counters.
  Objects of the scene are numbered; of a mesh only what the program computes with is kept.  Random
  numbers, like the curve of an elevator, come from outside and are arguments or left out.
\<close>

section \<open>State\<close>

type_synonym vec = "real \<times> real \<times> real"

record planet =
  pl_id :: string
  pl_label :: string
  pl_title :: string
  pl_packetCount :: nat
  pl_orbitRadius :: real
  pl_orbitAngle :: real
  pl_orbitTilt :: real
  pl_orbitSpeed :: real
  pl_rotationSpeed :: real
  pl_type :: string
  pl_size :: real

record elevator =
  el_fromMesh :: nat
  el_toMesh :: nat
  el_edge :: edge_item
  el_speed :: real
  el_progress :: "real list"
  el_intensity :: real
  el_lastTraffic :: real
  el_lineOpacity :: real
  el_glowOpacity :: real

record burst =
  bu_edge :: string
  bu_progress :: real
  bu_speed :: real
  bu_start :: real
  bu_lifetime :: real

record burst_pool =
  bp_scene :: "nat option"          \<comment> \<open>the scene its points were added to\<close>
  bp_slots :: "burst option list"
  bp_next :: nat

record pulse =
  pu_start :: real
  pu_color :: string
  pu_duration :: real

record warp_result =
  wr_node :: node_item
  wr_matches :: "(string \<times> string) list"

record warp_flight =
  wf_mesh :: nat
  wf_node :: node_item
  wf_from :: vec
  wf_to :: vec
  wf_start :: real

text \<open>What the lock keeps of a planet, or of the node a warp leads to.\<close>

record target =
  tg_mesh :: nat
  tg_id :: string
  tg_label :: string
  tg_packetCount :: nat

record gmstate = qstate +
  gm_scene :: "nat option"
  gm_scenes :: nat                   \<comment> \<open>how many scenes have been made\<close>
  gm_meshes :: nat                   \<comment> \<open>how many planets have been made\<close>
  nodeMeshes :: "nat list"
  nodeDataMap :: "(nat \<times> planet) list"
  nodeIdToMesh :: "(string \<times> nat) list"
  meshPos :: "nat \<Rightarrow> vec"
  meshGlow :: "nat \<Rightarrow> real"          \<comment> \<open>emissive intensity of the planet's body\<close>
  spaceElevators :: "elevator list"
  elevatorEdgeMap :: "(string \<times> nat) list"
  lastElevatorEdgeHash :: string
  burstPool :: "burst_pool option"
  trafficBursts :: "real list"       \<comment> \<open>start times\<close>
  planetPulses :: "(string \<times> pulse) list"
  moveForward :: bool
  moveBackward :: bool
  moveLeft :: bool
  moveRight :: bool
  moveUp :: bool
  moveDown :: bool
  boosting :: bool
  currentSpeed :: real
  ship :: vec                        \<comment> \<open>position of the camera\<close>
  lookAngles :: "real \<times> real"       \<comment> \<open>pitch and yaw of the camera\<close>
  lockedTarget :: "target option"
  autoLockPosition :: "(real \<times> real) option"
  laserCooldown :: bool
  speedLinesActive :: bool
  warpDriveActive :: bool
  isWarping :: bool
  warpSelectedIndex :: nat
  warpResults :: "warp_result list"
  warpMarked :: "nat option"         \<comment> \<open>the entry of the list that is drawn as selected\<close>
  warpCloseTimers :: nat             \<comment> \<open>timers that will close the overlay\<close>
  warpFlights :: "warp_flight list"  \<comment> \<open>the flights whose frame callback is registered\<close>
  asteroidMesh :: bool
  gm_listening :: bool               \<comment> \<open>the document's listeners of the game are registered\<close>
  pointerLocked :: bool              \<comment> \<open>the pointer is locked to the canvas\<close>
  chimpyEnabled :: bool              \<comment> \<open>\<^verbatim>\<open>CHIMPY_ENABLED\<close>\<close>
  viewSize :: "real \<times> real"        \<comment> \<open>inner width and height of the window\<close>

section \<open>Values derived from a node's id\<close>

definition hash_step :: "32 word \<Rightarrow> char \<Rightarrow> 32 word" where
  "hash_step h c = push_bit 5 h - h + of_nat (of_char c)"

definition hashCode :: "string \<Rightarrow> 32 word" where
  "hashCode str = fold (\<lambda>c h. hash_step h c) str 0"

definition seededRandom :: "string \<Rightarrow> string \<Rightarrow> real" where
  "seededRandom nodeId seed = real_of_int (\<bar>sint (hashCode (nodeId @ seed))\<bar> mod 10000) / 10000"

text \<open>Names and whether they have an atmosphere or rings; colours are drawing.\<close>

definition PLANET_TYPES :: "string list" where
  "PLANET_TYPES = [''terrestrial'', ''gas_giant'', ''ice_giant'', ''desert'', ''volcanic'', ''ocean'', ''barren'', ''toxic'']"

text \<open>The remainder of the language has the sign of the dividend, and the code takes its absolute value.\<close>

definition planet_type :: "string \<Rightarrow> string" where
  "planet_type nodeId = PLANET_TYPES ! nat (\<bar>sint (hashCode nodeId)\<bar> mod int (length PLANET_TYPES))"

definition getNodeColor :: "node_item \<Rightarrow> 'a gstate_scheme \<Rightarrow> nat" where
  "getNodeColor node s =
     (let n = metaPacketCount (Some node) s
      in if 1000 < n then 0xff4444 else if 500 < n then 0xff8844 else if 100 < n then 0xffcc44
         else if 10 < n then 0x44ff88 else 0x4488ff)"

section \<open>Planets\<close>

definition ring_count :: "nat \<Rightarrow> nat" where
  "ring_count n = nat \<lceil>sqrt (real n)\<rceil>"

definition nodes_in_ring :: "nat \<Rightarrow> nat" where
  "nodes_in_ring n = nat \<lceil>real n / real (ring_count n)\<rceil>"

text \<open>The radius of the orbit and the angle on it, for the node with this index.\<close>

definition orbit_slot :: "nat \<Rightarrow> nat \<Rightarrow> nat \<times> nat" where
  "orbit_slot n i = (let per = max 1 (nodes_in_ring n) in (i div per, i mod per))"

definition orbit_radius :: "nat \<Rightarrow> nat \<Rightarrow> real" where
  "orbit_radius n i = 25000 + real (fst (orbit_slot n i)) * 25000"

definition orbit_angle :: "nat \<Rightarrow> nat \<Rightarrow> real" where
  "orbit_angle n i = real (snd (orbit_slot n i)) / real (nodes_in_ring n) * pi * 2 + real (fst (orbit_slot n i)) * (1 / 2)"

definition planet_size :: "nat \<Rightarrow> real" where
  "planet_size packetCount = min 6000 (1500 + ln (real packetCount + 1) / ln 10 * 1200)"

definition planet_of :: "'a gstate_scheme \<Rightarrow> nat \<Rightarrow> node_item \<Rightarrow> planet" where
  "planet_of s i node =
     (let n = length (nodes s); k = i_id node; packetCount = max 1 (metaPacketCount (Some node) s)
      in \<lparr> pl_id = k, pl_label = i_label node, pl_title = nodeTooltipFor k s, pl_packetCount = packetCount,
           pl_orbitRadius = orbit_radius n i, pl_orbitAngle = orbit_angle n i,
           pl_orbitTilt = (seededRandom k ''tilt'' - 1 / 2) * (4 / 10),
           pl_orbitSpeed = 3 / 10000 + seededRandom k ''orbspd'' * (8 / 10000),
           pl_rotationSpeed = 5 / 1000 + seededRandom k ''rotspd'' * (1 / 100),
           pl_type = planet_type k, pl_size = planet_size packetCount \<rparr>)"

definition planet_start :: "planet \<Rightarrow> vec" where
  "planet_start p =
     (cos (pl_orbitAngle p) * pl_orbitRadius p,
      (seededRandom (pl_id p) ''voff'' - 1 / 2) * 8000 + sin (pl_orbitAngle p * 2) * pl_orbitTilt p * pl_orbitRadius p,
      sin (pl_orbitAngle p) * pl_orbitRadius p)"

definition add_planet :: "nat \<Rightarrow> node_item \<Rightarrow> 'a gmstate_scheme \<Rightarrow> 'a gmstate_scheme" where
  "add_planet i node s =
     (let m = gm_meshes s; p = planet_of s i node
      in s\<lparr>gm_meshes := Suc m, nodeDataMap := AList.update m p (nodeDataMap s),
           meshPos := (meshPos s)(m := planet_start p), meshGlow := (meshGlow s)(m := 12 / 100),
           nodeMeshes := nodeMeshes s @ [m], nodeIdToMesh := AList.update (i_id node) m (nodeIdToMesh s)\<rparr>)"

definition createNodeSpheres :: "'a gmstate_scheme \<Rightarrow> 'a gmstate_scheme" where
  "createNodeSpheres s =
     (if nodes s = [] then s
      else fold (\<lambda>(i, k, node). add_planet i node) (enumerate 0 (nodes s))
             (s\<lparr>nodeMeshes := [], nodeDataMap := [], nodeIdToMesh := []\<rparr>))"

text \<open>The index of a node in the DataSet, as \<^verbatim>\<open>findIndex\<close> gives it.\<close>

definition index_in :: "string \<Rightarrow> (string \<times> node_item) list \<Rightarrow> nat option" where
  "index_in k ns = map_option fst (find (\<lambda>(i, k', _). k' = k) (enumerate 0 ns))"

definition addNewGameNodes :: "node_item list \<Rightarrow> 'a gmstate_scheme \<Rightarrow> 'a gmstate_scheme" where
  "addNewGameNodes newNodes s =
     fold (\<lambda>node s. case index_in (i_id node) (nodes s) of None \<Rightarrow> s | Some i \<Rightarrow> add_planet i node s) newNodes s"

definition remove_planet :: "string \<Rightarrow> 'a gmstate_scheme \<Rightarrow> 'a gmstate_scheme" where
  "remove_planet k s =
     (case map_of (nodeIdToMesh s) k of
        None \<Rightarrow> s
      | Some m \<Rightarrow>
          s\<lparr>nodeMeshes := remove1 m (nodeMeshes s), nodeDataMap := AList.delete m (nodeDataMap s),
            nodeIdToMesh := AList.delete k (nodeIdToMesh s)\<rparr>)"

definition refresh_data :: "node_item \<Rightarrow> 'a gmstate_scheme \<Rightarrow> 'a gmstate_scheme" where
  "refresh_data node s =
     (case map_of (nodeIdToMesh s) (i_id node) of
        None \<Rightarrow> s
      | Some m \<Rightarrow>
          (case map_of (nodeDataMap s) m of
             None \<Rightarrow> s
           | Some p \<Rightarrow>
               s\<lparr>nodeDataMap := AList.update m
                   (p\<lparr>pl_packetCount := max 1 (metaPacketCount (Some node) s),
                      pl_title := nodeTooltipFor (i_id node) s, pl_label := i_label node\<rparr>) (nodeDataMap s)\<rparr>))"

section \<open>Elevators\<close>

definition particle_count :: "edge_item \<Rightarrow> nat" where
  "particle_count e = min 20 (max 5 (max 1 (j_packetCount e) div 10))"

definition edge_key :: "string \<Rightarrow> string \<Rightarrow> string" where
  "edge_key a b = a @ ''->'' @ b"

definition new_elevator :: "nat \<Rightarrow> nat \<Rightarrow> (nat \<Rightarrow> real) \<Rightarrow> edge_item \<Rightarrow> elevator" where
  "new_elevator a b rnd e =
     \<lparr> el_fromMesh = a, el_toMesh = b, el_edge = e, el_speed = 2 / 1000 + real (max 1 (j_packetCount e)) * (1 / 100000),
       el_progress = map rnd [0..<particle_count e], el_intensity = 0, el_lastTraffic = 0,
       el_lineOpacity = 6 / 10, el_glowOpacity = 15 / 100 \<rparr>"

text \<open>The lookup by node id that the code builds from the planets' data.\<close>

definition mesh_of_data :: "'a gmstate_scheme \<Rightarrow> (string \<times> nat) list" where
  "mesh_of_data s =
     fold (\<lambda>m acc. case map_of (nodeDataMap s) m of None \<Rightarrow> acc | Some p \<Rightarrow> AList.update (pl_id p) m acc) (nodeMeshes s) []"

definition add_elevator ::
    "(string \<times> nat) list \<Rightarrow> (string \<Rightarrow> nat \<Rightarrow> real) \<Rightarrow> edge_item \<Rightarrow> 'a gmstate_scheme \<Rightarrow> 'a gmstate_scheme" where
  "add_elevator meshes rnd e s =
     (case (map_of meshes (j_from e), map_of meshes (j_to e)) of
        (Some a, Some b) \<Rightarrow>
          let i = length (spaceElevators s)
          in s\<lparr>spaceElevators := spaceElevators s @ [new_elevator a b (rnd (j_id e)) e],
               elevatorEdgeMap := AList.update (edge_key (j_to e) (j_from e)) i
                 (AList.update (edge_key (j_from e) (j_to e)) i (elevatorEdgeMap s))\<rparr>
      | _ \<Rightarrow> s)"

definition busiest_edges :: "'a gstate_scheme \<Rightarrow> edge_item list" where
  "busiest_edges s = take 50 (sort_key (\<lambda>e. - int (j_packetCount e)) (map snd (edges s)))"

definition createSpaceElevators :: "(string \<Rightarrow> nat \<Rightarrow> real) \<Rightarrow> 'a gmstate_scheme \<Rightarrow> 'a gmstate_scheme" where
  "createSpaceElevators rnd s =
     fold (add_elevator (mesh_of_data s) rnd) (busiest_edges s) (s\<lparr>spaceElevators := [], elevatorEdgeMap := []\<rparr>)"

definition move_particles :: "elevator \<Rightarrow> elevator" where
  "move_particles e =
     e\<lparr>el_progress := map (\<lambda>p. let p = p + el_speed e in if 1 < p then 0 else p) (el_progress e)\<rparr>"

definition animateSpaceElevators :: "'a gmstate_scheme \<Rightarrow> 'a gmstate_scheme" where
  "animateSpaceElevators s = s\<lparr>spaceElevators := map move_particles (spaceElevators s)\<rparr>"

definition cool_elevator :: "real \<Rightarrow> elevator \<Rightarrow> elevator" where
  "cool_elevator nowMs e =
     (let v = (if 100 < nowMs - el_lastTraffic e
               then (let v = el_intensity e * (95 / 100) in if v < 1 / 100 then 0 else v) else el_intensity e);
          opacity = 3 / 10 + v * (9 / 10 - 3 / 10)
      in e\<lparr>el_intensity := v, el_lineOpacity := opacity, el_glowOpacity := opacity * (3 / 10),
           el_speed := 2 / 1000 + v * (8 / 1000)\<rparr>)"

definition updateElevatorIntensity :: "'a gmstate_scheme \<Rightarrow> 'a gmstate_scheme" where
  "updateElevatorIntensity s = s\<lparr>spaceElevators := map (cool_elevator (now s)) (spaceElevators s)\<rparr>"

section \<open>Traffic\<close>

definition BURST_POOL_SIZE :: nat where "BURST_POOL_SIZE = 100"

definition initBurstPool :: "'a gmstate_scheme \<Rightarrow> 'a gmstate_scheme" where
  "initBurstPool s =
     (case burstPool s of
        Some _ \<Rightarrow> s
      | None \<Rightarrow> s\<lparr>burstPool := Some \<lparr> bp_scene = gm_scene s, bp_slots = replicate BURST_POOL_SIZE None, bp_next = 0 \<rparr>\<rparr>)"

text \<open>The first free slot from \<open>nextSlot\<close> on, or \<open>nextSlot\<close> itself when all are taken.\<close>

definition burst_slot :: "burst_pool \<Rightarrow> nat" where
  "burst_slot pool =
     (case find (\<lambda>i. bp_slots pool ! i = None) (map (\<lambda>t. (bp_next pool + t) mod BURST_POOL_SIZE) [0..<BURST_POOL_SIZE]) of
        Some i \<Rightarrow> i | None \<Rightarrow> bp_next pool)"

definition put_burst :: "burst \<Rightarrow> burst_pool \<Rightarrow> burst_pool" where
  "put_burst b pool =
     (let slot = burst_slot pool
      in pool\<lparr>bp_next := (slot + 1) mod BURST_POOL_SIZE, bp_slots := (bp_slots pool)[slot := Some b]\<rparr>)"

definition new_burst :: "real \<Rightarrow> elevator \<Rightarrow> bool \<Rightarrow> real \<times> real \<Rightarrow> burst" where
  "new_burst nowMs e forward rnd =
     \<lparr> bu_edge = j_id (el_edge e), bu_progress = (if forward then 0 else 1),
       bu_speed = (if forward then 1 else -1) * (15 / 1000 + fst rnd * (1 / 100)),
       bu_start = nowMs, bu_lifetime = 2000 + snd rnd * 1000 \<rparr>"

definition spawnTrafficBurst :: "elevator \<Rightarrow> bool \<Rightarrow> real \<times> real \<Rightarrow> 'a gmstate_scheme \<Rightarrow> 'a gmstate_scheme" where
  "spawnTrafficBurst e forward rnd s =
     (let s = initBurstPool s
      in s\<lparr>burstPool := map_option (put_burst (new_burst (now s) e forward rnd)) (burstPool s)\<rparr>)"

definition step_burst :: "real \<Rightarrow> burst option \<Rightarrow> burst option" where
  "step_burst nowMs slot =
     (case slot of
        None \<Rightarrow> None
      | Some b \<Rightarrow>
          if bu_lifetime b < nowMs - bu_start b \<or> bu_progress b < 0 \<or> 1 < bu_progress b then None
          else Some (b\<lparr>bu_progress := bu_progress b + bu_speed b\<rparr>))"

definition animateTrafficBursts :: "'a gmstate_scheme \<Rightarrow> 'a gmstate_scheme" where
  "animateTrafficBursts s =
     s\<lparr>burstPool := map_option (\<lambda>pool. pool\<lparr>bp_slots := map (step_burst (now s)) (bp_slots pool)\<rparr>) (burstPool s)\<rparr>"

definition findGameNodeId :: "string \<Rightarrow> 'a gmstate_scheme \<Rightarrow> string option" where
  "findGameNodeId ip s =
     (if map_of (nodeIdToMesh s) ip \<noteq> None then Some ip
      else find (\<lambda>k. case map_of (nodes s) k of None \<Rightarrow> False | Some n \<Rightarrow> ip \<in> set (i_ips n)) (map_keys (nodeIdToMesh s)))"

definition triggerPlanetPulse :: "string \<Rightarrow> string \<Rightarrow> 'a gmstate_scheme \<Rightarrow> 'a gmstate_scheme" where
  "triggerPlanetPulse k colorHex s =
     (case map_of (planetPulses s) k of
        Some p \<Rightarrow>
          if now s - pu_start p < 200 then s
          else s\<lparr>planetPulses := AList.update k \<lparr> pu_start = now s, pu_color = colorHex, pu_duration = 600 \<rparr> (planetPulses s)\<rparr>
      | None \<Rightarrow> s\<lparr>planetPulses := AList.update k \<lparr> pu_start = now s, pu_color = colorHex, pu_duration = 600 \<rparr> (planetPulses s)\<rparr>)"

definition boost_elevator :: "real \<Rightarrow> nat \<Rightarrow> elevator \<Rightarrow> elevator" where
  "boost_elevator nowMs n e =
     e\<lparr>el_intensity := min 1 (el_intensity e + min (1 / 2) (real (max 1 n) * (5 / 100))), el_lastTraffic := nowMs\<rparr>"

text \<open>The elevator an event runs on, with the direction: forward when it starts at the edge's \<^verbatim>\<open>from\<close>.\<close>

definition event_route :: "'a gmstate_scheme \<Rightarrow> traffic_event \<Rightarrow> (nat \<times> bool) option" where
  "event_route s evt =
     (case (findGameNodeId (te_src evt) s, findGameNodeId (te_dst evt) s) of
        (Some a, Some b) \<Rightarrow>
          if a = [] \<or> b = [] then None
          else (case map_of (elevatorEdgeMap s) (edge_key a b) of
                  None \<Rightarrow> None
                | Some i \<Rightarrow> if i < length (spaceElevators s) then Some (i, a = j_from (el_edge (spaceElevators s ! i))) else None)
      | _ \<Rightarrow> None)"

definition show_event :: "traffic_event \<Rightarrow> real \<times> real \<Rightarrow> 'a gmstate_scheme \<Rightarrow> 'a gmstate_scheme" where
  "show_event evt rnd s =
     (case event_route s evt of
        None \<Rightarrow> s
      | Some (i, forward) \<Rightarrow>
          let e = boost_elevator (now s) (te_packets evt) (spaceElevators s ! i);
              s = s\<lparr>spaceElevators := (spaceElevators s)[i := e]\<rparr>;
              s = spawnTrafficBurst e forward rnd s
          in triggerPlanetPulse (if forward then j_to (el_edge e) else j_from (el_edge e)) (te_color evt) s)"

definition processTrafficEvents :: "(nat \<Rightarrow> real \<times> real) \<Rightarrow> 'a gmstate_scheme \<Rightarrow> 'a gmstate_scheme" where
  "processTrafficEvents rnd s =
     fold (\<lambda>(i, evt). show_event evt (rnd i)) (enumerate 0 (take 15 (trafficEvents s)))
       (s\<lparr>trafficEvents := drop 15 (trafficEvents s)\<rparr>)"

definition pulse_intensity :: "real \<Rightarrow> real" where
  "pulse_intensity t = (if t < 15 / 100 then t / (15 / 100) else 1 - (t - 15 / 100) / (85 / 100))"

definition show_pulse :: "string \<times> pulse \<Rightarrow> 'a gmstate_scheme \<Rightarrow> 'a gmstate_scheme" where
  "show_pulse kp s =
     (let age = now s - pu_start (snd kp); over = pu_duration (snd kp) < age;
          level = (if over then 15 / 100 else 15 / 100 + pulse_intensity (age / pu_duration (snd kp)) * (8 / 10));
          s = (case map_of (nodeIdToMesh s) (fst kp) of None \<Rightarrow> s | Some m \<Rightarrow> s\<lparr>meshGlow := (meshGlow s)(m := level)\<rparr>)
      in if over then s\<lparr>planetPulses := AList.delete (fst kp) (planetPulses s)\<rparr> else s)"

definition animatePlanetPulses :: "'a gmstate_scheme \<Rightarrow> 'a gmstate_scheme" where
  "animatePlanetPulses s = fold show_pulse (planetPulses s) s"

section \<open>Refreshing after an update of the graph\<close>

definition traffic_rate_color :: "nat \<Rightarrow> string" where
  "traffic_rate_color n = (if 10 < n then ''#e74c3c'' else if 3 < n then ''#f39c12'' else ''#2ecc71'')"

definition updateGameHUD :: "'a gmstate_scheme \<Rightarrow> 'a gmstate_scheme" where
  "updateGameHUD s =
     (let total = sum_list (map (v_packetCount \<circ> snd) (nodeMeta s));
          recent = length (filter (\<lambda>t. now s - t < 1000) (trafficBursts s));
          s = upd_el ''gameNodeCount'' (el_text (show_nat (length (nodes s)))) s;
          s = upd_el ''gamePacketCount'' (el_text (localeNumber s total)) s
      in upd_el ''gameTrafficRate'' (el_style ''color'' (traffic_rate_color recent) \<circ> el_text (show_nat recent @ ''/s'')) s)"

definition edge_set_hash :: "'a gstate_scheme \<Rightarrow> string" where
  "edge_set_hash s = join '','' (sort (map_keys (edges s)))"

definition refreshGameNodes :: "(string \<Rightarrow> nat \<Rightarrow> real) \<Rightarrow> 'a gmstate_scheme \<Rightarrow> 'a gmstate_scheme" where
  "refreshGameNodes rnd s =
     (if \<not> gm_active s \<or> nodes s = [] then s
      else
        let toAdd = filter (\<lambda>n. map_of (nodeIdToMesh s) (i_id n) = None) (map snd (nodes s));
            toRemove = filter (\<lambda>k. map_of (nodes s) k = None) (map_keys (nodeIdToMesh s));
            s = fold remove_planet toRemove s;
            s = addNewGameNodes toAdd s;
            s = fold refresh_data (map snd (nodes s)) s;
            hash = edge_set_hash s;
            s = (if toAdd \<noteq> [] \<or> toRemove \<noteq> [] \<or> hash \<noteq> lastElevatorEdgeHash s
                 then createSpaceElevators rnd (s\<lparr>lastElevatorEdgeHash := hash\<rparr>) else s)
        in updateGameHUD s)"

section \<open>The hash and what is drawn from it\<close>

lemma hash_step_times: "hash_step h c = 31 * h + of_nat (of_char c)"
proof -
  have "push_bit 5 h = 32 * h" by (simp add: push_bit_eq_mult mult.commute)
  then show ?thesis by (simp add: hash_step_def)
qed

text \<open>Lemma: the shifts and 32 bit wrap-arounds of \<^verbatim>\<open>hashCode\<close> compute the polynomial hash with base 31.\<close>

theorem hashCode_polynomial: "hashCode str = of_nat (horner_sum of_char 31 (rev str))"
  by (induction str rule: rev_induct) (simp_all add: hashCode_def hash_step_times)

text \<open>Lemma: the numbers drawn from an id lie in the unit interval, and the index of the planet type in its table.\<close>

theorem seeded_in_range: "0 \<le> seededRandom k seed \<and> seededRandom k seed < 1 \<and> planet_type k \<in> set PLANET_TYPES"
proof -
  have "0 \<le> \<bar>sint (hashCode (k @ seed))\<bar> mod 10000" "\<bar>sint (hashCode (k @ seed))\<bar> mod 10000 < 10000" by simp_all
  moreover have "nat (\<bar>sint (hashCode k)\<bar> mod int (length PLANET_TYPES)) < length PLANET_TYPES"
    by (simp add: PLANET_TYPES_def nat_less_iff)
  ultimately show ?thesis by (simp add: seededRandom_def planet_type_def del: of_int_0_le_iff)
qed

section \<open>Placement\<close>

lemma ring_count_pos: "0 < n \<Longrightarrow> 0 < ring_count n"
  by (simp add: ring_count_def)

lemma nodes_in_ring_pos: "0 < n \<Longrightarrow> 0 < nodes_in_ring n"
  using ring_count_pos [of n] by (simp add: nodes_in_ring_def)

lemma same_slot: "i div m = j div m \<Longrightarrow> i mod m = j mod m \<Longrightarrow> i = (j :: nat)"
  by (metis div_mult_mod_eq)

lemma small_turn:
  fixes a b m :: nat
  assumes "a < m" "b < m" "a \<noteq> b"
  shows "real a / real m - real b / real m \<noteq> of_int z"
proof
  assume "real a / real m - real b / real m = of_int z"
  moreover have "0 < real m" using assms(1) by simp
  ultimately have "real a - real b = of_int z * real m" by (simp add: field_simps)
  then have "real_of_int (int a - int b) = real_of_int (z * int m)" by simp
  then have "int a - int b = z * int m" using of_int_eq_iff by blast
  moreover have "\<bar>int a - int b\<bar> < int m" "int a - int b \<noteq> 0" using assms by auto
  ultimately show False by (metis abs_mult abs_of_nat dvd_triv_right zdvd_not_zless abs_ge_zero zero_less_abs_iff dvd_abs_iff)
qed

text \<open>
  Lemma: no two nodes get the same place: they are on different orbits or at angles that differ by no whole
  number of turns.
\<close>

theorem orbit_places_distinct:
  assumes "i < n" and "i \<noteq> j"
  shows "orbit_radius n i \<noteq> orbit_radius n j \<or> (\<forall>z :: int. orbit_angle n i - orbit_angle n j \<noteq> of_int z * (2 * pi))"
proof (cases "fst (orbit_slot n i) = fst (orbit_slot n j)")
  case True
  let ?m = "nodes_in_ring n" and ?a = "snd (orbit_slot n i)" and ?b = "snd (orbit_slot n j)"
  have m: "0 < ?m" using nodes_in_ring_pos assms(1) by simp
  then have "?a < ?m" "?b < ?m" by (simp_all add: orbit_slot_def Let_def)
  moreover have "?a \<noteq> ?b" using True same_slot [of i "max 1 ?m" j] assms(2) by (auto simp: orbit_slot_def Let_def)
  ultimately have turn: "real ?a / real ?m - real ?b / real ?m \<noteq> of_int z" for z by (rule small_turn)
  have "orbit_angle n i - orbit_angle n j = (real ?a / real ?m - real ?b / real ?m) * (2 * pi)"
    by (simp add: orbit_angle_def True algebra_simps)
  then show ?thesis using turn by simp
qed (simp add: orbit_radius_def)

lemma orbit_places_distinct_witness: "orbit_radius 5 0 \<noteq> orbit_radius 5 1 \<or> (\<forall>z :: int. orbit_angle 5 0 - orbit_angle 5 1 \<noteq> of_int z * (2 * pi))"
  by (rule orbit_places_distinct) simp_all

section \<open>Planets stand for the nodes\<close>

text \<open>The two maps say the same: which mesh is the planet of an id.\<close>

definition agree :: "(string \<Rightarrow> nat option) \<Rightarrow> (nat \<Rightarrow> planet option) \<Rightarrow> bool" where
  "agree ids data = (\<forall>k m. ids k = Some m \<longleftrightarrow> (\<exists>p. data m = Some p \<and> pl_id p = k))"

lemma agree_ids: "agree ids data \<Longrightarrow> data m = Some p \<Longrightarrow> ids (pl_id p) = Some m"
  by (simp add: agree_def)

lemma agree_data: "agree ids data \<Longrightarrow> ids k = Some m \<Longrightarrow> \<exists>p. data m = Some p \<and> pl_id p = k"
  by (simp add: agree_def)

lemma agreeI:
  assumes "\<And>m p. data m = Some p \<Longrightarrow> ids (pl_id p) = Some m" and "\<And>k m. ids k = Some m \<Longrightarrow> \<exists>p. data m = Some p \<and> pl_id p = k"
  shows "agree ids data"
  using assms unfolding agree_def by blast

lemma agree_insert:
  assumes "agree ids data" and "ids (pl_id p) = None" and "data m = None"
  shows "agree (ids(pl_id p \<mapsto> m)) (data(m \<mapsto> p))"
proof (rule agreeI)
  fix m' q assume "(data(m \<mapsto> p)) m' = Some q"
  then show "(ids(pl_id p \<mapsto> m)) (pl_id q) = Some m'" using agree_ids [OF assms(1), of m' q] assms(2) by (auto split: if_splits)
next
  fix k m' assume "(ids(pl_id p \<mapsto> m)) k = Some m'"
  then show "\<exists>q. (data(m \<mapsto> p)) m' = Some q \<and> pl_id q = k"
    using agree_data [OF assms(1), of k m'] assms(3) by (auto split: if_splits)
qed

lemma agree_remove:
  assumes "agree ids data" and "ids k = Some m"
  shows "agree (ids(k := None)) (data(m := None))"
proof (rule agreeI)
  fix m' q assume "(data(m := None)) m' = Some q"
  then show "(ids(k := None)) (pl_id q) = Some m'"
    using agree_ids [OF assms(1), of m' q] assms(2) by (auto split: if_splits)
next
  fix k' m' assume "(ids(k := None)) k' = Some m'"
  then show "\<exists>q. (data(m := None)) m' = Some q \<and> pl_id q = k'"
    using agree_data [OF assms(1), of k' m'] agree_data [OF assms] by (auto split: if_splits)
qed

lemma agree_keep:
  assumes "agree ids data" and "data m = Some p" and "pl_id q = pl_id p"
  shows "agree ids (data(m \<mapsto> q))"
proof (rule agreeI)
  fix m' r assume "(data(m \<mapsto> q)) m' = Some r"
  then show "ids (pl_id r) = Some m'" using agree_ids [OF assms(1)] assms(2,3) by (auto split: if_splits)
next
  fix k m' assume "ids k = Some m'"
  then show "\<exists>r. (data(m \<mapsto> q)) m' = Some r \<and> pl_id r = k"
    using agree_data [OF assms(1), of k m'] assms(2,3) by auto
qed

definition tracked :: "'a gmstate_scheme \<Rightarrow> bool" where
  "tracked s \<longleftrightarrow> distinct (nodeMeshes s) \<and> distinct (map_keys (nodeDataMap s)) \<and> distinct (map_keys (nodeIdToMesh s))
     \<and> set (nodeMeshes s) = set (map_keys (nodeDataMap s)) \<and> (\<forall>m \<in> set (nodeMeshes s). m < gm_meshes s)
     \<and> agree (map_of (nodeIdToMesh s)) (map_of (nodeDataMap s))"

definition planet_at :: "'a gmstate_scheme \<Rightarrow> string \<Rightarrow> planet option" where
  "planet_at s k = (case map_of (nodeIdToMesh s) k of None \<Rightarrow> None | Some m \<Rightarrow> map_of (nodeDataMap s) m)"

definition has_planet :: "'a gmstate_scheme \<Rightarrow> string set" where
  "has_planet s = set (map_keys (nodeIdToMesh s))"

lemma map_of_keys: "map_of xs k = None \<longleftrightarrow> k \<notin> set (map_keys xs)"
  by (simp add: map_keys_def map_of_eq_None_iff)

lemma has_planet_iff: "k \<in> has_planet s \<longleftrightarrow> map_of (nodeIdToMesh s) k \<noteq> None"
  by (simp add: has_planet_def map_of_keys)

lemma keys_update: "distinct (map_keys xs) \<Longrightarrow> distinct (map_keys (AList.update k v xs))"
  by (simp add: map_keys_def distinct_update)

lemma set_keys_update: "set (map_keys (AList.update k v xs)) = insert k (set (map_keys xs))"
  by (simp add: map_keys_def dom_update)

lemma keys_delete: "distinct (map_keys xs) \<Longrightarrow> distinct (map_keys (AList.delete k xs))"
  by (simp add: map_keys_def distinct_delete)

lemma set_keys_delete: "set (map_keys (AList.delete k xs)) = set (map_keys xs) - {k}"
  by (simp add: map_keys_def delete_keys)

lemma tracked_add:
  assumes "tracked s" and "i_id node \<notin> has_planet s"
  shows "tracked (add_planet i node s)"
proof -
  let ?m = "gm_meshes s" and ?p = "planet_of s i node"
  have id: "pl_id ?p = i_id node" by (simp add: planet_of_def Let_def)
  have new: "?m \<notin> set (nodeMeshes s)" using assms(1) by (auto simp: tracked_def)
  then have "map_of (nodeDataMap s) ?m = None" using assms(1) by (simp add: tracked_def map_of_keys)
  moreover have "map_of (nodeIdToMesh s) (pl_id ?p) = None" using assms(2) by (simp add: has_planet_iff id)
  ultimately have "agree ((map_of (nodeIdToMesh s))(i_id node \<mapsto> ?m)) ((map_of (nodeDataMap s))(?m \<mapsto> ?p))"
    using agree_insert [of _ _ ?p ?m] assms(1) unfolding tracked_def id by blast
  then show ?thesis using assms(1) new
    by (simp add: tracked_def add_planet_def Let_def keys_update set_keys_update less_SucI map_of_update)
qed

lemma tracked_remove:
  assumes "tracked s"
  shows "tracked (remove_planet k s)"
proof (cases "map_of (nodeIdToMesh s) k")
  case (Some m)
  have "agree ((map_of (nodeIdToMesh s))(k := None)) ((map_of (nodeDataMap s))(m := None))"
    using agree_remove assms Some unfolding tracked_def by blast
  then show ?thesis using assms
    by (simp add: tracked_def remove_planet_def Some keys_delete set_keys_delete map_of_delete)
qed (simp add: remove_planet_def assms)

lemma tracked_refresh:
  assumes "tracked s"
  shows "tracked (refresh_data node s)"
proof (cases "map_of (nodeIdToMesh s) (i_id node)")
  case (Some m)
  then obtain p where p: "map_of (nodeDataMap s) m = Some p" "pl_id p = i_id node"
    using assms unfolding tracked_def agree_def by blast
  have "m \<in> set (map_keys (nodeDataMap s))" using p(1) map_of_keys [of "nodeDataMap s" m] by auto
  moreover have "agree (map_of (nodeIdToMesh s)) ((map_of (nodeDataMap s))(m \<mapsto> q))" if "pl_id q = pl_id p" for q
    using agree_keep that p(1) assms unfolding tracked_def by blast
  ultimately show ?thesis using assms
    by (simp add: tracked_def refresh_data_def Some p(1) keys_update set_keys_update map_of_update insert_absorb)
qed (simp add: refresh_data_def assms)

lemma planet_steps_graph [simp]:
  "nodes (add_planet i n s) = nodes s" "nodeMeta (add_planet i n s) = nodeMeta s" "edges (add_planet i n s) = edges s"
  "nodes (remove_planet k s) = nodes s" "nodeMeta (remove_planet k s) = nodeMeta s" "edges (remove_planet k s) = edges s"
  "nodes (refresh_data n s) = nodes s" "nodeMeta (refresh_data n s) = nodeMeta s" "edges (refresh_data n s) = edges s"
  by (simp_all add: add_planet_def remove_planet_def refresh_data_def Let_def split: option.split)

lemma has_planet_steps [simp]:
  "has_planet (add_planet i n s) = insert (i_id n) (has_planet s)"
  "has_planet (remove_planet k s) = has_planet s - {k}"
  "has_planet (refresh_data n s) = has_planet s"
  by (auto simp: has_planet_def add_planet_def remove_planet_def refresh_data_def Let_def set_keys_update set_keys_delete
      map_of_keys split: option.split)

lemma remove_planets:
  "tracked s \<Longrightarrow> tracked (fold remove_planet ks s) \<and> has_planet (fold remove_planet ks s) = has_planet s - set ks
     \<and> nodes (fold remove_planet ks s) = nodes s \<and> nodeMeta (fold remove_planet ks s) = nodeMeta s"
  by (induction ks arbitrary: s) (auto simp: tracked_remove)

lemma index_in_found: "(k, n) \<in> set ns \<Longrightarrow> index_in k ns \<noteq> None"
proof -
  assume "(k, n) \<in> set ns"
  then obtain j where "j < length ns" "ns ! j = (k, n)" by (auto simp: in_set_conv_nth)
  then have "(j, k, n) \<in> set (enumerate 0 ns)" by (simp add: in_set_enumerate_eq)
  then have "\<exists>x. x \<in> set (enumerate 0 ns) \<and> (\<lambda>(i, k', _). k' = k) x" by auto
  then have "find (\<lambda>(i, k', _). k' = k) (enumerate 0 ns) \<noteq> None" unfolding find_None_iff by blast
  then show ?thesis by (simp add: index_in_def)
qed

lemma add_planets:
  assumes "tracked s" and "distinct (map i_id ns)" and "\<forall>n \<in> set ns. i_id n \<notin> has_planet s \<and> index_in (i_id n) (nodes s) \<noteq> None"
  shows "tracked (addNewGameNodes ns s) \<and> has_planet (addNewGameNodes ns s) = has_planet s \<union> i_id ` set ns
    \<and> nodes (addNewGameNodes ns s) = nodes s \<and> nodeMeta (addNewGameNodes ns s) = nodeMeta s"
  using assms unfolding addNewGameNodes_def
proof (induction ns arbitrary: s)
  case (Cons n ns)
  obtain i where i: "index_in (i_id n) (nodes s) = Some i" using Cons.prems(3) by auto
  have "tracked (add_planet i n s)" using Cons.prems by (simp add: tracked_add)
  moreover have "\<forall>n' \<in> set ns. i_id n' \<notin> has_planet (add_planet i n s) \<and> index_in (i_id n') (nodes (add_planet i n s)) \<noteq> None"
    using Cons.prems(2,3) by (auto simp: image_iff)
  ultimately show ?case using Cons.IH [of "add_planet i n s"] Cons.prems(2) by (simp add: i)
qed simp

text \<open>What the panels show of a planet.\<close>

definition up_to_date :: "'a gmstate_scheme \<Rightarrow> node_item \<Rightarrow> planet \<Rightarrow> bool" where
  "up_to_date s n p \<longleftrightarrow> pl_id p = i_id n \<and> pl_label p = i_label n \<and> pl_title p = nodeTooltipFor (i_id n) s
     \<and> pl_packetCount p = max 1 (metaPacketCount (Some n) s)"

lemma planet_at_tracked: "tracked s \<Longrightarrow> k \<in> has_planet s \<Longrightarrow> \<exists>p. planet_at s k = Some p \<and> pl_id p = k"
  unfolding has_planet_iff planet_at_def tracked_def using agree_data by fastforce

lemma refresh_this:
  assumes "tracked s" and "i_id n \<in> has_planet s"
  shows "\<exists>p. planet_at (refresh_data n s) (i_id n) = Some p \<and> up_to_date s n p"
proof -
  obtain m where m: "map_of (nodeIdToMesh s) (i_id n) = Some m" using assms(2) by (auto simp: has_planet_iff)
  then obtain p where p: "map_of (nodeDataMap s) m = Some p" "pl_id p = i_id n"
    using agree_data assms(1) unfolding tracked_def by blast
  then show ?thesis by (simp add: planet_at_def refresh_data_def m map_of_update up_to_date_def)
qed

lemma refresh_other:
  assumes "tracked s" and "k \<noteq> i_id n"
  shows "planet_at (refresh_data n s) k = planet_at s k"
proof (cases "map_of (nodeIdToMesh s) (i_id n)")
  case (Some m)
  have a: "agree (map_of (nodeIdToMesh s)) (map_of (nodeDataMap s))" using assms(1) by (simp add: tracked_def)
  have "map_of (nodeIdToMesh s) k \<noteq> Some m"
  proof
    assume "map_of (nodeIdToMesh s) k = Some m"
    then show False using agree_data [OF a Some] agree_data [OF a, of k m] assms(2) by auto
  qed
  then show ?thesis by (auto simp: planet_at_def refresh_data_def Some map_of_update split: option.split)
qed (simp add: refresh_data_def)

lemma metaPacketCount_cong: "nodeMeta s = nodeMeta t \<Longrightarrow> metaPacketCount n s = metaPacketCount n t"
  by (simp add: metaPacketCount_def split: option.split)

lemma up_to_date_cong: "nodeMeta s = nodeMeta t \<Longrightarrow> up_to_date s n p = up_to_date t n p"
proof -
  assume e: "nodeMeta s = nodeMeta t"
  show ?thesis unfolding up_to_date_def nodeTooltipFor_def metaPacketCount_cong [OF e] e ..
qed

lemma refresh_rest: "tracked s \<Longrightarrow> k \<notin> i_id ` set ns \<Longrightarrow> planet_at (fold refresh_data ns s) k = planet_at s k"
  by (induction ns arbitrary: s) (auto simp: tracked_refresh refresh_other)

lemma refresh_keeps:
  "tracked s \<Longrightarrow> tracked (fold refresh_data ns s) \<and> has_planet (fold refresh_data ns s) = has_planet s
    \<and> nodes (fold refresh_data ns s) = nodes s \<and> nodeMeta (fold refresh_data ns s) = nodeMeta s"
  by (induction ns arbitrary: s) (simp_all add: tracked_refresh)

lemma refresh_all:
  assumes "tracked s" and "distinct (map i_id ns)" and "i_id ` set ns \<subseteq> has_planet s" and "n \<in> set ns"
  shows "\<exists>p. planet_at (fold refresh_data ns s) (i_id n) = Some p \<and> up_to_date s n p"
  using assms
proof (induction ns arbitrary: s)
  case (Cons n' ns)
  let ?s = "refresh_data n' s"
  have s: "tracked ?s" by (rule tracked_refresh [OF Cons.prems(1)])
  show ?case
  proof (cases "n = n'")
    case True
    have "planet_at (fold refresh_data ns ?s) (i_id n') = planet_at ?s (i_id n')"
      using Cons.prems(2) by (intro refresh_rest s) (auto simp: image_iff)
    then show ?thesis using refresh_this [OF Cons.prems(1), of n'] Cons.prems(3) True by simp
  next
    case False
    then have "\<exists>p. planet_at (fold refresh_data ns ?s) (i_id n) = Some p \<and> up_to_date ?s n p"
      using Cons.prems by (intro Cons.IH s) auto
    then show ?thesis by (simp add: up_to_date_cong [of ?s s])
  qed
qed simp

lemma elevators_keep_planets:
  "nodeMeshes (createSpaceElevators rnd s) = nodeMeshes s" "nodeDataMap (createSpaceElevators rnd s) = nodeDataMap s"
  "nodeIdToMesh (createSpaceElevators rnd s) = nodeIdToMesh s" "gm_meshes (createSpaceElevators rnd s) = gm_meshes s"
proof -
  have "nodeMeshes (fold (add_elevator meshes rnd) es t) = nodeMeshes t \<and> nodeDataMap (fold (add_elevator meshes rnd) es t) = nodeDataMap t
    \<and> nodeIdToMesh (fold (add_elevator meshes rnd) es t) = nodeIdToMesh t \<and> gm_meshes (fold (add_elevator meshes rnd) es t) = gm_meshes t"
    for meshes es and t :: "'a gmstate_scheme"
    by (induction es arbitrary: t) (auto simp: add_elevator_def Let_def split: option.splits)
  then show "nodeMeshes (createSpaceElevators rnd s) = nodeMeshes s" "nodeDataMap (createSpaceElevators rnd s) = nodeDataMap s"
    "nodeIdToMesh (createSpaceElevators rnd s) = nodeIdToMesh s" "gm_meshes (createSpaceElevators rnd s) = gm_meshes s"
    by (simp_all add: createSpaceElevators_def)
qed

lemma hud_keeps_planets:
  "nodeMeshes (updateGameHUD s) = nodeMeshes s" "nodeDataMap (updateGameHUD s) = nodeDataMap s"
  "nodeIdToMesh (updateGameHUD s) = nodeIdToMesh s" "gm_meshes (updateGameHUD s) = gm_meshes s"
  by (simp_all add: updateGameHUD_def Let_def upd_el_def)

lemma tracked_cong:
  assumes "nodeMeshes s = nodeMeshes t" "nodeDataMap s = nodeDataMap t" "nodeIdToMesh s = nodeIdToMesh t" "gm_meshes s = gm_meshes t"
  shows "tracked s = tracked t \<and> has_planet s = has_planet t \<and> planet_at s = planet_at t"
  unfolding tracked_def has_planet_def planet_at_def fun_eq_iff assms by simp

text \<open>
  C29: after a refresh there is exactly one planet for each node of the DataSet, tracked consistently in the
  three maps, and its label, tooltip and packet count are those of the node now.
\<close>

theorem planets_match_nodes:
  fixes rnd :: "string \<Rightarrow> nat \<Rightarrow> real"
  assumes "tracked s" and "gm_active s" and "nodes s \<noteq> []" and "distinct (map_keys (nodes s))"
    and "\<forall>(k, n) \<in> set (nodes s). i_id n = k"
  defines "s' \<equiv> refreshGameNodes rnd s"
  shows "tracked s' \<and> has_planet s' = set (map_keys (nodes s))
    \<and> (\<forall>(k, n) \<in> set (nodes s). \<exists>p. planet_at s' k = Some p \<and> up_to_date s n p)"
proof -
  let ?ns = "map snd (nodes s)"
  define toAdd where "toAdd = filter (\<lambda>n. map_of (nodeIdToMesh s) (i_id n) = None) ?ns"
  define toRemove where "toRemove = filter (\<lambda>k. map_of (nodes s) k = None) (map_keys (nodeIdToMesh s))"
  define s1 where "s1 = fold remove_planet toRemove s"
  define s2 where "s2 = addNewGameNodes toAdd s1"
  define s3 where "s3 = fold refresh_data (map snd (nodes s2)) s2"
  have ids: "map i_id ?ns = map_keys (nodes s)" using assms(5) by (auto simp: map_keys_def)
  then have idset: "i_id ` snd ` set (nodes s) = set (map_keys (nodes s))" by (metis list.set_map)
  have s1: "tracked s1" "has_planet s1 = has_planet s - set toRemove" "nodes s1 = nodes s" "nodeMeta s1 = nodeMeta s"
    using remove_planets [OF assms(1), of toRemove] by (simp_all add: s1_def)
  have found: "index_in k (nodes s) \<noteq> None" if "k \<in> set (map_keys (nodes s))" for k
    using that index_in_found by (fastforce simp: map_keys_def)
  have "distinct (map i_id toAdd)" unfolding toAdd_def using assms(4) ids distinct_map_filter by metis
  moreover have "\<forall>n \<in> set toAdd. i_id n \<notin> has_planet s1 \<and> index_in (i_id n) (nodes s1) \<noteq> None"
  proof
    fix n assume n: "n \<in> set toAdd"
    then have "i_id n \<in> i_id ` snd ` set (nodes s)" by (auto simp: toAdd_def)
    then have "i_id n \<in> set (map_keys (nodes s))" using idset by simp
    then show "i_id n \<notin> has_planet s1 \<and> index_in (i_id n) (nodes s1) \<noteq> None"
      using found n by (auto simp: toAdd_def s1 has_planet_iff)
  qed
  ultimately have s2: "tracked s2" "has_planet s2 = has_planet s1 \<union> i_id ` set toAdd" "nodes s2 = nodes s" "nodeMeta s2 = nodeMeta s"
    using add_planets [OF s1(1), of toAdd] by (simp_all add: s2_def s1)
  have "i_id ` set toAdd = {k \<in> set (map_keys (nodes s)). map_of (nodeIdToMesh s) k = None}"
    unfolding idset [symmetric] by (auto simp: toAdd_def)
  moreover have "set toRemove = has_planet s - set (map_keys (nodes s))"
    by (auto simp: toRemove_def has_planet_def map_of_keys)
  ultimately have keys: "has_planet s2 = set (map_keys (nodes s))"
    unfolding s2(2) s1(2) using has_planet_iff [of _ s] by auto
  have s3: "tracked s3" "has_planet s3 = has_planet s2" using refresh_keeps [OF s2(1)] by (simp_all add: s3_def)
  have shown: "\<exists>p. planet_at s3 (i_id n) = Some p \<and> up_to_date s2 n p" if "n \<in> set ?ns" for n
    unfolding s3_def s2(3) using that ids idset keys assms(4) by (intro refresh_all s2(1)) simp_all
  define hash where "hash = edge_set_hash s3"
  have "s' = updateGameHUD (if toAdd \<noteq> [] \<or> toRemove \<noteq> [] \<or> hash \<noteq> lastElevatorEdgeHash s3
      then createSpaceElevators rnd (s3\<lparr>lastElevatorEdgeHash := hash\<rparr>) else s3)"
    unfolding s'_def refreshGameNodes_def Let_def hash_def s3_def s2_def s1_def toAdd_def toRemove_def
    by (rule if_not_P) (use assms(2,3) in simp)
  then have "s' = updateGameHUD s3 \<or> s' = updateGameHUD (createSpaceElevators rnd (s3\<lparr>lastElevatorEdgeHash := hash\<rparr>))"
    by presburger
  then have "nodeMeshes s' = nodeMeshes s3 \<and> nodeDataMap s' = nodeDataMap s3 \<and> nodeIdToMesh s' = nodeIdToMesh s3 \<and> gm_meshes s' = gm_meshes s3"
    by (elim disjE) (simp_all only: hud_keeps_planets elevators_keep_planets, simp_all)
  then have "tracked s' = tracked s3 \<and> has_planet s' = has_planet s3 \<and> planet_at s' = planet_at s3" by (intro tracked_cong) simp_all
  moreover have "\<exists>p. planet_at s3 k = Some p \<and> up_to_date s n p" if "(k, n) \<in> set (nodes s)" for k n
  proof -
    have "i_id n = k" using assms(5) that by auto
    moreover have "n \<in> set ?ns" using that by (auto simp: image_iff intro: bexI [of _ "(k, n)"])
    ultimately show ?thesis using shown [of n] unfolding up_to_date_cong [OF s2(4)] by blast
  qed
  ultimately show ?thesis using s3 keys by auto
qed

section \<open>Elevators are found by the nodes they join\<close>

definition lookup_ok :: "edge_item set \<Rightarrow> 'a gmstate_scheme \<Rightarrow> bool" where
  "lookup_ok es s \<longleftrightarrow> (\<forall>key i. map_of (elevatorEdgeMap s) key = Some i \<longrightarrow> i < length (spaceElevators s)
     \<and> (let e = el_edge (spaceElevators s ! i) in e \<in> es \<and> (key = edge_key (j_from e) (j_to e) \<or> key = edge_key (j_to e) (j_from e))))"

lemma lookup_add:
  assumes "lookup_ok es s" and "e \<in> es"
  shows "lookup_ok es (add_elevator meshes rnd e s)"
proof (cases "map_of meshes (j_from e) = None \<or> map_of meshes (j_to e) = None")
  case True
  then show ?thesis using assms(1) by (auto simp: add_elevator_def split: option.split)
next
  case False
  then obtain a b where "map_of meshes (j_from e) = Some a" "map_of meshes (j_to e) = Some b" by auto
  then show ?thesis using assms
    by (auto simp: add_elevator_def lookup_ok_def Let_def map_of_update nth_append new_elevator_def less_SucI split: if_splits)
qed

lemma elevators_length: "length (spaceElevators (fold (add_elevator meshes rnd) es s)) \<le> length (spaceElevators s) + length es"
proof (induction es arbitrary: s)
  case (Cons e es)
  have "length (spaceElevators (add_elevator meshes rnd e s)) \<le> Suc (length (spaceElevators s))"
    by (simp add: add_elevator_def Let_def split: option.split)
  then show ?case using Cons [of "add_elevator meshes rnd e s"] by simp
qed simp

text \<open>
  Lemma: at most 50 elevators are built, each for an edge of the graph, and the lookup by a pair of node ids
  always leads to an elevator that joins these two.
\<close>

theorem elevator_lookup_sound:
  "length (spaceElevators (createSpaceElevators rnd s)) \<le> 50 \<and> lookup_ok (snd ` set (edges s)) (createSpaceElevators rnd s)"
proof
  have "length (busiest_edges s) \<le> 50" by (simp add: busiest_edges_def)
  then show "length (spaceElevators (createSpaceElevators rnd s)) \<le> 50"
    using elevators_length [of "mesh_of_data s" rnd "busiest_edges s" "s\<lparr>spaceElevators := [], elevatorEdgeMap := []\<rparr>"]
    by (simp add: createSpaceElevators_def)
  have "lookup_ok E (fold (add_elevator meshes rnd) es t)" if "set es \<subseteq> E" "lookup_ok E t" for E meshes es and t :: "'a gmstate_scheme"
    using that by (induction es arbitrary: t) (simp_all add: lookup_add)
  moreover have "set (busiest_edges s) \<subseteq> snd ` set (edges s)"
    unfolding busiest_edges_def using set_take_subset by fastforce
  ultimately show "lookup_ok (snd ` set (edges s)) (createSpaceElevators rnd s)" by (simp add: createSpaceElevators_def lookup_ok_def)
qed

section \<open>Traffic stays within its bounds and fades\<close>

definition elevator_ok :: "elevator \<Rightarrow> bool" where
  "elevator_ok e \<longleftrightarrow> 0 \<le> el_intensity e \<and> el_intensity e \<le> 1 \<and> 0 \<le> el_speed e \<and> (\<forall>p \<in> set (el_progress e). 0 \<le> p \<and> p \<le> 1)"

lemma new_elevator_ok: "(\<And>i. 0 \<le> rnd i \<and> rnd i \<le> 1) \<Longrightarrow> elevator_ok (new_elevator a b rnd e)"
  by (simp add: elevator_ok_def new_elevator_def)

lemma move_particles_ok: "elevator_ok e \<Longrightarrow> elevator_ok (move_particles e)"
  by (auto simp: elevator_ok_def move_particles_def Let_def)

lemma boost_ok: "elevator_ok e \<Longrightarrow> elevator_ok (boost_elevator t n e)"
  by (auto simp: elevator_ok_def boost_elevator_def min_def)

lemma cool_ok: "elevator_ok e \<Longrightarrow> elevator_ok (cool_elevator t e) \<and> 3 / 10 \<le> el_lineOpacity (cool_elevator t e)
    \<and> el_lineOpacity (cool_elevator t e) \<le> 9 / 10 \<and> el_speed (cool_elevator t e) \<le> 1 / 100"
  by (auto simp: elevator_ok_def cool_elevator_def Let_def)

definition burst_ok :: "burst \<Rightarrow> bool" where
  "burst_ok b = (15 / 1000 \<le> \<bar>bu_speed b\<bar>)"

definition pool_ok :: "burst_pool \<Rightarrow> bool" where
  "pool_ok pool \<longleftrightarrow> length (bp_slots pool) = BURST_POOL_SIZE \<and> bp_next pool < BURST_POOL_SIZE
     \<and> (\<forall>b. Some b \<in> set (bp_slots pool) \<longrightarrow> burst_ok b)"

lemma new_burst_ok: "0 \<le> fst rnd \<Longrightarrow> burst_ok (new_burst t e forward rnd)"
  by (simp add: burst_ok_def new_burst_def)

lemma every_slot_tried:
  assumes "start < n" and "i < (n :: nat)"
  shows "i \<in> set (map (\<lambda>t. (start + t) mod n) [0..<n])"
proof -
  have "(start + (i + n - start) mod n) mod n = i" using assms by (simp add: mod_simps)
  moreover have "(i + n - start) mod n < n" using assms by simp
  ultimately show ?thesis by (force simp: image_iff)
qed

lemma burst_slot_cases:
  assumes "pool_ok pool"
  shows "burst_slot pool < BURST_POOL_SIZE \<and> (bp_slots pool ! burst_slot pool = None \<or> None \<notin> set (bp_slots pool))"
proof (cases "find (\<lambda>i. bp_slots pool ! i = None) (map (\<lambda>t. (bp_next pool + t) mod BURST_POOL_SIZE) [0..<BURST_POOL_SIZE])")
  case None
  have start: "bp_next pool < BURST_POOL_SIZE" using assms by (simp add: pool_ok_def)
  have "bp_slots pool ! i \<noteq> None" if "i < BURST_POOL_SIZE" for i
  proof
    assume "bp_slots pool ! i = None"
    then show False using None every_slot_tried [OF start that] unfolding find_None_iff by fast
  qed
  then have "None \<notin> set (bp_slots pool)" using assms by (simp add: pool_ok_def in_set_conv_nth)
  then show ?thesis using None assms by (simp add: burst_slot_def pool_ok_def)
next
  case (Some i)
  then have "bp_slots pool ! i = None" "i \<in> set (map (\<lambda>t. (bp_next pool + t) mod BURST_POOL_SIZE) [0..<BURST_POOL_SIZE])"
    by (auto simp: find_Some_iff in_set_conv_nth)
  then show ?thesis using Some by (auto simp: burst_slot_def BURST_POOL_SIZE_def)
qed

lemma put_burst_ok: "pool_ok pool \<Longrightarrow> burst_ok b \<Longrightarrow> pool_ok (put_burst b pool)"
  using set_update_subset_insert [of "bp_slots pool" "burst_slot pool" "Some b"]
  by (auto simp: pool_ok_def put_burst_def Let_def BURST_POOL_SIZE_def)

text \<open>
  C35: a new burst takes a free slot as long as there is one, so no burst under way is lost before all 100
  slots are taken.
\<close>

theorem burst_takes_free_slot:
  assumes "pool_ok pool" and "burst_ok b"
  shows "pool_ok (put_burst b pool)
    \<and> (\<exists>slot < BURST_POOL_SIZE. bp_slots (put_burst b pool) = (bp_slots pool)[slot := Some b]
         \<and> (bp_slots pool ! slot = None \<or> None \<notin> set (bp_slots pool)))"
proof
  show "pool_ok (put_burst b pool)" using assms by (rule put_burst_ok)
  show "\<exists>slot < BURST_POOL_SIZE. bp_slots (put_burst b pool) = (bp_slots pool)[slot := Some b]
         \<and> (bp_slots pool ! slot = None \<or> None \<notin> set (bp_slots pool))"
    using burst_slot_cases [OF assms(1)] by (auto simp: put_burst_def Let_def)
qed

lemma burst_takes_free_slot_witness:
  "pool_ok (put_burst \<lparr> bu_edge = ''e'', bu_progress = 0, bu_speed = 2 / 100, bu_start = 0, bu_lifetime = 2000 \<rparr>
     \<lparr> bp_scene = Some 0, bp_slots = replicate BURST_POOL_SIZE None, bp_next = 0 \<rparr>)"
  by (rule burst_takes_free_slot [THEN conjunct1]) (simp_all add: pool_ok_def burst_ok_def BURST_POOL_SIZE_def)

lemma step_none [simp]: "step_burst t None = None"
  by (simp add: step_burst_def)

lemma fold_step_none [simp]: "fold step_burst ts None = None"
  by (induction ts) simp_all

lemma burst_moves:
  "fold step_burst ts (Some b) = Some b' \<Longrightarrow>
     bu_speed b' = bu_speed b \<and> bu_progress b' = bu_progress b + real (length ts) * bu_speed b
     \<and> (ts \<noteq> [] \<longrightarrow> 0 \<le> bu_progress b' - bu_speed b \<and> bu_progress b' - bu_speed b \<le> 1)"
proof (induction ts arbitrary: b' rule: rev_induct)
  case (snoc t ts)
  from snoc.prems obtain c where c: "fold step_burst ts (Some b) = Some c"
    by (cases "fold step_burst ts (Some b)") simp_all
  then have "step_burst t (Some c) = Some b'" using snoc.prems by simp
  then have "0 \<le> bu_progress c" "bu_progress c \<le> 1" "b' = c\<lparr>bu_progress := bu_progress c + bu_speed c\<rparr>"
    by (auto simp: step_burst_def split: if_splits)
  then show ?case using snoc.IH [OF c] by (simp add: algebra_simps)
qed simp

lemma burst_gone:
  assumes "burst_ok b" and "68 \<le> length ts"
  shows "fold step_burst ts (Some b) = None"
proof (rule ccontr)
  assume "fold step_burst ts (Some b) \<noteq> None"
  then obtain b' where "fold step_burst ts (Some b) = Some b'" by blast
  note moves = burst_moves [OF this]
  obtain t ts' where ts: "ts = t # ts'" using assms(2) by (cases ts) auto
  have start: "0 \<le> bu_progress b" "bu_progress b \<le> 1"
    using \<open>fold step_burst ts (Some b) = Some b'\<close> by (cases "step_burst t (Some b)"; auto simp: ts step_burst_def split: if_splits)+
  have "(1 + real (length ts')) * bu_speed b = bu_speed b + real (length ts') * bu_speed b" by (simp add: algebra_simps)
  then have "\<bar>real (length ts') * bu_speed b\<bar> \<le> 1" using moves start by (simp add: ts abs_le_iff)
  moreover have "67 * (15 / 1000) \<le> real (length ts') * \<bar>bu_speed b\<bar>"
    using assms by (intro mult_mono) (simp_all add: ts burst_ok_def)
  ultimately show False by (simp add: abs_mult)
qed

text \<open>Lemma: without new traffic every burst has ended after 68 frames, whatever the clock shows in them.\<close>

theorem bursts_end:
  assumes "pool_ok pool" and "68 \<le> length ts"
  shows "fold (\<lambda>t. map (step_burst t)) ts (bp_slots pool) = replicate BURST_POOL_SIZE None"
proof -
  have "fold (\<lambda>t. map (step_burst t)) ts xs = map (fold step_burst ts) xs" for xs
    by (induction ts arbitrary: xs) (simp_all add: comp_def)
  moreover have "fold step_burst ts x = None" if "x \<in> set (bp_slots pool)" for x
    using burst_gone [OF _ assms(2)] assms(1) that by (cases x) (auto simp: pool_ok_def)
  moreover have "length (bp_slots pool) = BURST_POOL_SIZE" using assms(1) by (simp add: pool_ok_def)
  ultimately show ?thesis by (intro replicate_eqI) auto
qed

lemma bursts_end_witness:
  "fold (\<lambda>t. map (step_burst t)) (replicate 68 0) (bp_slots \<lparr> bp_scene = None, bp_slots = replicate BURST_POOL_SIZE None, bp_next = 0 \<rparr>)
     = replicate BURST_POOL_SIZE None"
  by (rule bursts_end) (simp_all add: pool_ok_def BURST_POOL_SIZE_def)

section \<open>A frame of the traffic display\<close>

definition traffic_frame :: "(nat \<Rightarrow> real \<times> real) \<Rightarrow> 'a gmstate_scheme \<Rightarrow> 'a gmstate_scheme" where
  "traffic_frame rnd s =
     updateElevatorIntensity (animatePlanetPulses (animateTrafficBursts (processTrafficEvents rnd (animateSpaceElevators s))))"

definition traffic_ok :: "'a gmstate_scheme \<Rightarrow> bool" where
  "traffic_ok s \<longleftrightarrow> (\<forall>e \<in> set (spaceElevators s). elevator_ok e) \<and> (\<forall>pool. burstPool s = Some pool \<longrightarrow> pool_ok pool)"

lemma step_burst_ok: "burst_ok b \<Longrightarrow> step_burst t (Some b) = Some b' \<Longrightarrow> burst_ok b'"
  by (auto simp: step_burst_def burst_ok_def split: if_splits)

lemma pool_step_ok:
  assumes "pool_ok pool"
  shows "pool_ok (pool\<lparr>bp_slots := map (step_burst t) (bp_slots pool)\<rparr>)"
proof -
  have "burst_ok b" if "Some b \<in> set (map (step_burst t) (bp_slots pool))" for b
  proof -
    obtain x where x: "x \<in> set (bp_slots pool)" "step_burst t x = Some b" using \<open>Some b \<in> _\<close> by auto
    obtain c where "x = Some c" using x(2) by (cases x) simp_all
    then show ?thesis using x assms step_burst_ok [of c t b] by (simp add: pool_ok_def)
  qed
  then show ?thesis using assms by (simp add: pool_ok_def)
qed

lemma init_pool_ok: "traffic_ok s \<Longrightarrow> traffic_ok (initBurstPool s) \<and> burstPool (initBurstPool s) \<noteq> None"
  by (auto simp: traffic_ok_def initBurstPool_def pool_ok_def BURST_POOL_SIZE_def split: option.split)

lemma spawn_ok: "traffic_ok s \<Longrightarrow> 0 \<le> fst rnd \<Longrightarrow> traffic_ok (spawnTrafficBurst e forward rnd s)"
  using init_pool_ok [of s] put_burst_ok by (auto simp: traffic_ok_def spawnTrafficBurst_def Let_def new_burst_ok)

lemma trigger_keeps [simp]:
  "spaceElevators (triggerPlanetPulse k c s) = spaceElevators s" "burstPool (triggerPlanetPulse k c s) = burstPool s"
  "trafficEvents (triggerPlanetPulse k c s) = trafficEvents s"
  by (simp_all add: triggerPlanetPulse_def split: option.split)

lemma spawn_keeps [simp]:
  "spaceElevators (spawnTrafficBurst e forward rnd s) = spaceElevators s" "trafficEvents (spawnTrafficBurst e forward rnd s) = trafficEvents s"
  by (simp_all add: spawnTrafficBurst_def initBurstPool_def Let_def split: option.split)

lemma show_event_ok:
  assumes "traffic_ok s" and "0 \<le> fst rnd"
  shows "traffic_ok (show_event evt rnd s) \<and> trafficEvents (show_event evt rnd s) = trafficEvents s"
proof (cases "event_route s evt")
  case (Some r)
  obtain i fwd where r: "r = (i, fwd)" by (rule prod.exhaust)
  have i: "i < length (spaceElevators s)" using Some r by (auto simp: event_route_def split: option.splits if_splits)
  let ?e = "boost_elevator (now s) (te_packets evt) (spaceElevators s ! i)"
  have "elevator_ok ?e" using assms(1) i by (simp add: boost_ok traffic_ok_def)
  then have "\<forall>e \<in> set ((spaceElevators s)[i := ?e]). elevator_ok e"
    using assms(1) set_update_subset_insert [of "spaceElevators s" i ?e] by (auto simp: traffic_ok_def)
  then have "traffic_ok (s\<lparr>spaceElevators := (spaceElevators s)[i := ?e]\<rparr>)" using assms(1) by (simp add: traffic_ok_def)
  from spawn_ok [OF this assms(2), of ?e fwd] show ?thesis by (simp add: show_event_def Some r Let_def traffic_ok_def)
qed (simp add: show_event_def assms)

lemma process_ok:
  assumes "traffic_ok s" and "\<And>i. 0 \<le> fst (rnd i)"
  shows "traffic_ok (processTrafficEvents rnd s) \<and> trafficEvents (processTrafficEvents rnd s) = drop 15 (trafficEvents s)"
proof -
  have "traffic_ok (fold (\<lambda>(i, evt). show_event evt (rnd i)) es t)
      \<and> trafficEvents (fold (\<lambda>(i, evt). show_event evt (rnd i)) es t) = trafficEvents t"
    if "traffic_ok t" for es and t :: "'a gmstate_scheme"
    using that by (induction es arbitrary: t) (auto simp: show_event_ok assms(2))
  moreover have "traffic_ok (s\<lparr>trafficEvents := drop 15 (trafficEvents s)\<rparr>)" using assms(1) by (simp add: traffic_ok_def)
  ultimately show ?thesis by (simp add: processTrafficEvents_def)
qed

lemma show_pulse_keeps [simp]:
  "spaceElevators (show_pulse kp s) = spaceElevators s" "burstPool (show_pulse kp s) = burstPool s"
  "trafficEvents (show_pulse kp s) = trafficEvents s" "now (show_pulse kp s) = now s"
  by (simp_all add: show_pulse_def Let_def split: option.split)

lemma pulses_keep [simp]:
  "spaceElevators (animatePlanetPulses s) = spaceElevators s" "burstPool (animatePlanetPulses s) = burstPool s"
  "trafficEvents (animatePlanetPulses s) = trafficEvents s"
proof -
  have "spaceElevators (fold show_pulse ps t) = spaceElevators t \<and> burstPool (fold show_pulse ps t) = burstPool t
      \<and> trafficEvents (fold show_pulse ps t) = trafficEvents t" for ps and t :: "'a gmstate_scheme"
    by (induction ps arbitrary: t) simp_all
  then show "spaceElevators (animatePlanetPulses s) = spaceElevators s" "burstPool (animatePlanetPulses s) = burstPool s"
    "trafficEvents (animatePlanetPulses s) = trafficEvents s" by (simp_all add: animatePlanetPulses_def)
qed


lemma delete_all: "set (fold AList.delete ks xs) = {x \<in> set xs. fst x \<notin> set ks}"
  by (induction ks arbitrary: xs) (auto simp: AList.delete_eq)

lemma over_pulses:
  "(\<forall>kp \<in> set ps. pu_duration (snd kp) < now s - pu_start (snd kp)) \<Longrightarrow>
     planetPulses (fold show_pulse ps s) = fold AList.delete (map fst ps) (planetPulses s)"
  by (induction ps arbitrary: s) (auto simp: show_pulse_def Let_def split: option.split)

text \<open>Lemma: once every pulse is older than its duration the next frame ends all of them.\<close>

theorem pulses_end:
  assumes "\<forall>(k, p) \<in> set (planetPulses s). pu_duration p < now s - pu_start p"
  shows "planetPulses (animatePlanetPulses s) = []"
proof -
  have "planetPulses (animatePlanetPulses s) = fold AList.delete (map fst (planetPulses s)) (planetPulses s)"
    unfolding animatePlanetPulses_def using assms by (intro over_pulses) auto
  moreover have "set (fold AList.delete (map fst (planetPulses s)) (planetPulses s)) = {}" by (auto simp: delete_all)
  ultimately show ?thesis by simp
qed

lemma cool_step:
  "el_lastTraffic (cool_elevator t e) = el_lastTraffic e"
  "100 < t - el_lastTraffic e \<Longrightarrow> el_intensity (cool_elevator t e)
     = (if el_intensity e * (95 / 100) < 1 / 100 then 0 else el_intensity e * (95 / 100))"
  by (simp_all add: cool_elevator_def Let_def)

lemma cooling:
  assumes "el_intensity e \<le> 1" and "\<forall>t \<in> set ts. 100 < t - el_lastTraffic e"
  shows "el_lastTraffic (fold cool_elevator ts e) = el_lastTraffic e
    \<and> (el_intensity (fold cool_elevator ts e) = 0 \<or> el_intensity (fold cool_elevator ts e) \<le> (95 / 100) ^ length ts)
    \<and> (ts \<noteq> [] \<longrightarrow> el_intensity (fold cool_elevator ts e) = 0 \<or> 1 / 100 \<le> el_intensity (fold cool_elevator ts e))"
  using assms
proof (induction ts rule: rev_induct)
  case (snoc t ts)
  let ?c = "fold cool_elevator ts e"
  have "el_lastTraffic ?c = el_lastTraffic e" "el_intensity ?c = 0 \<or> el_intensity ?c \<le> (95 / 100) ^ length ts"
    using snoc by simp_all
  then show ?case using snoc.prems by (auto simp: cool_step)
qed simp

lemma cold_power: "98 \<le> n \<Longrightarrow> (95 / 100 :: real) ^ n < 1 / 100"
proof -
  assume "98 \<le> n"
  then have "(95 / 100 :: real) ^ n \<le> (95 / 100) ^ (14 * 7)" by (intro power_decreasing) simp_all
  also have "\<dots> = ((95 / 100) ^ 14) ^ 7" by (rule power_mult)
  also have "\<dots> \<le> (1 / 2 :: real) ^ 7" by (intro power_mono) (simp_all add: power_divide)
  also have "\<dots> < 1 / 100" by (simp add: power_divide)
  finally show ?thesis .
qed

text \<open>Lemma: a beam without traffic goes dark within 98 frames.\<close>

theorem beam_goes_dark:
  assumes "el_intensity e \<le> 1" and "\<forall>t \<in> set ts. 100 < t - el_lastTraffic e" and "98 \<le> length ts"
  shows "el_intensity (fold cool_elevator ts e) = 0"
  using cooling [OF assms(1,2)] cold_power [OF assms(3)] assms(3) by (cases ts) auto

end
