(* ===== verification/Warp.thy ===== *)
theory Warp
  imports Game
begin

text \<open>
  The warp drive of the game mode (\<^verbatim>\<open>static/app.js\<close>): its search box and list, the keys in it, the
  reply of the payload search, and the flight to a planet.  A flight runs in frames of its own, so each
  flight whose callback is registered is an entry of a list.  The orientation that \<^verbatim>\<open>lookAt\<close> gives the
  camera is an argument.
\<close>

section \<open>The overlay\<close>

definition warp_hint :: string where
  "warp_hint = div_c ''warp-no-results'' ''Type to search for a destination...''"

definition warp_status :: "string \<Rightarrow> string \<Rightarrow> 'a world_scheme \<Rightarrow> 'a world_scheme" where
  "warp_status t cls s =
     upd_el ''warpDriveStatus'' ((\<lambda>e. e\<lparr>e_classes := set (split_on (CHR '' '') cls)\<rparr>) \<circ> el_text t) s"

definition openWarpDrive :: "'a gmstate_scheme \<Rightarrow> 'a gmstate_scheme" where
  "openWarpDrive s =
     (if isWarping s then s
      else
        let s = s\<lparr>warpDriveActive := True, warpSelectedIndex := 0, warpResults := []\<rparr>;
            s = (if has_el ''warpDriveOverlay'' s
                 then (upd_el ''warpDriveResults'' (el_html warp_hint)
                        (warp_status ''READY'' ''warp-drive-status''
                          (upd_el ''warpDriveOverlay'' (add_class ''active'') s)))\<lparr>warpMarked := None\<rparr>
                 else s)
        in (upd_el ''warpSearchInput'' (el_value []) s)\<lparr>pointerLocked := False\<rparr>)"

definition closeWarpDrive :: "'a gmstate_scheme \<Rightarrow> 'a gmstate_scheme" where
  "closeWarpDrive s =
     (let s = s\<lparr>warpDriveActive := False, warpResults := []\<rparr>;
          s = upd_el ''warpDriveOverlay'' (remove_class ''active'') s
      in upd_el ''warpSearchInput'' (el_value []) s)"

section \<open>Destinations\<close>

text \<open>A label, an id, the tooltip; the items of the DataSet carry no MAC addresses.\<close>

definition warp_node_matches :: "string \<Rightarrow> 'a gstate_scheme \<Rightarrow> node_item \<Rightarrow> (string \<times> string) list" where
  "warp_node_matches query s node =
     (if i_id node \<noteq> [] \<and> has_query query (i_id node) then [(''IP'', i_id node)] else [])
     @ (if i_label node \<noteq> [] \<and> has_query query (i_label node) then [(''Hostname'', i_label node)] else [])
     @ (if nodeTooltipFor (i_id node) s \<noteq> [] \<and> has_query query (nodeTooltipFor (i_id node) s)
        then [(''Data'', ''Packet data match'')] else [])"

definition warp_known :: "string \<Rightarrow> warp_result list \<Rightarrow> bool" where
  "warp_known k rs = (\<exists>r \<in> set rs. i_id (wr_node r) = k)"

definition add_edge_match :: "string \<Rightarrow> node_item list \<Rightarrow> edge_item \<Rightarrow> warp_result list \<Rightarrow> warp_result list" where
  "add_edge_match query allNodes e rs =
     (if fst (j_protocol e) \<noteq> [] \<and> has_query query (fst (j_protocol e)) then
        (case find (\<lambda>n. i_id n = j_from e) allNodes of
           None \<Rightarrow> rs
         | Some n \<Rightarrow>
             if warp_known (i_id n) rs then rs
             else rs @ [\<lparr> wr_node = n, wr_matches = [(''Protocol'', fst (j_protocol e))] \<rparr>])
      else rs)"

definition warp_matches :: "string \<Rightarrow> 'a gstate_scheme \<Rightarrow> warp_result list" where
  "warp_matches query s =
     (let allNodes = map snd (nodes s);
          byNode = map (\<lambda>n. \<lparr> wr_node = n, wr_matches = warp_node_matches query s n \<rparr>)
                     (filter (\<lambda>n. warp_node_matches query s n \<noteq> []) allNodes)
      in fold (add_edge_match query allNodes) (map snd (edges s)) byNode)"

definition warp_result_html :: "'a gmstate_scheme \<Rightarrow> nat \<Rightarrow> warp_result \<Rightarrow> string" where
  "warp_result_html s i r =
     (let n = wr_node r
      in tag ''div'' [(''class'', ''warp-result-item '' @ (if i = 0 then ''selected'' else [])), (''data-index'', show_nat i)]
           (div_c ''warp-result-hostname'' (or_else (i_label n) (i_id n))
            @ div_c ''warp-result-details''
                (span (''IP: '' @ i_id n) @ span (''Packets: '' @ localeNumber s (metaPacketCount (Some n) s)))
            @ div_c ''warp-result-match'' (join '' | '' (map (\<lambda>(t, v). t @ '': '' @ v) (wr_matches r)))))"

definition renderWarpResults :: "string \<Rightarrow> 'a gmstate_scheme \<Rightarrow> 'a gmstate_scheme" where
  "renderWarpResults query s =
     (if \<not> has_el ''warpDriveResults'' s then s
      else if warpResults s = []
      then (upd_el ''warpDriveResults''
              (el_html (div_c ''warp-no-results'' (''No destinations found for '' @ [CHR 0x22] @ query @ [CHR 0x22]))) s)\<lparr>warpMarked := None\<rparr>
      else (upd_el ''warpDriveResults''
              (el_html (concat (map (\<lambda>(i, r). warp_result_html s i r) (enumerate 0 (warpResults s))))) s)\<lparr>warpMarked := Some 0\<rparr>)"

definition updateWarpSearch :: "string \<Rightarrow> 'a gmstate_scheme \<Rightarrow> 'a gmstate_scheme" where
  "updateWarpSearch query s =
     (if \<not> has_el ''warpDriveResults'' s then s
      else if query = [] then (upd_el ''warpDriveResults'' (el_html warp_hint) s)\<lparr>warpResults := [], warpMarked := None\<rparr>
      else
        let s = s\<lparr>warpResults := take 10 (warp_matches query s), warpSelectedIndex := 0\<rparr>;
            s = renderWarpResults query s
        in if 2 \<le> length query then emit (Ask (GetPayloadSearch query 20)) s else s)"

definition source_node :: "string \<Rightarrow> node_item list \<Rightarrow> node_item option" where
  "source_node src ns = find (\<lambda>n. i_id n = src \<or> src \<in> set (i_ips n)) ns"

definition add_warp_payload :: "node_item list \<Rightarrow> payload_match \<Rightarrow> warp_result list \<times> bool \<Rightarrow> warp_result list \<times> bool" where
  "add_warp_payload allNodes m acc =
     (let (rs, added) = acc
      in case pm_packet m of
           None \<Rightarrow> acc
         | Some p \<Rightarrow>
             (case source_node (p_src p) allNodes of
                None \<Rightarrow> acc
              | Some n \<Rightarrow>
                  let rs = (if warp_known (i_id n) rs then rs else rs @ [\<lparr> wr_node = n, wr_matches = [] \<rparr>]);
                      old = find (\<lambda>r. i_id (wr_node r) = i_id n) rs
                  in if old \<noteq> None \<and> (\<exists>x \<in> set (wr_matches (the old)). fst x = ''Payload'') then (rs, added)
                     else (upd_first (\<lambda>r. i_id (wr_node r) = i_id n)
                             (\<lambda>r. r\<lparr>wr_matches := wr_matches r @ [(''Payload'', quoted (pm_preview m))]\<rparr>) rs, True)))"

definition fetchWarpPayloadMatches_reply :: "string \<Rightarrow> payload_match list reply \<Rightarrow> 'a gmstate_scheme \<Rightarrow> 'a gmstate_scheme" where
  "fetchWarpPayloadMatches_reply query r s =
     (case r of
        Body ms \<Rightarrow>
          if \<not> has_el ''warpSearchInput'' s \<or> value_of ''warpSearchInput'' s \<noteq> query then s
          else
            let (rs, added) = fold (add_warp_payload (map snd (nodes s))) ms (warpResults s, False)
            in if added then renderWarpResults query (s\<lparr>warpResults := take 10 rs\<rparr>) else s\<lparr>warpResults := rs\<rparr>
      | _ \<Rightarrow> s)"

definition updateWarpSelection :: "'a gmstate_scheme \<Rightarrow> 'a gmstate_scheme" where
  "updateWarpSelection s = (if has_el ''warpDriveResults'' s then s\<lparr>warpMarked := Some (warpSelectedIndex s)\<rparr> else s)"

section \<open>Flying there\<close>

definition vadd :: "vec \<Rightarrow> vec \<Rightarrow> vec" where
  "vadd a b = (fst a + fst b, fst (snd a) + fst (snd b), snd (snd a) + snd (snd b))"

definition vscale :: "real \<Rightarrow> vec \<Rightarrow> vec" where
  "vscale k a = (k * fst a, k * fst (snd a), k * snd (snd a))"

definition vsub :: "vec \<Rightarrow> vec \<Rightarrow> vec" where
  "vsub a b = vadd a (vscale (-1) b)"

definition vlength :: "vec \<Rightarrow> real" where
  "vlength a = sqrt (fst a * fst a + fst (snd a) * fst (snd a) + snd (snd a) * snd (snd a))"

text \<open>\<^verbatim>\<open>normalize\<close> divides by the length, or by 1 when it is zero.\<close>

definition vnormalize :: "vec \<Rightarrow> vec" where
  "vnormalize a = vscale (1 / (if vlength a = 0 then 1 else vlength a)) a"

definition vlerp :: "vec \<Rightarrow> vec \<Rightarrow> real \<Rightarrow> vec" where
  "vlerp a b k = vadd a (vscale k (vsub b a))"

definition warp_destination :: "vec \<Rightarrow> vec \<Rightarrow> real \<Rightarrow> vec" where
  "warp_destination from planetPos sz =
     vadd (vadd planetPos (vscale (sz * 3) (vnormalize (vsub from planetPos)))) (0, sz * (1 / 2), 0)"

definition warp_ease :: "real \<Rightarrow> real" where
  "warp_ease p = (if p < 1 / 2 then 4 * p * p * p else 1 - (- 2 * p + 2) ^ 3 / 2)"

definition target_info :: "string \<Rightarrow> (string \<times> string) list \<Rightarrow> string" where
  "target_info title rows =
     tag ''h4'' [] title @ concat (map (\<lambda>(k, v). div_c ''info-item'' (tag ''strong'' [] (k @ '':'') @ '' '' @ v)) rows)"

definition show_planet_info :: "string \<Rightarrow> 'a world_scheme \<Rightarrow> 'a world_scheme" where
  "show_planet_info html s = upd_el ''planetInfoScreen'' (el_html html \<circ> add_class ''show'') s"

definition completeWarp :: "warp_flight \<Rightarrow> 'a gmstate_scheme \<Rightarrow> 'a gmstate_scheme" where
  "completeWarp f s =
     (let n = wf_node f;
          s = upd_el ''warpEffectOverlay'' (remove_class ''active'') s;
          s = s\<lparr>lockedTarget := Some \<lparr> tg_mesh = wf_mesh f, tg_id = i_id n, tg_label = i_label n, tg_packetCount = i_packetCount n \<rparr>\<rparr>;
          s = upd_el ''targetingReticle'' (add_class ''locked'') s;
          s = upd_el ''hud-panel-right'' (add_class ''locked'') s;
          s = show_planet_info (target_info ''DESTINATION REACHED''
                [(''ID'', i_id n), (''HOST'', or_else (i_label n) ''Unknown''), (''PACKETS'', localeNumber s (metaPacketCount (Some n) s))]) s
      in s\<lparr>isWarping := False, currentSpeed := 0\<rparr>)"

text \<open>
  One frame of a flight: the camera is moved and turned, and the flight ends or asks for another frame.
  When the game has been left the camera is gone; the exception ends the flight's callback.
\<close>

definition warp_frame :: "(vec \<Rightarrow> vec \<Rightarrow> real \<times> real) \<Rightarrow> warp_flight \<Rightarrow> 'a gmstate_scheme \<Rightarrow> bool \<times> 'a gmstate_scheme" where
  "warp_frame look f s =
     (if gm_scene s = None then (False, s)
      else
        let progress = min ((now s - wf_start f) / 2000) 1;
            s = s\<lparr>ship := vlerp (wf_from f) (wf_to f) (warp_ease progress)\<rparr>;
            turned = min (progress * (3 / 2)) 1;
            goal = (if turned < 1 then vlerp (vadd (wf_from f) (0, 0, - 1000)) (meshPos s (wf_mesh f)) turned
                    else meshPos s (wf_mesh f));
            s = s\<lparr>lookAngles := look (ship s) goal\<rparr>
        in if progress < 1 then (True, s) else (False, completeWarp f s))"

text \<open>All flights get their frame, in the order they were started.\<close>

definition warp_frames :: "(vec \<Rightarrow> vec \<Rightarrow> real \<times> real) \<Rightarrow> 'a gmstate_scheme \<Rightarrow> 'a gmstate_scheme" where
  "warp_frames look s =
     fold (\<lambda>f s. let (on, s) = warp_frame look f s in if on then s\<lparr>warpFlights := warpFlights s @ [f]\<rparr> else s)
       (warpFlights s) (s\<lparr>warpFlights := []\<rparr>)"

definition initiateWarp ::
    "(vec \<Rightarrow> vec \<Rightarrow> real \<times> real) \<Rightarrow> nat \<Rightarrow> node_item \<Rightarrow> 'a gmstate_scheme \<Rightarrow> 'a gmstate_scheme" where
  "initiateWarp look m n s =
     (let s = s\<lparr>isWarping := True\<rparr>;
          s = warp_status ''ENGAGING'' ''warp-drive-status warping'' s;
          s = s\<lparr>warpCloseTimers := Suc (warpCloseTimers s)\<rparr>;
          s = (if has_el ''warpEffectOverlay'' s
               then upd_el ''warpDestination'' (el_text (or_else (i_label n) (i_id n)))
                      (upd_el ''warpEffectOverlay'' (add_class ''active'') s)
               else s);
          sz = (case map_of (nodeDataMap s) m of Some p \<Rightarrow> pl_size p | None \<Rightarrow> 2000);
          f = \<lparr> wf_mesh = m, wf_node = n, wf_from = ship s, wf_to = warp_destination (ship s) (meshPos s m) sz, wf_start = now s \<rparr>;
          (on, s) = warp_frame look f s
      in if on then s\<lparr>warpFlights := warpFlights s @ [f]\<rparr> else s)"

definition warpClose_fires :: "'a gmstate_scheme \<Rightarrow> 'a gmstate_scheme" where
  "warpClose_fires s = closeWarpDrive (s\<lparr>warpCloseTimers := warpCloseTimers s - 1\<rparr>)"

definition mesh_for :: "string \<Rightarrow> 'a gmstate_scheme \<Rightarrow> nat option" where
  "mesh_for k s = find (\<lambda>m. case map_of (nodeDataMap s) m of None \<Rightarrow> False | Some p \<Rightarrow> pl_id p = k) (nodeMeshes s)"

definition selectWarpDestination ::
    "(vec \<Rightarrow> vec \<Rightarrow> real \<times> real) \<Rightarrow> nat option \<Rightarrow> 'a gmstate_scheme \<Rightarrow> 'a gmstate_scheme" where
  "selectWarpDestination look index s =
     (let i = (case index of None \<Rightarrow> warpSelectedIndex s | Some i \<Rightarrow> i)
      in if length (warpResults s) \<le> i then s
         else
           let n = wr_node (warpResults s ! i)
           in case mesh_for (i_id n) s of
                None \<Rightarrow> closeWarpDrive (emit (Warn ''Could not find planet for node:'') s)
              | Some m \<Rightarrow> initiateWarp look m n s)"

definition handleWarpKeyDown ::
    "(vec \<Rightarrow> vec \<Rightarrow> real \<times> real) \<Rightarrow> string \<Rightarrow> 'a gmstate_scheme \<Rightarrow> bool \<times> 'a gmstate_scheme" where
  "handleWarpKeyDown look key s =
     (let n = length (warpResults s)
      in if \<not> warpDriveActive s then (False, s)
         else if key = ''Escape'' then (True, closeWarpDrive s)
         else if key = ''ArrowDown'' then
           (True, if 0 < n then updateWarpSelection (s\<lparr>warpSelectedIndex := (warpSelectedIndex s + 1) mod n\<rparr>) else s)
         else if key = ''ArrowUp'' then
           (True, if 0 < n then updateWarpSelection (s\<lparr>warpSelectedIndex := (warpSelectedIndex s + n - 1) mod n\<rparr>) else s)
         else if key = ''Enter'' then (True, if 0 < n then selectWarpDestination look None s else s)
         else (False, s))"

section \<open>The list of destinations\<close>

text \<open>A node answers a query by itself, or by the protocol of a link that starts at it.\<close>

definition link_match :: "string \<Rightarrow> 'a gstate_scheme \<Rightarrow> string \<Rightarrow> bool" where
  "link_match query s k = (\<exists>e \<in> snd ` set (edges s). j_from e = k \<and> fst (j_protocol e) \<noteq> [] \<and> has_query query (fst (j_protocol e)))"

lemma add_edge_nodes:
  assumes "distinct (map i_id ns)" and "wr_node ` set rs \<subseteq> set ns"
  shows "wr_node ` set (add_edge_match q ns e rs) = wr_node ` set rs
    \<union> {n \<in> set ns. i_id n = j_from e \<and> fst (j_protocol e) \<noteq> [] \<and> has_query q (fst (j_protocol e))}"
proof (cases "fst (j_protocol e) \<noteq> [] \<and> has_query q (fst (j_protocol e))")
  case True
  have one: "n = n'" if "n \<in> set ns" "n' \<in> set ns" "i_id n = i_id n'" for n n'
    using assms(1) that by (auto simp: distinct_map inj_on_def)
  show ?thesis
  proof (cases "find (\<lambda>n. i_id n = j_from e) ns")
    case None
    then have "add_edge_match q ns e rs = rs" by (simp add: add_edge_match_def)
    moreover have "i_id n \<noteq> j_from e" if "n \<in> set ns" for n using None that by (simp add: find_None_iff)
    ultimately show ?thesis by auto
  next
    case (Some n)
    then have n: "n \<in> set ns" "i_id n = j_from e" by (auto simp: find_Some_iff in_set_conv_nth)
    then have set: "{n' \<in> set ns. i_id n' = j_from e} = {n}" using one by fastforce
    have "warp_known (i_id n) rs \<longleftrightarrow> n \<in> wr_node ` set rs" using assms(2) n(1) one by (fastforce simp: warp_known_def)
    moreover have "wr_node ` set (add_edge_match q ns e rs) = (if warp_known (i_id n) rs then wr_node ` set rs else insert n (wr_node ` set rs))"
      using True Some by (simp add: add_edge_match_def)
    moreover have "{n' \<in> set ns. i_id n' = j_from e \<and> fst (j_protocol e) \<noteq> [] \<and> has_query q (fst (j_protocol e))} = {n}"
      using True set by simp
    ultimately show ?thesis by (auto simp: insert_absorb)
  qed
qed (auto simp: add_edge_match_def)

lemma add_edge_distinct:
  "distinct (map (i_id \<circ> wr_node) rs) \<Longrightarrow> distinct (map (i_id \<circ> wr_node) (add_edge_match q ns e rs))"
  by (auto simp: add_edge_match_def warp_known_def split: option.split)

lemma edge_matches:
  assumes "distinct (map i_id ns)" and "wr_node ` set rs \<subseteq> set ns" and "distinct (map (i_id \<circ> wr_node) rs)"
  shows "distinct (map (i_id \<circ> wr_node) (fold (add_edge_match q ns) es rs))
    \<and> wr_node ` set (fold (add_edge_match q ns) es rs) = wr_node ` set rs
      \<union> {n \<in> set ns. \<exists>e \<in> set es. j_from e = i_id n \<and> fst (j_protocol e) \<noteq> [] \<and> has_query q (fst (j_protocol e))}"
  using assms(2,3)
proof (induction es arbitrary: rs)
  case (Cons e es)
  have "wr_node ` set (add_edge_match q ns e rs) \<subseteq> set ns" using add_edge_nodes [OF assms(1) Cons.prems(1)] Cons.prems(1) by auto
  from Cons.IH [OF this add_edge_distinct [OF Cons.prems(2)]] show ?case
    using add_edge_nodes [OF assms(1) Cons.prems(1), of q e] by auto
qed simp


section \<open>The selected destination\<close>

definition warp_typed :: "string \<Rightarrow> 'a gmstate_scheme \<Rightarrow> 'a gmstate_scheme" where
  "warp_typed q s = updateWarpSearch q (upd_el ''warpSearchInput'' (el_value q) s)"

text \<open>The index points into the list; and it is 0 while a query has found nothing.\<close>

definition selection_ok :: "'a gmstate_scheme \<Rightarrow> bool" where
  "selection_ok s \<longleftrightarrow> length (warpResults s) \<le> 10 \<and> (warpResults s \<noteq> [] \<longrightarrow> warpSelectedIndex s < length (warpResults s))
     \<and> (warpResults s = [] \<longrightarrow> value_of ''warpSearchInput'' s \<noteq> [] \<longrightarrow> warpSelectedIndex s = 0)"

lemma value_upd [simp]: "value_of k (upd_el k' f s) = (if k = k' then (case dom s k of None \<Rightarrow> [] | Some e \<Rightarrow> e_value (f e)) else value_of k s)"
  by (simp add: value_of_def upd_el_def option.map_comp split: option.split)

lemma value_fields [simp]:
  "value_of k (emit ev s) = value_of k s"
  by (simp add: value_of_def emit_def)

lemma warp_upd [simp]:
  "warpResults (upd_el k f s) = warpResults s" "warpSelectedIndex (upd_el k f s) = warpSelectedIndex s"
  "warpMarked (upd_el k f s) = warpMarked s" "warpDriveActive (upd_el k f s) = warpDriveActive s"
  "nodes (upd_el k f s) = nodes s" "gm_scene (upd_el k f s) = gm_scene s" "warpFlights (upd_el k f s) = warpFlights s"
  "nodeMeshes (upd_el k f s) = nodeMeshes s" "nodeDataMap (upd_el k f s) = nodeDataMap s" "ship (upd_el k f s) = ship s"
  "isWarping (upd_el k f s) = isWarping s"
  by (simp_all add: upd_el_def)

lemma render_warp [simp]:
  "warpResults (renderWarpResults q s) = warpResults s" "warpSelectedIndex (renderWarpResults q s) = warpSelectedIndex s"
  "value_of ''warpSearchInput'' (renderWarpResults q s) = value_of ''warpSearchInput'' s"
  by (simp_all add: renderWarpResults_def value_of_def upd_el_def)

lemma warp_payload_grows:
  "length (fst (add_warp_payload ns m acc)) \<ge> length (fst acc)"
proof -
  have "length (upd_first P f rs) = length rs" for P f and rs :: "warp_result list"
    by (induction rs) simp_all
  then show ?thesis by (auto simp: add_warp_payload_def Let_def split: prod.split option.split)
qed

lemma warp_payloads_grow: "length (fst acc) \<le> length (fst (fold (add_warp_payload ns) ms acc))"
proof (induction ms arbitrary: acc)
  case (Cons m ms)
  from warp_payload_grows [of acc ns m] Cons [of "add_warp_payload ns m acc"] show ?case by simp
qed simp

datatype warp_input =
  Typed string
| WarpKey string
| PayloadArrived string "payload_match list reply"
| Reopened
| Closed

fun warp_step :: "(vec \<Rightarrow> vec \<Rightarrow> real \<times> real) \<Rightarrow> warp_input \<Rightarrow> 'a gmstate_scheme \<Rightarrow> 'a gmstate_scheme" where
  "warp_step look (Typed q) s = warp_typed q s"
| "warp_step look (WarpKey k) s = snd (handleWarpKeyDown look k s)"
| "warp_step look (PayloadArrived q r) s = (if 2 \<le> length q then fetchWarpPayloadMatches_reply q r s else s)"
| "warp_step look Reopened s = openWarpDrive s"
| "warp_step look Closed s = closeWarpDrive s"

lemma value_has: "has_el k s \<Longrightarrow> value_of k (upd_el k (el_value v) s) = v"
  by (auto simp: has_el_def el_value_def split: option.split)

lemma selection_typed:
  assumes "selection_ok s" and "has_el ''warpDriveResults'' s" and "has_el ''warpSearchInput'' s"
  shows "selection_ok (warp_typed q s)"
  using assms by (auto simp: selection_ok_def warp_typed_def updateWarpSearch_def Let_def has_el_def emit_def el_value_def value_of_def
      upd_el_def renderWarpResults_def)

lemma find_pushed: "\<forall>x \<in> set xs. \<not> P x \<Longrightarrow> P y \<Longrightarrow> find P (xs @ [y]) = Some y"
  by (induction xs) simp_all

lemma payload_not_added:
  "\<not> snd (add_warp_payload ns m acc) \<Longrightarrow> add_warp_payload ns m acc = acc"
proof -
  obtain rs added where acc: "acc = (rs, added)" by (rule prod.exhaust)
  have "find (\<lambda>r. i_id (wr_node r) = i_id n) (rs @ [\<lparr> wr_node = n, wr_matches = [] \<rparr>]) = Some \<lparr> wr_node = n, wr_matches = [] \<rparr>"
    if "\<not> warp_known (i_id n) rs" for n
    using that by (intro find_pushed) (auto simp: warp_known_def)
  moreover assume "\<not> snd (add_warp_payload ns m acc)"
  ultimately show ?thesis by (auto simp: add_warp_payload_def acc Let_def split: option.splits if_splits)
qed

lemma payloads_not_added:
  "\<not> snd (fold (add_warp_payload ns) ms acc) \<Longrightarrow> fold (add_warp_payload ns) ms acc = acc"
proof (induction ms arbitrary: acc)
  case (Cons m ms)
  have "fold (add_warp_payload ns) ms (add_warp_payload ns m acc) = add_warp_payload ns m acc" using Cons by simp
  then show ?case using Cons.prems payload_not_added [of ns m acc] by simp
qed simp

lemma selection_reply:
  assumes ok: "selection_ok s" and "q \<noteq> []"
  shows "selection_ok (fetchWarpPayloadMatches_reply q r s)"
proof (cases r)
  case (Body ms)
  obtain rs added where f: "fold (add_warp_payload (map snd (nodes s))) ms (warpResults s, False) = (rs, added)" by (rule prod.exhaust)
  have len: "length (warpResults s) \<le> length rs" using warp_payloads_grow [of "(warpResults s, False)" "map snd (nodes s)" ms] f by simp
  show ?thesis
  proof (cases "has_el ''warpSearchInput'' s \<and> value_of ''warpSearchInput'' s = q")
    case True
    have sel: "warpSelectedIndex s < max 1 (length (warpResults s))" "length (warpResults s) \<le> 10"
      using ok True assms(2) by (auto simp: selection_ok_def)
    show ?thesis
    proof (cases added)
      case True
      have "fetchWarpPayloadMatches_reply q r s = renderWarpResults q (s\<lparr>warpResults := take 10 rs\<rparr>)"
        using f \<open>has_el _ s \<and> _\<close> True by (simp add: fetchWarpPayloadMatches_reply_def Body)
      then show ?thesis using sel len assms(2) by (cases rs) (auto simp: selection_ok_def)
    next
      case False
      then have "rs = warpResults s" using payloads_not_added [of "map snd (nodes s)" ms "(warpResults s, False)"] f by simp
      then have "fetchWarpPayloadMatches_reply q r s = s"
        using f \<open>has_el _ s \<and> _\<close> False by (simp add: fetchWarpPayloadMatches_reply_def Body)
      then show ?thesis using ok by simp
    qed
  qed (auto simp: fetchWarpPayloadMatches_reply_def Body ok)
qed (simp_all add: fetchWarpPayloadMatches_reply_def ok)

lemma selection_empty: "warpResults s = [] \<Longrightarrow> warpSelectedIndex s = 0 \<or> value_of ''warpSearchInput'' s = [] \<Longrightarrow> selection_ok s"
  by (auto simp: selection_ok_def)

lemma warp_fields [simp]:
  "warpResults (warp_status t c s) = warpResults s" "warpSelectedIndex (warp_status t c s) = warpSelectedIndex s"
  "value_of ''warpSearchInput'' (warp_status t c s) = value_of ''warpSearchInput'' s"
  by (simp_all add: warp_status_def)

lemma value_cong: "dom s = dom t \<Longrightarrow> value_of k s = value_of k t"
  by (simp add: value_of_def)

lemma closed_empty: "warpResults (closeWarpDrive s) = [] \<and> value_of ''warpSearchInput'' (closeWarpDrive s) = []"
  by (simp add: closeWarpDrive_def Let_def value_of_def upd_el_def el_value_def split: option.split)

lemma opened_selection: "selection_ok s \<Longrightarrow> selection_ok (openWarpDrive s)"
  by (auto simp: openWarpDrive_def Let_def selection_ok_def)

lemma first_frame:
  "warp_frame look \<lparr> wf_mesh = m, wf_node = n, wf_from = p, wf_to = g, wf_start = now s \<rparr> s
   = (if gm_scene s = None then (False, s)
      else (True, s\<lparr>ship := vlerp p g 0, lookAngles := look (vlerp p g 0) (vlerp (vadd p (0, 0, - 1000)) (meshPos s m) 0)\<rparr>))"
  by (simp add: warp_frame_def warp_ease_def Let_def)

lemma now_upd [simp]: "now (upd_el k f s) = now s" "meshPos (upd_el k f s) = meshPos s"
  by (simp_all add: upd_el_def)

lemma initiate_keeps [simp]:
  "warpResults (initiateWarp look m n s) = warpResults s" "warpSelectedIndex (initiateWarp look m n s) = warpSelectedIndex s"
  "warpDriveActive (initiateWarp look m n s) = warpDriveActive s" "nodeMeshes (initiateWarp look m n s) = nodeMeshes s"
  "nodeDataMap (initiateWarp look m n s) = nodeDataMap s" "gm_scene (initiateWarp look m n s) = gm_scene s"
  "value_of ''warpSearchInput'' (initiateWarp look m n s) = value_of ''warpSearchInput'' s"
  by (simp_all add: initiateWarp_def Let_def first_frame warp_status_def) (simp_all add: value_of_def upd_el_def)

lemma initiate_flights:
  assumes "gm_scene s \<noteq> None"
  shows "length (warpFlights (initiateWarp look m n s)) = Suc (length (warpFlights s)) \<and> isWarping (initiateWarp look m n s)"
  using assms by (simp add: initiateWarp_def Let_def first_frame warp_status_def)

lemma selection_key:
  assumes ok: "selection_ok s"
  shows "selection_ok (snd (handleWarpKeyDown look key s))"
proof -
  have mark: "warpResults (updateWarpSelection t) = warpResults t" "warpSelectedIndex (updateWarpSelection t) = warpSelectedIndex t"
      "value_of ''warpSearchInput'' (updateWarpSelection t) = value_of ''warpSearchInput'' t" for t :: "'a gmstate_scheme"
    by (simp_all add: updateWarpSelection_def value_of_def)
  have close: "selection_ok (closeWarpDrive t)" for t :: "'a gmstate_scheme"
    using closed_empty [of t] by (simp add: selection_ok_def)
  have "selection_ok (selectWarpDestination look None s)"
    using ok close by (simp add: selectWarpDestination_def Let_def selection_ok_def split: option.split)
  then show ?thesis using ok close
    by (auto simp: handleWarpKeyDown_def Let_def selection_ok_def mark)
qed

text \<open>The elements of the overlay are there throughout.\<close>

definition overlay_there :: "'a gmstate_scheme \<Rightarrow> bool" where
  "overlay_there s = (has_el ''warpDriveResults'' s \<and> has_el ''warpSearchInput'' s)"

lemma has_upd [simp]: "has_el k (upd_el k' f s) = has_el k s"
  by (simp add: has_el_def upd_el_def)

lemma has_field [simp]:
  "has_el k (renderWarpResults q s) = has_el k s" "has_el k (emit ev s) = has_el k s" "has_el k (warp_status t c s) = has_el k s"
  by (simp_all add: renderWarpResults_def has_el_def upd_el_def emit_def warp_status_def)

lemma has_dom: "dom s = dom t \<Longrightarrow> has_el k s = has_el k t"
  by (simp add: has_el_def)

lemma has_close [simp]: "has_el k (closeWarpDrive s) = has_el k s"
  by (simp add: closeWarpDrive_def Let_def) (simp add: has_el_def)

lemma has_open [simp]: "has_el k (openWarpDrive s) = has_el k s"
  by (simp add: openWarpDrive_def Let_def has_el_def upd_el_def warp_status_def)

lemma has_typed [simp]: "has_el k (warp_typed q s) = has_el k s"
  by (simp add: warp_typed_def updateWarpSearch_def Let_def has_el_def upd_el_def emit_def renderWarpResults_def)

lemma has_reply [simp]: "has_el k (fetchWarpPayloadMatches_reply q r s) = has_el k s"
  by (simp add: fetchWarpPayloadMatches_reply_def Let_def split: reply.split prod.split) (simp add: has_el_def)

lemma has_initiate [simp]: "has_el k (initiateWarp look m n s) = has_el k s"
  by (simp add: initiateWarp_def Let_def first_frame warp_status_def) (simp add: has_el_def upd_el_def)

lemma has_key [simp]: "has_el k (snd (handleWarpKeyDown look key s)) = has_el k s"
  by (simp add: handleWarpKeyDown_def selectWarpDestination_def updateWarpSelection_def Let_def split: option.split)
    (simp add: has_el_def)

lemma overlay_step: "overlay_there s \<Longrightarrow> overlay_there (warp_step look i s)"
  by (cases i) (simp_all add: overlay_there_def)

lemma selection_step: "selection_ok s \<Longrightarrow> overlay_there s \<Longrightarrow> selection_ok (warp_step look i s)"
proof (cases i)
  case (Typed q)
  assume "selection_ok s" "overlay_there s"
  then show ?thesis using selection_typed [of s q] by (simp add: Typed overlay_there_def)
next
  case (PayloadArrived q r)
  assume "selection_ok s"
  then show ?thesis using selection_reply [of s q r] by (cases q) (auto simp: PayloadArrived)
next
  case Closed
  show ?thesis using closed_empty [of s] by (simp add: Closed selection_ok_def)
qed (simp_all add: selection_key opened_selection)

text \<open>
  C31: whatever is typed, whichever keys are pressed and whenever the replies of the payload search arrive,
  the selected index points into the list of destinations, which holds at most ten.
\<close>

theorem warp_selection_valid:
  fixes look :: "vec \<Rightarrow> vec \<Rightarrow> real \<times> real" and "is" :: "warp_input list"
  assumes "selection_ok s" and "overlay_there s"
  defines "s' \<equiv> fold (warp_step look) is s"
  shows "length (warpResults s') \<le> 10 \<and> (warpResults s' \<noteq> [] \<longrightarrow> warpSelectedIndex s' < length (warpResults s'))"
proof -
  have "selection_ok (fold (warp_step look) is s) \<and> overlay_there (fold (warp_step look) is s)"
    using assms(1,2) by (induction "is" arbitrary: s) (simp_all add: selection_step overlay_step)
  then show ?thesis by (simp add: s'_def selection_ok_def)
qed

lemma render_marks: "has_el ''warpDriveResults'' s \<Longrightarrow> warpResults s \<noteq> [] \<Longrightarrow> warpMarked (renderWarpResults q s) = Some 0"
  by (simp add: renderWarpResults_def)


section \<open>The flight\<close>

lemma lerp_end: "vlerp a b 1 = b"
  by (simp add: vlerp_def vadd_def vsub_def vscale_def)

lemma ease_end: "warp_ease 1 = 1"
  by (simp add: warp_ease_def)

lemma warp_ease_range:
  assumes "0 \<le> p" and "p \<le> 1"
  shows "0 \<le> warp_ease p \<and> warp_ease p \<le> 1"
proof (cases "p < 1 / 2")
  case True
  have "p * p \<le> 1 / 2 * (1 / 2)" using True assms(1) by (intro mult_mono) simp_all
  then have "p * p * p \<le> 1 / 4 * (1 / 2)" using True assms(1) by (intro mult_mono) simp_all
  then show ?thesis using True assms by (simp add: warp_ease_def)
next
  case False
  then have "0 \<le> - 2 * p + 2" "- 2 * p + 2 \<le> 1" using assms by simp_all
  then have "0 \<le> (- 2 * p + 2) ^ 3" "(- 2 * p + 2) ^ 3 \<le> 1" by (simp_all add: power_le_one)
  then show ?thesis using False by (simp add: warp_ease_def)
qed

text \<open>
  Lemma: the flight keeps the camera between its start and its destination, and its first frame after two
  seconds puts it there, locks the target, and lets the warp drive be opened again.
\<close>

theorem warp_arrives:
  fixes look :: "vec \<Rightarrow> vec \<Rightarrow> real \<times> real"
  assumes "warpFlights s = [f]" and "gm_scene s \<noteq> None" and "wf_start f \<le> now s"
  defines "s' \<equiv> warp_frames look s"
  shows "(\<exists>k. 0 \<le> k \<and> k \<le> 1 \<and> ship s' = vlerp (wf_from f) (wf_to f) k)
    \<and> (now s < wf_start f + 2000 \<longrightarrow> warpFlights s' = [f])
    \<and> (wf_start f + 2000 \<le> now s \<longrightarrow> warpFlights s' = [] \<and> ship s' = wf_to f \<and> \<not> isWarping s'
         \<and> map_option tg_id (lockedTarget s') = Some (i_id (wf_node f)))"
proof (cases "now s < wf_start f + 2000")
  case True
  let ?p = "(now s - wf_start f) / 2000"
  have p: "0 \<le> ?p" "?p < 1" using True assms(3) by simp_all
  then have m: "min ?p 1 = ?p" by simp
  have "ship s' = vlerp (wf_from f) (wf_to f) (warp_ease ?p) \<and> warpFlights s' = [f]"
    using assms(1,2) p by (simp add: s'_def warp_frames_def warp_frame_def Let_def m del: divide_less_eq_1_pos)
  then show ?thesis using True warp_ease_range [of ?p] p by auto
next
  case False
  then have m: "min ((now s - wf_start f) / 2000) 1 = 1" by simp
  obtain y where scene: "gm_scene s = Some y" using assms(2) by blast
  have "ship s' = wf_to f \<and> warpFlights s' = [] \<and> \<not> isWarping s' \<and> map_option tg_id (lockedTarget s') = Some (i_id (wf_node f))"
    using assms(1) scene by (simp add: s'_def warp_frames_def warp_frame_def Let_def m ease_end lerp_end completeWarp_def show_planet_info_def upd_el_def)
  then show ?thesis using False lerp_end [of "wf_from f" "wf_to f"] by (intro conjI) (auto intro!: exI [of _ 1])
qed

text \<open>
  Lemma: Enter is not held back while a flight is under way: pressed twice before the overlay closes it starts
  two flights, which then move the camera in the same frames.
\<close>

theorem two_warps_at_once:
  fixes look :: "vec \<Rightarrow> vec \<Rightarrow> real \<times> real" and s :: "'a gmstate_scheme"
  assumes "warpDriveActive s" and "gm_scene s \<noteq> None" and "warpSelectedIndex s < length (warpResults s)"
    and "mesh_for (i_id (wr_node (warpResults s ! warpSelectedIndex s))) s = Some m" and "warpFlights s = []"
  defines "press \<equiv> \<lambda>t. snd (handleWarpKeyDown look ''Enter'' t)"
  shows "length (warpFlights (press (press s))) = 2"
proof -
  have mesh: "mesh_for k (initiateWarp look m n t) = mesh_for k t" for k n and t :: "'a gmstate_scheme" by (simp add: mesh_for_def)
  let ?n = "wr_node (warpResults s ! warpSelectedIndex s)"
  have step: "press t = initiateWarp look m ?n t"
    if "warpDriveActive t" "warpSelectedIndex t = warpSelectedIndex s" "warpResults t = warpResults s" "mesh_for (i_id ?n) t = Some m"
    for t :: "'a gmstate_scheme"
    using assms(3) that by (cases "warpResults s") (simp_all add: press_def handleWarpKeyDown_def selectWarpDestination_def Let_def)
  have "press s = initiateWarp look m ?n s" using assms(1,4) by (intro step) simp_all
  moreover have "press (initiateWarp look m ?n s) = initiateWarp look m ?n (initiateWarp look m ?n s)"
    using assms(1,4) by (intro step) (simp_all add: mesh)
  ultimately have "press (press s) = initiateWarp look m ?n (initiateWarp look m ?n s)" by simp
  moreover have "length (warpFlights (initiateWarp look m ?n (initiateWarp look m ?n s))) = 2"
    using initiate_flights [of s look m ?n] initiate_flights [of "initiateWarp look m ?n s" look m ?n] assms(2,5) by simp
  ultimately show ?thesis by simp
qed

end
