(* ===== verification/Cockpit.thy ===== *)
theory Cockpit
  imports Warp SearchSpec
begin

text \<open>
  Playing the game mode (\<^verbatim>\<open>static/app.js\<close>): entering and leaving it, keys, steering, the lock on the
  nearest planet, the laser and the terminal that types out a stream.  What the scene library computes (the
  projection to the screen, the rotation of a vector, the angles of an orientation) are arguments.
\<close>

section \<open>Entering and leaving\<close>

definition no_keys :: "'a gmstate_scheme \<Rightarrow> 'a gmstate_scheme" where
  "no_keys s = s\<lparr>moveForward := False, moveBackward := False, moveLeft := False, moveRight := False, moveUp := False,
     moveDown := False, boosting := False, currentSpeed := 0, lookAngles := (0, 0), lockedTarget := None\<rparr>"

definition initGameScene :: "(string \<Rightarrow> nat \<Rightarrow> real) \<Rightarrow> 'a gmstate_scheme \<Rightarrow> 'a gmstate_scheme" where
  "initGameScene rnd s =
     (let s = s\<lparr>gm_scene := Some (gm_scenes s), gm_scenes := Suc (gm_scenes s), ship := (0, 5000, 35000)\<rparr>;
          s = upd_el ''cockpitHud'' (el_style ''display'' ''block'') s;
          s = upd_el ''targetingReticle'' (el_style ''display'' ''block'') s;
          s = upd_el ''crosshair'' (el_style ''display'' ''block'') s;
          s = s\<lparr>asteroidMesh := True\<rparr>
      in updateGameHUD (initBurstPool (createSpaceElevators rnd (createNodeSpheres s))))"

definition enterGameMode :: "(string \<Rightarrow> nat \<Rightarrow> real) \<Rightarrow> 'a gmstate_scheme \<Rightarrow> 'a gmstate_scheme" where
  "enterGameMode rnd s =
     (let s = s\<lparr>gm_active := True\<rparr>;
          s = upd_el ''gameModeContainer'' (el_style ''display'' ''block'') s;
          s = upd_el ''gameModeToggle'' (add_class ''game-active'') s;
          s = initGameScene rnd (no_keys s)
      in s\<lparr>gm_listening := True, pointerLocked := True\<rparr>)"

text \<open>
  Leaving takes the scene down, forgets it, and then takes down what was made last: at that point the scene
  is already gone, and removing the asteroids or the points of the burst pool from it raises an exception.
\<close>

datatype outcome = Returned | Threw

definition leave_scene :: "'a gmstate_scheme \<Rightarrow> 'a gmstate_scheme" where
  "leave_scene s =
     (let s = s\<lparr>gm_active := False\<rparr>;
          s = upd_el ''gameModeContainer'' (el_style ''display'' ''none'') s;
          s = upd_el ''gameModeToggle'' (remove_class ''game-active'') s
      in s\<lparr>spaceElevators := [], nodeMeshes := [], nodeDataMap := [], nodeIdToMesh := [], gm_scene := None\<rparr>)"

definition leave_rest :: "'a gmstate_scheme \<Rightarrow> 'a gmstate_scheme" where
  "leave_rest s =
     (let s = s\<lparr>trafficBursts := [], trafficEvents := [], planetPulses := [], elevatorEdgeMap := [], lastElevatorEdgeHash := []\<rparr>;
          s = (no_keys s)\<lparr>laserCooldown := False, autoLockPosition := None\<rparr>;
          s = (if warpDriveActive s then closeWarpDrive s else s);
          s = s\<lparr>isWarping := False\<rparr>;
          s = upd_el ''cockpitHud'' (el_style ''display'' ''none'') s;
          s = upd_el ''targetingReticle'' (el_style ''display'' ''none'') s;
          s = upd_el ''crosshair'' (el_style ''display'' ''none'') s
      in s\<lparr>pointerLocked := False, gm_listening := False\<rparr>)"

definition leaveGameMode :: "'a gmstate_scheme \<Rightarrow> outcome \<times> 'a gmstate_scheme" where
  "leaveGameMode s =
     (let s = leave_scene s
      in if asteroidMesh s then (Threw, s)
         else
           let s = s\<lparr>warpResults := [], warpSelectedIndex := 0\<rparr>
           in if burstPool s \<noteq> None then (Threw, s) else (Returned, leave_rest s))"

definition toggleGameMode :: "(string \<Rightarrow> nat \<Rightarrow> real) \<Rightarrow> 'a gmstate_scheme \<Rightarrow> outcome \<times> 'a gmstate_scheme" where
  "toggleGameMode rnd s =
     (if \<not> chimpyEnabled s then (Returned, s)
      else if gm_active s then leaveGameMode s
      else (Returned, enterGameMode rnd s))"

section \<open>Keys\<close>

definition set_key :: "string \<Rightarrow> bool \<Rightarrow> 'a gmstate_scheme \<Rightarrow> 'a gmstate_scheme" where
  "set_key c on s =
     (if c = ''KeyW'' then s\<lparr>moveForward := on\<rparr>
      else if c = ''KeyS'' then s\<lparr>moveBackward := on\<rparr>
      else if c = ''KeyA'' then s\<lparr>moveLeft := on\<rparr>
      else if c = ''KeyD'' then s\<lparr>moveRight := on\<rparr>
      else if c = ''Space'' then s\<lparr>moveUp := on\<rparr>
      else if c \<in> {''ControlLeft'', ''ControlRight'', ''KeyC''} then s\<lparr>moveDown := on\<rparr>
      else if c \<in> {''ShiftLeft'', ''ShiftRight''} then s\<lparr>boosting := on\<rparr>
      else s)"

definition handleGameKeyDown ::
    "(string \<Rightarrow> nat \<Rightarrow> real) \<Rightarrow> (vec \<Rightarrow> vec \<Rightarrow> real \<times> real) \<Rightarrow> string \<Rightarrow> string \<Rightarrow> 'a gmstate_scheme \<Rightarrow> outcome \<times> 'a gmstate_scheme" where
  "handleGameKeyDown rnd look key c s =
     (if \<not> gm_active s then (Returned, s)
      else
        let (done, s) = handleWarpKeyDown look key s
        in if done then (Returned, s)
           else if key = ''/'' \<and> \<not> warpDriveActive s \<and> \<not> isWarping s then (Returned, openWarpDrive s)
           else if c = ''Escape'' then (if warpDriveActive s then (Returned, closeWarpDrive s) else toggleGameMode rnd s)
           else (Returned, set_key c True s))"

definition handleGameKeyUp :: "string \<Rightarrow> 'a gmstate_scheme \<Rightarrow> 'a gmstate_scheme" where
  "handleGameKeyUp c s = (if gm_active s then set_key c False s else s)"

text \<open>\<open>readback\<close> gives the angles the library reads from the camera's orientation.\<close>

definition handleGameMouseMove :: "(real \<times> real \<Rightarrow> real \<times> real) \<Rightarrow> real \<times> real \<Rightarrow> 'a gmstate_scheme \<Rightarrow> 'a gmstate_scheme" where
  "handleGameMouseMove readback d s =
     (if \<not> gm_active s \<or> \<not> pointerLocked s then s
      else
        let (pitch, yaw) = readback (lookAngles s);
            yaw = yaw - fst d * (2 / 1000); pitch = pitch - snd d * (2 / 1000)
        in s\<lparr>lookAngles := (max (- (pi / 2)) (min (pi / 2) pitch), yaw)\<rparr>)"

section \<open>Steering\<close>

definition max_speed :: "'a gmstate_scheme \<Rightarrow> real" where
  "max_speed s = (if boosting s then 400 else 150)"

definition thrust :: "'a gmstate_scheme \<Rightarrow> real" where
  "thrust s = (if moveBackward s then max_speed s * (1 / 2) else if moveForward s then - max_speed s else 0)"

definition speed_step :: "real \<Rightarrow> real \<Rightarrow> real" where
  "speed_step target v =
     (if target \<noteq> 0 then v + (target - v) * (2 / 100)
      else let v = v * (1 - 15 / 1000) in if \<bar>v\<bar> < 1 / 2 then 0 else v)"

definition strafe :: "'a gmstate_scheme \<Rightarrow> real \<times> real" where
  "strafe s =
     ((if moveLeft s then - (max_speed s * (3 / 10)) else 0) + (if moveRight s then max_speed s * (3 / 10) else 0),
      (if moveUp s then max_speed s * (2 / 10) else 0) - (if moveDown s then max_speed s * (2 / 10) else 0))"

definition fly :: "(real \<times> real \<Rightarrow> vec \<Rightarrow> vec) \<Rightarrow> 'a gmstate_scheme \<Rightarrow> 'a gmstate_scheme" where
  "fly turn s =
     (let v = speed_step (thrust s) (currentSpeed s)
      in s\<lparr>currentSpeed := v, ship := vadd (ship s) (turn (lookAngles s) (fst (strafe s), snd (strafe s), v))\<rparr>)"

definition set_class :: "string \<Rightarrow> bool \<Rightarrow> string \<Rightarrow> 'a world_scheme \<Rightarrow> 'a world_scheme" where
  "set_class c on k s = upd_el k (force_class c on) s"

definition updateSpeedEffects :: "'a gmstate_scheme \<Rightarrow> 'a gmstate_scheme" where
  "updateSpeedEffects s =
     (let v = \<bar>currentSpeed s\<bar>; percent = min (v / max_speed s * 100) 100; hot = boosting s \<and> 100 < v; back = 0 < currentSpeed s;
          s = upd_el ''speedFill'' (el_style ''width'' (numberText s percent @ ''%'')) s;
          s = upd_el ''speedFill'' (el_style ''background''
                (if hot then ''linear-gradient(90deg, rgba(255, 100, 50, 0.8), rgba(255, 200, 50, 1), rgba(255, 255, 150, 1))'' else [])) s;
          s = upd_el ''speedFill'' (el_style ''boxShadow''
                (if hot then ''0 0 15px rgba(255, 150, 50, 0.8), inset 0 0 5px rgba(255, 255, 255, 0.5)'' else [])) s;
          s = upd_el ''speedValue'' (el_text (show_int \<lfloor>v + 1 / 2\<rfloor>)) s;
          s = set_class ''reverse'' back ''warpTunnel'' (set_class ''reverse'' back ''speedLines'' (set_class ''reverse'' back ''speedFill'' s));
          s = set_class ''active'' (50 < v) ''speedLines'' (s\<lparr>speedLinesActive := (50 < v)\<rparr>)
      in set_class ''active'' (200 < v \<or> hot) ''warpTunnel'' s)"

definition move_planet :: "nat \<Rightarrow> 'a gmstate_scheme \<Rightarrow> 'a gmstate_scheme" where
  "move_planet m s =
     (case map_of (nodeDataMap s) m of
        None \<Rightarrow> s
      | Some p \<Rightarrow>
          let a = pl_orbitAngle p + pl_orbitSpeed p; (x, y, z) = meshPos s m
          in s\<lparr>nodeDataMap := AList.update m (p\<lparr>pl_orbitAngle := a\<rparr>) (nodeDataMap s),
               meshPos := (meshPos s)(m := (cos a * pl_orbitRadius p, y + sin (a * 2) * pl_orbitTilt p * (1 / 2), sin a * pl_orbitRadius p))\<rparr>)"

section \<open>The lock on the nearest planet\<close>

definition screen_pos :: "real \<times> real \<Rightarrow> vec \<Rightarrow> real \<times> real" where
  "screen_pos view v = ((fst v * (1 / 2) + 1 / 2) * fst view, (- (fst (snd v) * (1 / 2)) + 1 / 2) * snd view)"

definition centre_dist :: "real \<times> real \<Rightarrow> real \<times> real \<Rightarrow> real" where
  "centre_dist view p =
     sqrt ((fst p - fst view / 2) * (fst p - fst view / 2) + (snd p - snd view / 2) * (snd p - snd view / 2))"

text \<open>A planet in front of the camera and within 300 pixels of the centre, with its place on the screen.\<close>

definition lock_candidate :: "(vec \<Rightarrow> vec) \<Rightarrow> 'a gmstate_scheme \<Rightarrow> nat \<Rightarrow> (planet \<times> (real \<times> real) \<times> real) option" where
  "lock_candidate project s m =
     (case map_of (nodeDataMap s) m of
        None \<Rightarrow> None
      | Some p \<Rightarrow>
          let v = project (meshPos s m); xy = screen_pos (viewSize s) v; d = centre_dist (viewSize s) xy
          in if 1 < snd (snd v) \<or> 300 \<le> d then None else Some (p, xy, d))"

definition lock_closer :: "(vec \<Rightarrow> vec) \<Rightarrow> 'a gmstate_scheme \<Rightarrow> nat \<Rightarrow> (nat \<times> planet \<times> (real \<times> real) \<times> real) option
    \<Rightarrow> (nat \<times> planet \<times> (real \<times> real) \<times> real) option" where
  "lock_closer project s m best =
     (case lock_candidate project s m of
        None \<Rightarrow> best
      | Some (p, xy, d) \<Rightarrow>
          (case best of
             None \<Rightarrow> Some (m, p, xy, d)
           | Some (_, _, _, bd) \<Rightarrow> if d < bd then Some (m, p, xy, d) else best))"

definition nearest_planet :: "(vec \<Rightarrow> vec) \<Rightarrow> 'a gmstate_scheme \<Rightarrow> (nat \<times> planet \<times> (real \<times> real) \<times> real) option" where
  "nearest_planet project s = fold (lock_closer project s) (nodeMeshes s) None"

definition show_lock :: "planet \<Rightarrow> real \<times> real \<Rightarrow> 'a gmstate_scheme \<Rightarrow> 'a gmstate_scheme" where
  "show_lock p xy s =
     (let s = upd_el ''targetingReticle'' (el_style ''left'' (numberText s (fst xy) @ ''px'') \<circ> el_style ''top'' (numberText s (snd xy) @ ''px'')
                \<circ> el_style ''transform'' ''translate(-50%, -50%)'' \<circ> add_class ''locked'') s;
          s = upd_el ''hud-panel-right'' (add_class ''locked'') s;
          s = upd_el ''targetIp'' (el_text (pl_id p)) s;
          s = upd_el ''targetPackets'' (el_text (localeNumber s (pl_packetCount p))) s;
          s = upd_el ''planetHostnameLabel'' (el_style ''left'' (numberText s (fst xy) @ ''px'')
                \<circ> el_style ''top'' (numberText s (snd xy - 50) @ ''px'') \<circ> add_class ''visible'' \<circ> add_class ''locked'') s;
          host = or_else (pl_label p) (pl_id p);
          s = upd_el ''hostnameText'' (el_text host) s
      in upd_el ''hostnameIp'' (el_text (if pl_id p = host then [] else pl_id p)) s)"

definition show_no_lock :: "'a gmstate_scheme \<Rightarrow> 'a gmstate_scheme" where
  "show_no_lock s =
     (let s = upd_el ''targetingReticle'' (el_style ''left'' ''50%'' \<circ> el_style ''top'' ''50%''
                \<circ> el_style ''transform'' ''translate(-50%, -50%)'' \<circ> remove_class ''locked'') s;
          s = upd_el ''hud-panel-right'' (remove_class ''locked'') s;
          s = upd_el ''targetIp'' (el_text ''---'') s;
          s = upd_el ''targetPackets'' (el_text ''---'') s
      in upd_el ''planetHostnameLabel'' (remove_class ''locked'' \<circ> remove_class ''visible'') s)"

definition autoLock :: "(vec \<Rightarrow> vec) \<Rightarrow> 'a gmstate_scheme \<Rightarrow> 'a gmstate_scheme" where
  "autoLock project s =
     (case nearest_planet project s of
        Some (m, p, xy, _) \<Rightarrow>
          show_lock p xy (s\<lparr>lockedTarget := Some \<lparr> tg_mesh = m, tg_id = pl_id p, tg_label = pl_label p, tg_packetCount = pl_packetCount p \<rparr>,
                            autoLockPosition := Some xy\<rparr>)
      | None \<Rightarrow>
          show_no_lock (s\<lparr>lockedTarget := None, autoLockPosition := Some (fst (viewSize s) / 2, snd (viewSize s) / 2)\<rparr>))"

text \<open>A frame of the game, without the movements that are only drawn.\<close>

definition animateGameScene ::
    "(real \<times> real \<Rightarrow> vec \<Rightarrow> vec) \<Rightarrow> (nat \<Rightarrow> real \<times> real) \<Rightarrow> (vec \<Rightarrow> vec) \<Rightarrow> 'a gmstate_scheme \<Rightarrow> 'a gmstate_scheme" where
  "animateGameScene turn rnd project s =
     (if \<not> gm_active s then s
      else
        let s = updateSpeedEffects (fly turn s);
            s = fold move_planet (nodeMeshes s) s
        in autoLock project (traffic_frame rnd s))"

definition handleGameResize :: "real \<times> real \<Rightarrow> 'a gmstate_scheme \<Rightarrow> 'a gmstate_scheme" where
  "handleGameResize view s = (if gm_active s \<and> gm_scene s \<noteq> None then s\<lparr>viewSize := view\<rparr> else s)"

section \<open>The laser and the terminal\<close>

definition terminal_status :: "string \<Rightarrow> string \<Rightarrow> 'a world_scheme \<Rightarrow> 'a world_scheme" where
  "terminal_status t cls s =
     upd_el ''streamTerminalStatus'' ((\<lambda>e. e\<lparr>e_classes := insert ''stream-terminal-status'' (set (split_on (CHR '' '') cls))\<rparr>) \<circ> el_text t) s"

definition displayRandomStream :: "'a gmstate_scheme \<Rightarrow> 'a gmstate_scheme" where
  "displayRandomStream s =
     (if \<not> has_el ''streamTerminal'' s \<or> \<not> has_el ''streamTerminalContent'' s then s
      else
        let s = upd_el ''streamTerminal'' (el_style ''display'' ''block'') s;
            s = upd_el ''streamTerminalContent'' (el_html (span_c ''stream-cursor'' ''_'')) s;
            s = terminal_status ''CONNECTING...'' ''connecting'' s
        in emit (Ask (GetStreams [])) s)"

definition terminal_error :: "string \<Rightarrow> 'a gmstate_scheme \<Rightarrow> 'a gmstate_scheme" where
  "terminal_error msg s =
     terminal_status ''ERROR'' ''error''
       (upd_el ''streamTerminalContent'' (el_html (span_c ''stream-error'' (''ERROR: '' @ msg))) s)"

text \<open>
  The code reads the ports as \<^verbatim>\<open>src_port\<close> and \<^verbatim>\<open>dst_port\<close>, which the records of the server do not
  have, so both are always unknown.  \<open>pick\<close> is the number drawn; \<open>failure\<close> the message of an exception.
\<close>

definition stream_title :: string where
  "stream_title = ''// TCP STREAM [? '' @ arrow_right @ '' ?]''"

definition displayRandomStream_streams :: "nat \<Rightarrow> string \<Rightarrow> stream_info list reply \<Rightarrow> 'a gmstate_scheme \<Rightarrow> 'a gmstate_scheme" where
  "displayRandomStream_streams pick failure r s =
     (case r of
        Broken \<Rightarrow> terminal_error failure s
      | Refused _ \<Rightarrow> terminal_error ''Failed to fetch streams'' s
      | Body [] \<Rightarrow>
          upd_el ''streamTerminalStatus'' (el_text ''NO DATA'')
            (upd_el ''streamTerminalContent'' (el_html (span_c ''stream-error'' ''NO STREAMS AVAILABLE'')) s)
      | Body streams \<Rightarrow>
          let st = streams ! (pick mod length streams);
              s = upd_el ''streamTerminalTitle'' (el_text stream_title) s;
              s = terminal_status ''STREAMING'' ''active'' s
          in emit (Ask (GetStream (st_id st))) s)"

definition typed_char :: "char \<Rightarrow> string" where
  "typed_char c =
     (if [c] = newline then open_tag ''br'' []
      else if c = CHR '' '' then utf8 [194, 160]
      else span_c ''stream-char'' (esc_char c))"

text \<open>One call of \<^verbatim>\<open>displayStreamText\<close>: the next index, or none when it has finished.\<close>

definition displayStreamText :: "string \<Rightarrow> nat \<Rightarrow> 'a gmstate_scheme \<Rightarrow> nat option \<times> 'a gmstate_scheme" where
  "displayStreamText txt i s =
     (if length txt \<le> i \<or> 2000 \<le> i
      then (None, terminal_status ''COMPLETE'' ''complete'' (upd_el ''streamTerminalContent'' (el_append (span_c ''stream-cursor'' ''_'')) s))
      else (Some (i + 1), upd_el ''streamTerminalContent'' (el_append (typed_char (txt ! i))) s))"

text \<open>
  Neither \<^verbatim>\<open>data\<close> nor \<^verbatim>\<open>content\<close> is a field of the server's record, so what is typed is its JSON
  text, which \<open>stringify\<close> stands for.
\<close>

definition displayRandomStream_content ::
    "(stream_data \<Rightarrow> string) \<Rightarrow> string \<Rightarrow> stream_data reply \<Rightarrow> 'a gmstate_scheme \<Rightarrow> (string \<times> nat) option \<times> 'a gmstate_scheme" where
  "displayRandomStream_content stringify failure r s =
     (case r of
        Broken \<Rightarrow> (None, terminal_error failure s)
      | Refused _ \<Rightarrow> (None, terminal_error ''Failed to fetch stream content'' s)
      | Body d \<Rightarrow>
          let txt = stringify d; (next, s) = displayStreamText txt 0 (upd_el ''streamTerminalContent'' (el_html []) s)
          in (map_option (Pair txt) next, s))"

definition fireLaser :: "'a gmstate_scheme \<Rightarrow> 'a gmstate_scheme" where
  "fireLaser s =
     (if laserCooldown s then s
      else
        let s = s\<lparr>laserCooldown := True\<rparr>
        in case lockedTarget s of
             None \<Rightarrow> s
           | Some t \<Rightarrow>
               let bytes = (case map_of (nodeMeta s) (tg_id t) of Some m \<Rightarrow> if v_byteCount m = 0 then [] else formatBytes (v_byteCount m) | None \<Rightarrow> []);
                   s = s\<lparr>meshGlow := (meshGlow s)(tg_mesh t := 1)\<rparr>;
                   s = show_planet_info (target_info ''PLANET SCAN''
                         [(''ID'', tg_id t), (''HOST'', or_else (tg_label t) ''Unknown''),
                          (''PACKETS'', localeNumber s (tg_packetCount t)), (''BYTES'', or_else bytes ''N/A'')]) s
               in displayRandomStream s)"

definition laserTimer_fires :: "'a gmstate_scheme \<Rightarrow> 'a gmstate_scheme" where
  "laserTimer_fires s = s\<lparr>laserCooldown := False\<rparr>"

definition handleGameClick :: "'a gmstate_scheme \<Rightarrow> 'a gmstate_scheme" where
  "handleGameClick s =
     (if \<not> gm_active s \<or> laserCooldown s then s
      else if \<not> pointerLocked s then s\<lparr>pointerLocked := True\<rparr>
      else fireLaser s)"

section \<open>Speed\<close>

lemma speed_bound:
  assumes "\<bar>v\<bar> \<le> 400" and "\<bar>target\<bar> \<le> 400"
  shows "\<bar>speed_step target v\<bar> \<le> 400"
proof (cases "target = 0")
  case True
  then show ?thesis using assms(1) by (auto simp: speed_step_def Let_def abs_mult)
next
  case False
  then have "speed_step target v = v * (98 / 100) + target * (2 / 100)" by (simp add: speed_step_def field_simps)
  then show ?thesis using assms unfolding abs_le_iff by linarith
qed

lemma thrust_bound: "\<bar>thrust s\<bar> \<le> 400"
  by (simp add: thrust_def max_speed_def)

text \<open>Lemma: the ship never goes faster than its boosted cruising speed.\<close>

theorem ship_speed_bounded: "\<bar>currentSpeed s\<bar> \<le> 400 \<Longrightarrow> \<bar>currentSpeed (fly turn s)\<bar> \<le> 400"
  by (simp add: fly_def Let_def speed_bound thrust_bound)

lemma coasting: "speed_step 0 v = 0 \<or> \<bar>speed_step 0 v\<bar> = \<bar>v\<bar> * (1 - 15 / 1000) \<and> 1 / 2 \<le> \<bar>speed_step 0 v\<bar>"
  by (simp add: speed_step_def Let_def abs_mult)

lemma coast_run:
  "(speed_step 0 ^^ n) v = 0 \<or> \<bar>(speed_step 0 ^^ n) v\<bar> = \<bar>v\<bar> * (1 - 15 / 1000) ^ n \<and> (0 < n \<longrightarrow> 1 / 2 \<le> \<bar>(speed_step 0 ^^ n) v\<bar>)"
proof (induction n)
  case (Suc n)
  have "speed_step 0 0 = 0" by (simp add: speed_step_def)
  then show ?case using Suc coasting [of "(speed_step 0 ^^ n) v"] by auto
qed simp

lemma slow_power: "460 \<le> n \<Longrightarrow> 400 * (1 - 15 / 1000 :: real) ^ n < 1 / 2"
proof -
  assume "460 \<le> n"
  then have "(1 - 15 / 1000 :: real) ^ n \<le> (1 - 15 / 1000) ^ (46 * 10)" by (intro power_decreasing) simp_all
  also have "\<dots> = ((1 - 15 / 1000) ^ 46) ^ 10" by (rule power_mult)
  also have "\<dots> \<le> (1 / 2 :: real) ^ 10" by (intro power_mono) (simp_all add: power_divide)
  also have "\<dots> < 1 / 800" by (simp add: power_divide)
  finally show ?thesis by simp
qed

text \<open>Lemma: with no thrust the ship stands still within 460 frames, from any speed it can have.\<close>

theorem ship_comes_to_rest:
  assumes "\<bar>v\<bar> \<le> 400" and "460 \<le> n"
  shows "(speed_step 0 ^^ n) v = 0"
proof -
  have "\<bar>v\<bar> * (1 - 15 / 1000) ^ n \<le> 400 * (1 - 15 / 1000) ^ n" using assms(1) by (intro mult_right_mono) simp_all
  also have "\<dots> < 1 / 2" by (rule slow_power [OF assms(2)])
  finally show ?thesis using coast_run [where n = n and v = v] assms(2) by auto
qed

lemma clamp_abs: "0 \<le> b \<Longrightarrow> \<bar>max (- b) (min b x)\<bar> \<le> (b :: real)"
  by (auto simp: max_def min_def abs_le_iff)

text \<open>Lemma: the camera never tips over: its pitch stays within a quarter turn of the horizon.\<close>

theorem pitch_clamped:
  assumes "\<bar>fst (lookAngles s)\<bar> \<le> pi / 2"
  shows "\<bar>fst (lookAngles (handleGameMouseMove readback d s))\<bar> \<le> pi / 2"
  using assms clamp_abs [of "pi / 2"] by (auto simp: handleGameMouseMove_def Let_def split: prod.split)

text \<open>Lemma: planets keep to their orbits: the distance from the axis is the radius after every move.\<close>

theorem planet_on_orbit:
  assumes "map_of (nodeDataMap s) m = Some p"
  defines "pos \<equiv> meshPos (move_planet m s) m"
  shows "fst pos * fst pos + snd (snd pos) * snd (snd pos) = pl_orbitRadius p * pl_orbitRadius p"
proof -
  let ?a = "pl_orbitAngle p + pl_orbitSpeed p" and ?r = "pl_orbitRadius p"
  have "fst pos = cos ?a * ?r" "snd (snd pos) = sin ?a * ?r"
    using assms(1) by (simp_all add: pos_def move_planet_def Let_def split: prod.split)
  moreover have "cos ?a * ?r * (cos ?a * ?r) + sin ?a * ?r * (sin ?a * ?r) = ((cos ?a)\<^sup>2 + (sin ?a)\<^sup>2) * (?r * ?r)"
    unfolding power2_eq_square by (simp only: ring_distribs mult_ac)
  moreover have "(cos ?a)\<^sup>2 + (sin ?a)\<^sup>2 = 1" by (rule sin_cos_squared_add2)
  ultimately show ?thesis by (simp only: mult_1)
qed

section \<open>The lock\<close>

definition lock_best :: "(vec \<Rightarrow> vec) \<Rightarrow> 'a gmstate_scheme \<Rightarrow> nat set \<Rightarrow> (nat \<times> planet \<times> (real \<times> real) \<times> real) option \<Rightarrow> bool" where
  "lock_best project s ms best =
     (case best of
        None \<Rightarrow> \<forall>m \<in> ms. lock_candidate project s m = None
      | Some (m, p, xy, d) \<Rightarrow> m \<in> ms \<and> lock_candidate project s m = Some (p, xy, d)
          \<and> (\<forall>m' \<in> ms. \<forall>p' xy' d'. lock_candidate project s m' = Some (p', xy', d') \<longrightarrow> d \<le> d'))"

lemma lock_closer_best: "lock_best project s ms best \<Longrightarrow> lock_best project s (insert m ms) (lock_closer project s m best)"
  by (auto simp: lock_best_def lock_closer_def split: option.splits) 

lemma lock_fold_best:
  "lock_best project s A best \<Longrightarrow> lock_best project s (set ms \<union> A) (fold (lock_closer project s) ms best)"
proof (induction ms arbitrary: A best)
  case (Cons m ms)
  from Cons.IH [OF lock_closer_best [OF Cons.prems, of m]] show ?case by simp
qed simp

text \<open>
  Lemma: the lock is on a planet nearest to the centre of the screen among those in front of the camera and
  within 300 pixels of it, and there is none exactly when there is no such planet.
\<close>

theorem lock_is_nearest: "lock_best project s (set (nodeMeshes s)) (nearest_planet project s)"
  using lock_fold_best [of project s "{}" None "nodeMeshes s"] by (simp add: nearest_planet_def lock_best_def)

section \<open>Leaving the game\<close>

lemma upd_game [simp]:
  "gm_active (upd_el k f s) = gm_active s" "asteroidMesh (upd_el k f s) = asteroidMesh s" "burstPool (upd_el k f s) = burstPool s"
  "gm_listening (upd_el k f s) = gm_listening s" "pointerLocked (upd_el k f s) = pointerLocked s" "gm_scenes (upd_el k f s) = gm_scenes s"
  "moveForward (upd_el k f s) = moveForward s" "chimpyEnabled (upd_el k f s) = chimpyEnabled s"
  by (simp_all add: upd_el_def)

lemma leave_scene_facts [simp]:
  "gm_active (leave_scene s) = False" "asteroidMesh (leave_scene s) = asteroidMesh s" "burstPool (leave_scene s) = burstPool s"
  "gm_listening (leave_scene s) = gm_listening s" "pointerLocked (leave_scene s) = pointerLocked s" "isWarping (leave_scene s) = isWarping s"
  "gm_scene (leave_scene s) = None" "gm_scenes (leave_scene s) = gm_scenes s" "moveForward (leave_scene s) = moveForward s"
  "chimpyEnabled (leave_scene s) = chimpyEnabled s" "trafficEvents (leave_scene s) = trafficEvents s"
  by (simp_all add: leave_scene_def Let_def) (simp add: upd_el_def)

lemma add_planet_keeps [simp]:
  "burstPool (add_planet i n s) = burstPool s" "gm_scene (add_planet i n s) = gm_scene s" "isWarping (add_planet i n s) = isWarping s"
  "asteroidMesh (add_planet i n s) = asteroidMesh s" "gm_active (add_planet i n s) = gm_active s"
  "chimpyEnabled (add_planet i n s) = chimpyEnabled s" "gm_scenes (add_planet i n s) = gm_scenes s"
  by (simp_all add: add_planet_def Let_def)

lemma node_spheres_keep [simp]:
  "burstPool (createNodeSpheres s) = burstPool s" "gm_scene (createNodeSpheres s) = gm_scene s"
  "isWarping (createNodeSpheres s) = isWarping s" "asteroidMesh (createNodeSpheres s) = asteroidMesh s"
  "gm_active (createNodeSpheres s) = gm_active s" "chimpyEnabled (createNodeSpheres s) = chimpyEnabled s"
  "gm_scenes (createNodeSpheres s) = gm_scenes s"
proof -
  have "burstPool (fold (\<lambda>(i, k, n). add_planet i n) xs t) = burstPool t \<and> gm_scene (fold (\<lambda>(i, k, n). add_planet i n) xs t) = gm_scene t
    \<and> isWarping (fold (\<lambda>(i, k, n). add_planet i n) xs t) = isWarping t \<and> asteroidMesh (fold (\<lambda>(i, k, n). add_planet i n) xs t) = asteroidMesh t
    \<and> gm_active (fold (\<lambda>(i, k, n). add_planet i n) xs t) = gm_active t \<and> chimpyEnabled (fold (\<lambda>(i, k, n). add_planet i n) xs t) = chimpyEnabled t
    \<and> gm_scenes (fold (\<lambda>(i, k, n). add_planet i n) xs t) = gm_scenes t"
    for xs :: "(nat \<times> string \<times> node_item) list" and t :: "'a gmstate_scheme"
    by (induction xs arbitrary: t) (simp_all add: case_prod_beta)
  then show "burstPool (createNodeSpheres s) = burstPool s" "gm_scene (createNodeSpheres s) = gm_scene s"
    "isWarping (createNodeSpheres s) = isWarping s" "asteroidMesh (createNodeSpheres s) = asteroidMesh s"
    "gm_active (createNodeSpheres s) = gm_active s" "chimpyEnabled (createNodeSpheres s) = chimpyEnabled s"
    "gm_scenes (createNodeSpheres s) = gm_scenes s"
    by (simp_all add: createNodeSpheres_def)
qed

lemma elevators_keep [simp]:
  "burstPool (createSpaceElevators rnd s) = burstPool s" "gm_scene (createSpaceElevators rnd s) = gm_scene s"
  "isWarping (createSpaceElevators rnd s) = isWarping s" "asteroidMesh (createSpaceElevators rnd s) = asteroidMesh s"
  "gm_active (createSpaceElevators rnd s) = gm_active s" "chimpyEnabled (createSpaceElevators rnd s) = chimpyEnabled s"
  "gm_scenes (createSpaceElevators rnd s) = gm_scenes s"
proof -
  have "burstPool (fold (add_elevator ms rnd) xs t) = burstPool t \<and> gm_scene (fold (add_elevator ms rnd) xs t) = gm_scene t
    \<and> isWarping (fold (add_elevator ms rnd) xs t) = isWarping t \<and> asteroidMesh (fold (add_elevator ms rnd) xs t) = asteroidMesh t
    \<and> gm_active (fold (add_elevator ms rnd) xs t) = gm_active t \<and> chimpyEnabled (fold (add_elevator ms rnd) xs t) = chimpyEnabled t
    \<and> gm_scenes (fold (add_elevator ms rnd) xs t) = gm_scenes t" for ms xs and t :: "'a gmstate_scheme"
    by (induction xs arbitrary: t) (auto simp: add_elevator_def Let_def split: option.splits)
  then show "burstPool (createSpaceElevators rnd s) = burstPool s" "gm_scene (createSpaceElevators rnd s) = gm_scene s"
    "isWarping (createSpaceElevators rnd s) = isWarping s" "asteroidMesh (createSpaceElevators rnd s) = asteroidMesh s"
    "gm_active (createSpaceElevators rnd s) = gm_active s" "chimpyEnabled (createSpaceElevators rnd s) = chimpyEnabled s"
    "gm_scenes (createSpaceElevators rnd s) = gm_scenes s"
    by (simp_all add: createSpaceElevators_def)
qed

lemma hud_keeps [simp]:
  "burstPool (updateGameHUD s) = burstPool s" "gm_scene (updateGameHUD s) = gm_scene s" "isWarping (updateGameHUD s) = isWarping s"
  "asteroidMesh (updateGameHUD s) = asteroidMesh s" "gm_active (updateGameHUD s) = gm_active s"
  "chimpyEnabled (updateGameHUD s) = chimpyEnabled s" "gm_scenes (updateGameHUD s) = gm_scenes s"
  by (simp_all add: updateGameHUD_def Let_def)

lemma enter_facts:
  "asteroidMesh (enterGameMode rnd s)" "gm_active (enterGameMode rnd s)" "gm_listening (enterGameMode rnd s)"
  "gm_scene (enterGameMode rnd s) = Some (gm_scenes s)" "gm_scenes (enterGameMode rnd s) = Suc (gm_scenes s)"
  "isWarping (enterGameMode rnd s) = isWarping s" "pointerLocked (enterGameMode rnd s)"
  "burstPool (enterGameMode rnd s) = (case burstPool s of Some p \<Rightarrow> Some p
     | None \<Rightarrow> Some \<lparr> bp_scene = Some (gm_scenes s), bp_slots = replicate BURST_POOL_SIZE None, bp_next = 0 \<rparr>)"
  "chimpyEnabled (enterGameMode rnd s) = chimpyEnabled s"
  by (simp_all add: enterGameMode_def initGameScene_def initBurstPool_def no_keys_def Let_def split: option.split)



text \<open>
  Lemma: leaving during a flight leaves the mark that a flight is under way; from then on the warp drive cannot
  be opened in any later game.
\<close>

theorem left_flight_blocks_warp:
  fixes rnd :: "string \<Rightarrow> nat \<Rightarrow> real" and s :: "'a gmstate_scheme"
  assumes "asteroidMesh s" and "isWarping s"
  defines "s' \<equiv> enterGameMode rnd (snd (leaveGameMode s))"
  shows "isWarping s' \<and> openWarpDrive s' = s'"
proof -
  have "isWarping s'" using assms by (simp add: s'_def leaveGameMode_def Let_def enter_facts)
  then show ?thesis by (simp add: openWarpDrive_def)
qed

text \<open>
  Lemma: keys that the search box of the warp drive does not use steer the ship: typing a w in a query moves it
  forward.
\<close>

theorem typing_steers_ship:
  assumes "gm_active s" and "warpDriveActive s"
  shows "handleGameKeyDown rnd look ''w'' ''KeyW'' s = (Returned, s\<lparr>moveForward := True\<rparr>)"
  using assms by (simp add: handleGameKeyDown_def handleWarpKeyDown_def set_key_def Let_def)

section \<open>What the terminal types\<close>

definition type_step :: "string \<Rightarrow> nat option \<times> 'a gmstate_scheme \<Rightarrow> nat option \<times> 'a gmstate_scheme" where
  "type_step txt st = (case fst st of None \<Rightarrow> st | Some i \<Rightarrow> displayStreamText txt i (snd st))"

lemma type_step_some: "type_step txt (Some i, s) = displayStreamText txt i s"
  by (simp add: type_step_def)

lemma text_append: "has_el k s \<Longrightarrow> text_of k (upd_el k (el_append h) s) = text_of k s @ h"
  by (auto simp: text_of_def has_el_def upd_el_def el_append_def html_of_def)

lemma text_of_other: "k \<noteq> k' \<Longrightarrow> text_of k (upd_el k' f s) = text_of k s"
  by (simp add: text_of_def upd_el_def)

lemma typed_so_far:
  assumes "has_el ''streamTerminalContent'' s" and "i \<le> min 2000 (length txt)"
  shows "\<exists>t. (type_step txt ^^ i) (Some 0, s) = (Some i, t) \<and> has_el ''streamTerminalContent'' t
    \<and> text_of ''streamTerminalContent'' t = text_of ''streamTerminalContent'' s @ concat (map typed_char (take i txt))"
  using assms(2)
proof (induction i)
  case (Suc i)
  then obtain t where t: "(type_step txt ^^ i) (Some 0, s) = (Some i, t)" "has_el ''streamTerminalContent'' t"
    "text_of ''streamTerminalContent'' t = text_of ''streamTerminalContent'' s @ concat (map typed_char (take i txt))" by auto
  have "i < length txt" "i < 2000" using Suc.prems by simp_all
  then show ?case using t by (simp add: type_step_some displayStreamText_def text_append take_Suc_conv_app_nth)
qed (simp add: assms(1))

text \<open>
  Lemma: the typing ends, after at most 2001 calls, and then the terminal shows the first 2000 characters of the
  text, each escaped, and the cursor.
\<close>

theorem terminal_types_text:
  assumes "has_el ''streamTerminalContent'' s"
  shows "\<exists>t. (type_step txt ^^ Suc (min 2000 (length txt))) (Some 0, s) = (None, t)
    \<and> text_of ''streamTerminalContent'' t
      = text_of ''streamTerminalContent'' s @ concat (map typed_char (take 2000 txt)) @ span_c ''stream-cursor'' ''_''"
proof -
  let ?n = "min 2000 (length txt)"
  obtain t where t: "(type_step txt ^^ ?n) (Some 0, s) = (Some ?n, t)" "has_el ''streamTerminalContent'' t"
    "text_of ''streamTerminalContent'' t = text_of ''streamTerminalContent'' s @ concat (map typed_char (take ?n txt))"
    using typed_so_far [OF assms, of ?n "txt"] by blast
  have "length txt \<le> ?n \<or> 2000 \<le> ?n" by linarith
  then have "(type_step txt ^^ Suc ?n) (Some 0, s) = (None, terminal_status ''COMPLETE'' ''complete''
      (upd_el ''streamTerminalContent'' (el_append (span_c ''stream-cursor'' ''_'')) t))"
    using t(1) by (simp add: type_step_some displayStreamText_def)
  moreover have "take ?n txt = take 2000 txt" by (simp add: min_def)
  ultimately show ?thesis using t(2,3) by (simp add: terminal_status_def text_of_other text_append)
qed

section \<open>Examples\<close>

definition sample_gmstate :: gmstate where
  "sample_gmstate = qstate.extend (sample_qstate\<lparr>gm_active := False, trafficEvents := [], dom := [''warpDriveResults'' \<mapsto> fresh_elem,
        ''warpSearchInput'' \<mapsto> fresh_elem, ''streamTerminalContent'' \<mapsto> fresh_elem]\<rparr>)
     (gmstate.fields None 0 0 [] [] [] (\<lambda>_. (0, 0, 0)) (\<lambda>_. 0) [] [] [] None [] [] False False False False False False False
        0 (0, 0, 0) (0, 0) None None False False False False 0 [] None 0 [] False False False True (800, 600))"

lemma sample_gmstate_fields [simp]:
  "gm_active sample_gmstate = False" "gm_scene sample_gmstate = None" "nodeMeshes sample_gmstate = []" "nodeDataMap sample_gmstate = []"
  "nodeIdToMesh sample_gmstate = []" "gm_meshes sample_gmstate = 0" "burstPool sample_gmstate = None" "spaceElevators sample_gmstate = []"
  "trafficEvents sample_gmstate = []" "chimpyEnabled sample_gmstate = True" "warpResults sample_gmstate = []"
  "warpSelectedIndex sample_gmstate = 0" "warpFlights sample_gmstate = []" "now sample_gmstate = now sample_qstate"
  "nodes sample_gmstate = nodes sample_qstate" "edges sample_gmstate = edges sample_qstate"
  "dom sample_gmstate = [''warpDriveResults'' \<mapsto> fresh_elem, ''warpSearchInput'' \<mapsto> fresh_elem, ''streamTerminalContent'' \<mapsto> fresh_elem]"
  by (simp_all add: sample_gmstate_def qstate.extend_def gmstate.defs sample_qstate_def ustate.extend_def ustate.defs qstate.defs
      sample_ustate_def sstate.extend_def sstate.defs sample_sstate_def dstate.extend_def dstate.defs sample_dstate_def)

lemma sample_keyed: "keyed_by i_id (nodes sample_gmstate)" "distinct (map_keys (nodes sample_gmstate))"
  using sample_search_facts(1,2) by (simp_all del: sample_qstate_fields)

lemma sample_tracked: "tracked sample_gmstate" "traffic_ok sample_gmstate" "overlay_there sample_gmstate" "selection_ok sample_gmstate"
  by (simp_all add: tracked_def agree_def map_keys_def traffic_ok_def overlay_there_def has_el_def selection_ok_def)

lemma planets_match_nodes_witness:
  "has_planet (refreshGameNodes (\<lambda>_ _. 0) (sample_gmstate\<lparr>gm_active := True\<rparr>)) = {''10.1.2.3''}"
proof -
  have "has_planet (refreshGameNodes (\<lambda>_ _. 0) (sample_gmstate\<lparr>gm_active := True\<rparr>)) = set (map_keys (nodes (sample_gmstate\<lparr>gm_active := True\<rparr>)))"
    by (rule planets_match_nodes [THEN conjunct2, THEN conjunct1])
      (simp_all add: tracked_def agree_def map_keys_def build_node_item_def sample_vnode_def)
  then show ?thesis by (simp add: map_keys_def)
qed



lemma warp_selection_valid_witness:
  "length (warpResults (fold (warp_step (\<lambda>_ _. (0, 0))) [Typed ''10'', WarpKey ''ArrowDown''] sample_gmstate)) \<le> 10"
  by (rule warp_selection_valid [OF sample_tracked(4,3), THEN conjunct1])

definition dest :: warp_result where
  "dest = \<lparr> wr_node = build_node_item ''traffic'' False None (sample_vnode ''10.9.9.9''), wr_matches = [(''IP'', ''10.9.9.9'')] \<rparr>"

definition moved_down :: gmstate where
  "moved_down = upd_el ''warpSearchInput'' (el_value ''10'')
     (sample_gmstate\<lparr>warpDriveActive := True, warpResults := [dest, dest], warpSelectedIndex := 1\<rparr>)"

lemma moved_down_overlay: "overlay_there moved_down" "value_of ''warpSearchInput'' moved_down = ''10''"
  by (simp_all add: moved_down_def overlay_there_def has_el_def value_of_def upd_el_def el_value_def)

lemma moved_down_fields: "nodes moved_down = nodes sample_qstate" "warpResults moved_down = [dest, dest]" "warpSelectedIndex moved_down = 1"
  by (simp_all add: moved_down_def)


definition in_scene :: gmstate where
  "in_scene = sample_gmstate\<lparr>gm_active := True, gm_scene := Some 0, warpDriveActive := True, warpResults := [dest], asteroidMesh := True,
     nodeMeshes := [0], nodeDataMap := [(0, (planet_of sample_gmstate 0 (wr_node dest)))]\<rparr>"

lemma two_warps_at_once_witness:
  "length (warpFlights (snd (handleWarpKeyDown (\<lambda>_ _. (0, 0)) ''Enter'' (snd (handleWarpKeyDown (\<lambda>_ _. (0, 0)) ''Enter'' in_scene))))) = 2"
  by (rule two_warps_at_once [where m = 0]) (simp_all add: in_scene_def mesh_for_def planet_of_def Let_def)

definition flight :: warp_flight where
  "flight = \<lparr> wf_mesh = 0, wf_node = wr_node dest, wf_from = (0, 0, 0), wf_to = (1, 0, 0), wf_start = now in_scene - 3000 \<rparr>"

lemma warp_arrives_witness:
  "warpFlights (warp_frames (\<lambda>_ _. (0, 0)) (in_scene\<lparr>warpFlights := [flight]\<rparr>)) = []"
  using warp_arrives [of "in_scene\<lparr>warpFlights := [flight]\<rparr>" flight] by (simp add: flight_def in_scene_def)



lemma left_flight_blocks_warp_witness:
  "isWarping (enterGameMode (\<lambda>_ _. 0) (snd (leaveGameMode (in_scene\<lparr>isWarping := True\<rparr>))))"
  by (rule left_flight_blocks_warp [THEN conjunct1]) (simp_all add: in_scene_def)

lemma typing_steers_ship_witness:
  "fst (handleGameKeyDown (\<lambda>_ _. 0) (\<lambda>_ _. (0, 0)) ''w'' ''KeyW'' in_scene) = Returned"
  using typing_steers_ship [of in_scene] by (simp add: in_scene_def)

lemma ship_comes_to_rest_witness: "(speed_step 0 ^^ 500) 400 = 0"
  by (rule ship_comes_to_rest) simp_all

lemma terminal_types_text_witness:
  "\<exists>t. (type_step ''GET'' ^^ Suc (min 2000 (length ''GET''))) (Some 0, sample_gmstate) = (None, t)
    \<and> text_of ''streamTerminalContent'' t
      = text_of ''streamTerminalContent'' sample_gmstate @ concat (map typed_char (take 2000 ''GET'')) @ span_c ''stream-cursor'' ''_''"
  by (rule terminal_types_text) (simp add: has_el_def)

end
