(* ===== verification/Cosmos.thy ===== *)
theory Cosmos
  imports GraphState Colors "HOL-Library.List_Lexorder" "HOL-Library.Char_ord"
begin

text \<open>
  The explorer's renderer, class \<^verbatim>\<open>CosmosNetwork\<close> of \<^verbatim>\<open>static/cosmosrenderer.js\<close>: its
  mirror of the DataSets, the buffers it uploads, the labels, the raw topology, camera calls, the
  rectangle selection, flow particles, and the timers and frames that decide when what is uploaded.

  The drawing library is a parameter: the last buffers handed to it are \<open>gpu\<close>, its camera calls are
  logged, and what it computes (zoom, projection, the points inside a rectangle) are fields of the
  state or arguments.  Buffers hold reals; the rounding to single precision is left out.
\<close>

section \<open>Constants\<close>

definition SPACE :: real where "SPACE = 8192"
definition CENTER :: real where "CENTER = SPACE / 2"
definition LAYOUT_SCALE :: real where "LAYOUT_SCALE = 1"
definition TOPO_REBUILD_MS :: real where "TOPO_REBUILD_MS = 80"
definition STYLE_MS :: real where "STYLE_MS = 750"
definition MAX_LABELS :: nat where "MAX_LABELS = 60"
definition MAX_EDGE_LABELS :: nat where "MAX_EDGE_LABELS = 14"
definition COSMOS_MAX_PARTICLES :: nat where "COSMOS_MAX_PARTICLES = 40"
definition LABEL_MIN_SCALE :: real where "LABEL_MIN_SCALE = 6 / 100"

text \<open>The hash is FNV-1a on 32 bits.\<close>

definition fnv_step :: "char \<Rightarrow> 32 word \<Rightarrow> 32 word" where
  "fnv_step c h = xor h (of_char c) * 16777619"

definition fnv :: "string \<Rightarrow> 32 word" where
  "fnv str = fold fnv_step str 2166136261"

definition idJitter :: "string \<Rightarrow> real \<times> real" where
  "idJitter str =
     (let h = fnv str
      in (of_nat (unat h mod 4096) / 4096 - 1 / 2, of_nat (unat (drop_bit 12 h) mod 4096) / 4096 - 1 / 2))"

definition toCosmos :: "real \<times> real \<Rightarrow> real \<times> real" where
  "toCosmos p = (CENTER + fst p * LAYOUT_SCALE, CENTER + snd p * LAYOUT_SCALE)"

definition fromCosmos :: "real \<times> real \<Rightarrow> real \<times> real" where
  "fromCosmos p = ((fst p - CENTER) / LAYOUT_SCALE, (snd p - CENTER) / LAYOUT_SCALE)"

section \<open>State\<close>

record planet_body =
  pb_pos :: "real \<times> real"
  pb_opacity :: real
  pb_label :: string
  pb_color :: vis_color
  pb_isGroup :: bool
  pb_isSubnet :: bool
  pb_isTail :: bool
  pb_value :: "real option"
  pb_size :: real
  pb_frozen :: real                 \<comment> \<open>\<open>_frozenSize\<close>; 0 when not set\<close>
  pb_hostname :: string
  pb_ips :: "string list"
  pb_hostCount :: nat

record link_body =
  lb_from :: string
  lb_to :: string
  lb_color :: string
  lb_opacity :: real
  lb_protocolName :: string
  lb_label :: string                \<comment> \<open>empty when not set\<close>
  lb_width :: real
  lb_packetCount :: nat

record gpu_buffers =
  g_pos :: "(real \<times> real) list"
  g_colors :: "rgba list"
  g_sizes :: "real list"
  g_shapes :: "nat list"
  g_links :: "(nat \<times> nat) list"
  g_linkColors :: "rgba list"
  g_linkWidths :: "real list"
  g_focused :: "nat option"         \<comment> \<open>\<open>focusedPointIndex\<close>\<close>

datatype library_call = FitView real | ZoomToPoint nat real real | SetZoomLevel real real

datatype cosmos_event =
  CClick "string list" "string list" "real \<times> real" "real \<times> real"
| CHover string | CBlur string | CDragStart | CZoom real

record trail =
  tr_from :: string
  tr_to :: string
  tr_color :: string
  tr_progress :: real
  tr_speed :: real

record label_el =
  le_html :: string
  le_pos :: "real \<times> real"
  le_accent :: string               \<comment> \<open>the border colour of a protocol label\<close>
  le_light :: bool                  \<comment> \<open>the theme its style was written for\<close>
  le_shown :: bool

record glow =
  gl_id :: string
  gl_at :: "real \<times> real"
  gl_radius :: real
  gl_color :: rgba
  gl_dim :: real
  gl_ring :: "bool option"          \<comment> \<open>a ring, and whether it marks a selection\<close>

record cosmos =
  c_nodesData :: "(string \<times> node_item) list"
  c_edgesData :: "(string \<times> edge_item) list"
  c_nodes :: "(string \<times> planet_body) list"
  c_edges :: "(string \<times> link_body) list"
  c_rawMode :: bool
  c_destroyed :: bool
  c_selected :: "string option"
  c_hovered :: "string option"
  c_index :: "string list"          \<comment> \<open>\<open>indexToId\<close>; \<open>idToIndex\<close> is its inverse\<close>
  c_positions :: "(real \<times> real) list"  \<comment> \<open>\<open>_positions\<close>; empty for null\<close>
  c_dirty :: bool
  c_styleDirty :: bool
  c_posDirty :: bool
  c_builtOnce :: bool
  c_userMoved :: bool
  c_adjacency :: "(string \<times> (string \<times> string) list) list"
  c_particles :: "trail list"
  c_particleRaf :: bool
  c_topoDue :: "real option"        \<comment> \<open>when \<open>_topoTimer\<close> fires\<close>
  c_styleDue :: "real option"
  c_labelDue :: "real list"
  c_redrawQueued :: bool
  c_camMoved :: bool
  c_overlayNeedsPaint :: bool
  c_labels :: "(string \<times> label_el) list"
  c_edgeLabels :: "(string \<times> label_el) list"
  c_glow :: "glow list"
  c_rectStart :: "(real \<times> real) option"
  c_rectEl :: "((real \<times> real) \<times> (real \<times> real)) option"   \<comment> \<open>corner and extent\<close>
  c_rectSelection :: "string list option"
  c_badge :: "string option"
  c_events :: "cosmos_event list"   \<comment> \<open>what the listeners were told, oldest first\<close>
  c_calls :: "library_call list"
  c_gpu :: gpu_buffers
  c_cache :: color_cache
  c_light :: bool
  c_view :: "real \<times> real"           \<comment> \<open>client width and height of the container\<close>
  c_zoom :: real                    \<comment> \<open>\<open>getZoomLevel()\<close>\<close>
  c_toScreen :: "real \<times> real \<Rightarrow> real \<times> real"
  c_toSpace :: "real \<times> real \<Rightarrow> real \<times> real"
  c_now :: real

text \<open>A JavaScript map filled by index: the last position of an id counts.\<close>

definition index_map :: "string list \<Rightarrow> string \<Rightarrow> nat option" where
  "index_map ids = map_of (rev (zip ids [0..<length ids]))"

definition idToIndex :: "cosmos \<Rightarrow> string \<Rightarrow> nat option" where
  "idToIndex s = index_map (c_index s)"

definition cosmos_emit :: "cosmos_event \<Rightarrow> cosmos \<Rightarrow> cosmos" where
  "cosmos_emit ev s = s\<lparr>c_events := c_events s @ [ev]\<rparr>"

definition cosmos_call :: "library_call \<Rightarrow> cosmos \<Rightarrow> cosmos" where
  "cosmos_call c s = s\<lparr>c_calls := c_calls s @ [c]\<rparr>"

section \<open>Camera and coordinates\<close>

definition cosmos_getScale :: "cosmos \<Rightarrow> real" where
  "cosmos_getScale s = (if 0 < c_zoom s then c_zoom s else 1)"

definition cosmos_canvasToDOM :: "cosmos \<Rightarrow> real \<times> real \<Rightarrow> real \<times> real" where
  "cosmos_canvasToDOM s p = c_toScreen s (toCosmos p)"

definition cosmos_DOMtoCanvas :: "cosmos \<Rightarrow> real \<times> real \<Rightarrow> real \<times> real" where
  "cosmos_DOMtoCanvas s p = fromCosmos (c_toSpace s p)"

definition cosmos_getPosition :: "cosmos \<Rightarrow> string \<Rightarrow> real \<times> real" where
  "cosmos_getPosition s k = (case map_of (c_nodes s) k of Some b \<Rightarrow> pb_pos b | None \<Rightarrow> (0, 0))"

definition cosmos_getPositions :: "cosmos \<Rightarrow> string list \<Rightarrow> (string \<times> (real \<times> real)) list" where
  "cosmos_getPositions s ids =
     List.map_filter (\<lambda>k. map_option (\<lambda>b. (k, pb_pos b)) (map_of (c_nodes s) k)) (remdups ids)"

definition neighbours :: "cosmos \<Rightarrow> string \<Rightarrow> (string \<times> string) list" where
  "neighbours s k = (case map_of (c_adjacency s) k of Some a \<Rightarrow> a | None \<Rightarrow> [])"

definition cosmos_getConnectedNodes :: "cosmos \<Rightarrow> string \<Rightarrow> string list" where
  "cosmos_getConnectedNodes s k = map snd (neighbours s k)"

definition cosmos_getConnectedEdges :: "cosmos \<Rightarrow> string \<Rightarrow> string list" where
  "cosmos_getConnectedEdges s k = map fst (neighbours s k)"

definition edge_point :: "cosmos \<Rightarrow> link_body \<Rightarrow> real \<Rightarrow> real \<times> real" where
  "edge_point s e t =
     (case (map_of (c_nodes s) (lb_from e), map_of (c_nodes s) (lb_to e)) of
        (Some a, Some b) \<Rightarrow>
          (fst (pb_pos a) + (fst (pb_pos b) - fst (pb_pos a)) * t,
           snd (pb_pos a) + (snd (pb_pos b) - snd (pb_pos a)) * t)
      | _ \<Rightarrow> (0, 0))"

section \<open>The mirror of the DataSets\<close>

definition new_planet :: planet_body where
  "new_planet = \<lparr> pb_pos = (0, 0), pb_opacity = 1, pb_label = [], pb_color = ColorObj [] [],
     pb_isGroup = False, pb_isSubnet = False, pb_isTail = False, pb_value = None, pb_size = 0,
     pb_frozen = 0, pb_hostname = [], pb_ips = [], pb_hostCount = 0 \<rparr>"

text \<open>
  The items of the client have no \<^verbatim>\<open>size\<close>, so the size is the old one or 14, and no
  hardware addresses.
\<close>

definition cosmos_syncNode :: "node_item \<Rightarrow> cosmos \<Rightarrow> cosmos" where
  "cosmos_syncNode item s =
     (let bn = (case map_of (c_nodes s) (i_id item) of
                  None \<Rightarrow> new_planet\<lparr>pb_pos := (case i_pos item of Some p \<Rightarrow> p | None \<Rightarrow> (0, 0))\<rparr>
                | Some b \<Rightarrow>
                    (case i_pos item of
                       Some p \<Rightarrow> if c_builtOnce s then b else b\<lparr>pb_pos := p\<rparr>
                     | None \<Rightarrow> b));
          bn = bn\<lparr>pb_label := i_label item, pb_color := i_color item,
                 pb_isGroup := (i_shape item = ''box'' \<or> i_isGroup item),
                 pb_isSubnet := i_isSubnet item, pb_isTail := i_isTail item,
                 pb_value := Some (i_value item),
                 pb_size := (if pb_size bn = 0 then 14 else pb_size bn),
                 pb_hostname := or_else (i_hostname item) (i_label item),
                 pb_ips := i_ips item, pb_hostCount := i_hostCount item\<rparr>
      in s\<lparr>c_nodes := AList.update (i_id item) bn (c_nodes s)\<rparr>)"

definition cosmos_syncEdge :: "edge_item \<Rightarrow> cosmos \<Rightarrow> cosmos" where
  "cosmos_syncEdge item s =
     (let old = map_of (c_edges s) (j_id item);
          name = or_else (fst (j_protocol item)) (j_label item);
          kept = (case old of Some b \<Rightarrow> lb_label b | None \<Rightarrow> [])
      in s\<lparr>c_edges := AList.update (j_id item)
             \<lparr> lb_from = j_from item, lb_to = j_to item,
               lb_color = or_else (j_color item) (or_else (snd (j_protocol item)) ''#5a6a80''),
               lb_opacity = (case old of Some b \<Rightarrow> lb_opacity b | None \<Rightarrow> 1),
               lb_protocolName = name,
               lb_label = or_else (j_label item) (or_else name kept),
               lb_width = j_width item, lb_packetCount = j_packetCount item \<rparr> (c_edges s)\<rparr>)"

definition resyncFromData :: "cosmos \<Rightarrow> cosmos" where
  "resyncFromData s =
     (let s = fold cosmos_syncNode (map snd (c_nodesData s)) s;
          s = fold cosmos_syncEdge (map snd (c_edgesData s)) s
      in s\<lparr>c_nodes := filter (\<lambda>(k, b). k \<in> set (map i_id (map snd (c_nodesData s)))) (c_nodes s),
           c_edges := filter (\<lambda>(k, b). k \<in> set (map j_id (map snd (c_edgesData s)))) (c_edges s)\<rparr>)"

datatype ds_kind = NodesSet | EdgesSet
datatype ds_event = Added | Updated | Removed

definition cosmos_applyDelta :: "ds_kind \<Rightarrow> ds_event \<Rightarrow> string list \<Rightarrow> cosmos \<Rightarrow> cosmos" where
  "cosmos_applyDelta kind ev ids s =
     (if ids = [] then resyncFromData s
      else if ev = Removed then
        (if kind = NodesSet then s\<lparr>c_nodes := fold AList.delete ids (c_nodes s)\<rparr>
         else s\<lparr>c_edges := fold AList.delete ids (c_edges s)\<rparr>)
      else if kind = NodesSet then fold cosmos_syncNode (items_of (c_nodesData s) ids) s
      else fold cosmos_syncEdge (items_of (c_edgesData s) ids) s)"

text \<open>
  Adding and removing starts the rebuild timer afresh; a change of style starts its timer only when
  none is running.
\<close>

definition schedule :: "ds_event \<Rightarrow> cosmos \<Rightarrow> cosmos" where
  "schedule ev s =
     (if ev \<noteq> Updated then s\<lparr>c_dirty := True, c_topoDue := Some (c_now s + TOPO_REBUILD_MS)\<rparr>
      else s\<lparr>c_styleDirty := True,
             c_styleDue := (case c_styleDue s of
                              None \<Rightarrow> Some (c_now s + STYLE_MS) | Some t \<Rightarrow> Some t)\<rparr>)"

definition cosmos_markDirty :: "ds_kind \<Rightarrow> ds_event \<Rightarrow> string list \<Rightarrow> cosmos \<Rightarrow> cosmos" where
  "cosmos_markDirty kind ev ids s =
     (if c_destroyed s then s else schedule ev (cosmos_applyDelta kind ev ids s))"

text \<open>The DataSet operations of the client, with the events they give rise to.\<close>

definition cosmos_nodes_put :: "node_item list \<Rightarrow> cosmos \<Rightarrow> cosmos" where
  "cosmos_nodes_put items s =
     (let (added, updated) = split_ids (map_keys (c_nodesData s)) (map i_id items);
          s = s\<lparr>c_nodesData := fold (\<lambda>i. put_node (i_id i) i) items (c_nodesData s)\<rparr>;
          s = (if added = [] then s else cosmos_markDirty NodesSet Added added s)
      in if updated = [] then s else cosmos_markDirty NodesSet Updated updated s)"

definition cosmos_edges_put :: "edge_item list \<Rightarrow> cosmos \<Rightarrow> cosmos" where
  "cosmos_edges_put items s =
     (let (added, updated) = split_ids (map_keys (c_edgesData s)) (map j_id items);
          s = s\<lparr>c_edgesData := fold (\<lambda>i. AList.update (j_id i) i) items (c_edgesData s)\<rparr>;
          s = (if added = [] then s else cosmos_markDirty EdgesSet Added added s)
      in if updated = [] then s else cosmos_markDirty EdgesSet Updated updated s)"

definition cosmos_nodes_remove :: "string list \<Rightarrow> cosmos \<Rightarrow> cosmos" where
  "cosmos_nodes_remove ids s =
     (let gone = filter (\<lambda>k. k \<in> set (map_keys (c_nodesData s))) (remdups ids);
          s = s\<lparr>c_nodesData := fold AList.delete ids (c_nodesData s)\<rparr>
      in if gone = [] then s else cosmos_markDirty NodesSet Removed gone s)"

definition cosmos_edges_remove :: "string list \<Rightarrow> cosmos \<Rightarrow> cosmos" where
  "cosmos_edges_remove ids s =
     (let gone = filter (\<lambda>k. k \<in> set (map_keys (c_edgesData s))) (remdups ids);
          s = s\<lparr>c_edgesData := fold AList.delete ids (c_edgesData s)\<rparr>
      in if gone = [] then s else cosmos_markDirty EdgesSet Removed gone s)"

section \<open>Colours and sizes\<close>

fun theme_all :: "bool \<Rightarrow> string list \<Rightarrow> color_cache \<Rightarrow> rgba list \<times> color_cache" where
  "theme_all light [] cache = ([], cache)"
| "theme_all light (h # hs) cache =
     (let (c, cache) = themeProtocolColor (Some h) light cache;
          (cs, cache) = theme_all light hs cache
      in (c # cs, cache))"

definition color_key :: "vis_color \<Rightarrow> string \<Rightarrow> string" where
  "color_key c k =
     (case c of ColorName _ \<Rightarrow> [] | ColorObj kvs _ \<Rightarrow> (case map_of kvs k of Some v \<Rightarrow> v | None \<Rightarrow> []))"

definition fill_hex :: "planet_body \<Rightarrow> string" where
  "fill_hex b =
     or_else (color_key (pb_color b) ''background'') (or_else (color_key (pb_color b) ''color'') ''#38bdf8'')"

definition with_alpha :: "rgba \<Rightarrow> real \<Rightarrow> rgba" where
  "with_alpha c a = map (nth_number c) [0, 1, 2] @ [Some a]"

definition point_color :: "rgba \<Rightarrow> planet_body \<Rightarrow> rgba" where
  "point_color c b = with_alpha c (min 1 (92 / 100 * pb_opacity b))"

definition link_hex :: "link_body \<Rightarrow> string" where
  "link_hex e = or_else (lb_color e) ''#64748b''"

definition link_color :: "rgba \<Rightarrow> link_body \<Rightarrow> rgba" where
  "link_color c e = with_alpha c (min (92 / 100) (72 / 100 * lb_opacity e + 15 / 100))"

text \<open>The range of the values present; no range when there are none.\<close>

definition value_range :: "planet_body list \<Rightarrow> (real \<times> real) option" where
  "value_range bs =
     (case List.map_filter pb_value bs of
        [] \<Rightarrow> None | v # vs \<Rightarrow> Some (fold min vs v, fold max vs v))"

definition drawn_size :: "(real \<times> real) option \<Rightarrow> planet_body \<Rightarrow> real" where
  "drawn_size rng b =
     (if 0 < pb_frozen b then pb_frozen b
      else if pb_isSubnet b \<or> pb_isTail b
           then 18 + min 30 ((if pb_hostCount b = 0 then 4 else of_nat (pb_hostCount b)) * (12 / 100))
      else if pb_isGroup b then 10
      else case (rng, pb_value b) of
             (Some (minV, maxV), Some v) \<Rightarrow>
               if maxV \<le> minV then 12 else 8 + 18 * (v - minV) / (maxV - minV)
           | _ \<Rightarrow> 12)"

definition freeze_size :: "(real \<times> real) option \<Rightarrow> planet_body \<Rightarrow> planet_body" where
  "freeze_size rng b = b\<lparr>pb_size := drawn_size rng b, pb_frozen := drawn_size rng b\<rparr>"

section \<open>Planet atmospheres\<close>

text \<open>\<^verbatim>\<open>_paintPlanetFX\<close>: what is drawn on the canvas under the points.\<close>

definition glow_of :: "cosmos \<Rightarrow> string \<times> planet_body \<Rightarrow> (string \<times> planet_body \<times> real \<times> real) option" where
  "glow_of s kb =
     (let b = snd kb; (x, y) = cosmos_canvasToDOM s (pb_pos b);
          w = (if fst (c_view s) = 0 then 1 else fst (c_view s));
          h = (if snd (c_view s) = 0 then 1 else snd (c_view s))
      in if pb_opacity b < 5 / 100 then None
         else if x < - 80 \<or> y < - 80 \<or> w + 80 < x \<or> h + 80 < y then None
         else Some (fst kb, b, x, y))"

definition planet_at_index :: "cosmos \<Rightarrow> (string \<times> planet_body) list" where
  "planet_at_index s =
     List.map_filter (\<lambda>k. map_option (Pair k) (map_of (c_nodes s) k)) (c_index s)"

definition glow_disc :: "cosmos \<Rightarrow> (string \<times> planet_body \<times> real \<times> real) \<times> rgba \<Rightarrow> glow" where
  "glow_disc s d =
     (let ((k, b, x, y), c) = d;
          size = (if pb_size b = 0 then 12 else pb_size b);
          r = max 4 (size * (55 / 100) * min (22 / 10) (max (4 / 10) (cosmos_getScale s * (9 / 10))));
          sel = (c_selected s = Some k \<or> c_hovered s = Some k)
      in \<lparr> gl_id = k, gl_at = (x, y), gl_radius = r, gl_color = c, gl_dim = pb_opacity b,
           gl_ring = (if sel \<or> 18 < pb_size b \<or> pb_isSubnet b then Some sel else None) \<rparr>)"

definition paintPlanetFX :: "cosmos \<Rightarrow> cosmos" where
  "paintPlanetFX s =
     (if c_destroyed s then s
      else if \<not> c_builtOnce s then s\<lparr>c_glow := []\<rparr>
      else
        let ds = List.map_filter (glow_of s) (planet_at_index s);
            (cs, cache) = theme_all (c_light s) (map (\<lambda>(k, b, x, y). fill_hex b) ds) (c_cache s)
        in s\<lparr>c_glow := map (glow_disc s) (zip ds cs), c_cache := cache\<rparr>)"

section \<open>Labels\<close>

text \<open>Title and subtitle.  The hardware address is empty, see above.\<close>

definition planetLabel :: "string \<Rightarrow> planet_body \<Rightarrow> string \<times> string" where
  "planetLabel k b =
     (let name = or_else (pb_hostname b) (or_else (pb_label b) k);
          ip = (case pb_ips b of
                  [] \<Rightarrow> if dotted_quad k \<noteq> None then k else []
                | first # _ \<Rightarrow> (case find (\<lambda>x. dotted_quad x \<noteq> None) (pb_ips b) of Some x \<Rightarrow> x | None \<Rightarrow> first))
      in if pb_isSubnet b
         then (name, (if pb_hostCount b = 0 then ''?'' else show_nat (pb_hostCount b)) @ '' hosts'')
         else if pb_isTail b then (name, ''quieter hosts'')
         else if pb_isGroup b then (name, ''group'')
         else (name, if ip \<noteq> [] \<and> ip \<noteq> name then ip else []))"

definition cosmos_esc_char :: "char \<Rightarrow> string" where
  "cosmos_esc_char c =
     (if c = CHR ''&'' then ''&amp;'' else if c = CHR ''<'' then ''&lt;''
      else if c = CHR ''>'' then ''&gt;'' else if c = CHR 0x22 then ''&quot;'' else [c])"

definition cosmos_escapeHtml :: "string \<Rightarrow> string" where
  "cosmos_escapeHtml x = concat (map cosmos_esc_char x)"

definition label_sub_color :: "bool \<Rightarrow> string" where
  "label_sub_color light = (if light then ''rgba(51,65,85,0.85)'' else ''rgba(148,163,184,0.92)'')"

definition label_clip :: string where
  "label_clip = ''overflow:hidden;text-overflow:ellipsis;''"

definition label_html :: "bool \<Rightarrow> string \<times> string \<Rightarrow> string" where
  "label_html light ts =
     (let (title, sub) = ts; q = [CHR 0x22];
          main = ''<div style='' @ q @ label_clip @ q @ ''>'' @ cosmos_escapeHtml title @ ''</div>''
      in if sub = [] then main
         else main @ ''<div style='' @ q @ label_clip @ ''font-weight:500;font-size:10px;color:''
                @ label_sub_color light @ q @ ''>'' @ cosmos_escapeHtml sub @ ''</div>'')"

definition hide_label :: "label_el \<Rightarrow> label_el" where
  "hide_label e = e\<lparr>le_shown := False\<rparr>"

definition show_only ::
    "(string \<times> label_el) list \<Rightarrow> (string \<times> label_el) list \<Rightarrow> (string \<times> label_el) list" where
  "show_only fresh old =
     map (\<lambda>(k, e). if k \<in> set (map fst fresh) then (k, e) else (k, hide_label e))
       (fold (\<lambda>(k, e). AList.update k e) fresh old)"

definition ranked_planets :: "cosmos \<Rightarrow> (string \<times> planet_body) list" where
  "ranked_planets s =
     sort_key (\<lambda>(k, b). - (if pb_size b = 0 then 10 else pb_size b)) (planet_at_index s)"

definition label_budget :: "real \<Rightarrow> nat" where
  "label_budget scale = (if 35 / 100 < scale then MAX_LABELS else min 36 MAX_LABELS)"

definition label_of :: "cosmos \<Rightarrow> string \<times> planet_body \<Rightarrow> (string \<times> label_el) option" where
  "label_of s kb =
     (let (k, b) = kb; (sx, sy) = c_toScreen s (toCosmos (pb_pos b))
      in if sx < - 40 \<or> sy < - 20 \<or> fst (c_view s) + 40 < sx \<or> snd (c_view s) + 20 < sy then None
         else Some (k, \<lparr> le_html = label_html (c_light s) (planetLabel k b), le_pos = (sx, sy),
                         le_accent = [], le_light = c_light s, le_shown = True \<rparr>))"

definition edge_label_of ::
    "cosmos \<Rightarrow> string \<times> link_body \<times> (real \<times> real) \<Rightarrow> (string \<times> label_el) option" where
  "edge_label_of s x =
     (let (eid, e, m) = x; (dx, dy) = cosmos_canvasToDOM s m
      in if dx < 0 \<or> dy < 0 \<or> fst (c_view s) < dx \<or> snd (c_view s) < dy then None
         else Some (eid, \<lparr> le_html = or_else (lb_protocolName e) (lb_label e), le_pos = (dx, dy),
                           le_accent = or_else (lb_color e) ''#94a3b8'', le_light = c_light s,
                           le_shown = True \<rparr>))"

definition labelled_edge :: "cosmos \<Rightarrow> string \<Rightarrow> (string \<times> link_body \<times> (real \<times> real)) option" where
  "labelled_edge s eid =
     (case map_of (c_edges s) eid of
        None \<Rightarrow> None
      | Some e \<Rightarrow>
          (case (map_of (c_nodes s) (lb_from e), map_of (c_nodes s) (lb_to e)) of
             (Some a, Some b) \<Rightarrow>
               if or_else (lb_protocolName e) (lb_label e) = [] then None
               else Some (eid, e, (fst (pb_pos a) + fst (pb_pos b)) / 2, (snd (pb_pos a) + snd (pb_pos b)) / 2)
           | _ \<Rightarrow> None))"

definition hide_all :: "(string \<times> label_el) list \<Rightarrow> (string \<times> label_el) list" where
  "hide_all ls = map (\<lambda>(k, e). (k, hide_label e)) ls"

text \<open>Selected before hovered; an empty id counts as none.\<close>

definition focus_id :: "cosmos \<Rightarrow> string" where
  "focus_id s =
     or_else (case c_selected s of Some k \<Rightarrow> k | None \<Rightarrow> []) (case c_hovered s of Some k \<Rightarrow> k | None \<Rightarrow> [])"

definition updateEdgeLabels :: "cosmos \<Rightarrow> cosmos" where
  "updateEdgeLabels s =
     (if focus_id s = [] \<or> cosmos_getScale s < 1 / 10 \<or> neighbours s (focus_id s) = []
      then s\<lparr>c_edgeLabels := hide_all (c_edgeLabels s)\<rparr>
      else
        let ranked = sort_key (\<lambda>(eid, e, m). - int (lb_packetCount e))
                       (List.map_filter (labelled_edge s \<circ> fst) (neighbours s (focus_id s)));
            fresh = List.map_filter (edge_label_of s) (take MAX_EDGE_LABELS ranked)
        in s\<lparr>c_edgeLabels := show_only fresh (c_edgeLabels s)\<rparr>)"

definition updateLabels :: "cosmos \<Rightarrow> cosmos" where
  "updateLabels s =
     (if c_destroyed s then s
      else if cosmos_getScale s < LABEL_MIN_SCALE
      then s\<lparr>c_labels := hide_all (c_labels s), c_edgeLabels := hide_all (c_edgeLabels s)\<rparr>
      else
        let fresh = List.map_filter (label_of s) (take (label_budget (cosmos_getScale s)) (ranked_planets s))
        in updateEdgeLabels (s\<lparr>c_labels := show_only fresh (c_labels s)\<rparr>))"

definition paint_overlay :: "cosmos \<Rightarrow> cosmos" where
  "paint_overlay s = updateLabels (paintPlanetFX s)"

section \<open>Uploading\<close>

definition adj_push ::
    "string \<Rightarrow> string \<times> string \<Rightarrow> (string \<times> (string \<times> string) list) list \<Rightarrow> (string \<times> (string \<times> string) list) list" where
  "adj_push k x m = AList.update k ((case map_of m k of Some a \<Rightarrow> a | None \<Rightarrow> []) @ [x]) m"

text \<open>The links that can be drawn, in the order of their ids, with the indices of their ends.\<close>

definition drawable ::
    "(string \<times> link_body) list \<Rightarrow> (string \<Rightarrow> nat option) \<Rightarrow> (string \<times> link_body \<times> nat \<times> nat) list" where
  "drawable es ix =
     List.map_filter
       (\<lambda>eid. case map_of es eid of
                None \<Rightarrow> None
              | Some e \<Rightarrow> (case (ix (lb_from e), ix (lb_to e)) of
                             (Some a, Some b) \<Rightarrow> Some (eid, e, a, b) | _ \<Rightarrow> None))
       (sort (map fst es))"

definition build_adjacency ::
    "(string \<times> link_body \<times> nat \<times> nat) list \<Rightarrow> (string \<times> (string \<times> string) list) list" where
  "build_adjacency ls =
     fold (\<lambda>(eid, e, a, b) m. adj_push (lb_to e) (eid, lb_from e) (adj_push (lb_from e) (eid, lb_to e) m)) ls []"

definition planets_of :: "cosmos \<Rightarrow> string list \<Rightarrow> planet_body list" where
  "planets_of s ids = List.map_filter (map_of (c_nodes s)) ids"

text \<open>The order of the points, and their sizes; the buffers; the first view of everything.\<close>

definition reindex :: "cosmos \<Rightarrow> cosmos" where
  "reindex s =
     (let ids = sort (map fst (c_nodes s)); rng = value_range (planets_of s ids)
      in s\<lparr>c_dirty := False, c_styleDirty := False, c_index := ids,
           c_nodes := map (\<lambda>(k, b). (k, freeze_size rng b)) (c_nodes s)\<rparr>)"

definition link_width :: "link_body \<Rightarrow> real" where
  "link_width e = max (11 / 10) (min (65 / 10) ((if lb_width e = 0 then 1 else lb_width e) * (115 / 100)))"

definition upload_all :: "cosmos \<Rightarrow> cosmos" where
  "upload_all s =
     (let bs = planets_of s (c_index s); ls = drawable (c_edges s) (idToIndex s);
          (pcs, cache) = theme_all (c_light s) (map fill_hex bs) (c_cache s);
          (lcs, cache) = theme_all (c_light s) (map (\<lambda>(eid, e, a, b). link_hex e) ls) cache;
          pos = map (toCosmos \<circ> pb_pos) bs
      in s\<lparr>c_adjacency := build_adjacency ls, c_cache := cache, c_positions := pos,
           c_gpu := (c_gpu s)\<lparr>
             g_pos := pos,
             g_colors := map (\<lambda>(c, b). point_color c b) (zip pcs bs),
             g_sizes := map pb_size bs, g_shapes := map (\<lambda>b. 0) bs,
             g_links := map (\<lambda>(eid, e, a, b). (a, b)) ls,
             g_linkColors := map (\<lambda>(c, (eid, e, a, b)). link_color c e) (zip lcs ls),
             g_linkWidths := map (\<lambda>(eid, e, a, b). link_width e) ls\<rparr>\<rparr>)"

definition first_fit :: "cosmos \<Rightarrow> cosmos" where
  "first_fit s =
     (if \<not> c_builtOnce s \<and> c_index s \<noteq> [] then cosmos_call (FitView 500) (s\<lparr>c_builtOnce := True\<rparr>) else s)"

definition cosmos_rebuild :: "cosmos \<Rightarrow> cosmos" where
  "cosmos_rebuild s =
     (if c_destroyed s \<or> c_rawMode s then s else paint_overlay (first_fit (upload_all (reindex s))))"

text \<open>
  \<^verbatim>\<open>_pushPositions\<close>: the array of the last positions is overwritten in any case, but handed to the
  library only when some coordinate differs from it by more than 0.05.  An id without a body keeps
  its place.
\<close>

definition differs :: "real \<times> real \<Rightarrow> real \<times> real \<Rightarrow> bool" where
  "differs p q = (5 / 100 < \<bar>fst p - fst q\<bar> \<or> 5 / 100 < \<bar>snd p - snd q\<bar>)"

definition current_positions :: "cosmos \<Rightarrow> (real \<times> real) list \<Rightarrow> (real \<times> real) list" where
  "current_positions s pos =
     map (\<lambda>(k, p). case map_of (c_nodes s) k of Some b \<Rightarrow> toCosmos (pb_pos b) | None \<Rightarrow> p) (zip (c_index s) pos)"

definition pushPositions :: "cosmos \<Rightarrow> bool \<times> cosmos" where
  "pushPositions s =
     (if c_destroyed s \<or> c_rawMode s \<or> \<not> c_builtOnce s \<or> c_index s = [] then (False, s)
      else
        let pos = (if length (c_positions s) = length (c_index s) then c_positions s
                   else replicate (length (c_index s)) (0, 0));
            new = current_positions s pos;
            s = s\<lparr>c_positions := new\<rparr>
        in if \<not> list_ex (\<lambda>(p, q). differs p q) (zip pos new) then (False, s)
           else (True, paint_overlay (s\<lparr>c_gpu := (c_gpu s)\<lparr>g_pos := new\<rparr>\<rparr>)))"

definition pushColorsOnly :: "cosmos \<Rightarrow> cosmos" where
  "pushColorsOnly s =
     (if c_destroyed s \<or> c_rawMode s \<or> \<not> c_builtOnce s then s
      else
        let s = s\<lparr>c_styleDirty := False\<rparr>
        in if c_index s = [] then s
           else
             let bs = planet_at_index s;
                 (cs, cache) = theme_all (c_light s) (map (fill_hex \<circ> snd) bs) (c_cache s);
                 col = map_of (zip (map fst bs) (map (\<lambda>(c, (k, b)). point_color c b) (zip cs bs)));
                 ls = drawable (c_edges s) (idToIndex s);
                 (lcs, cache) = theme_all (c_light s) (map (\<lambda>(eid, e, a, b). link_hex e) ls) cache
             in s\<lparr>c_cache := cache,
                  c_gpu := (c_gpu s)\<lparr>
                    g_colors := map (\<lambda>k. case col k of Some c \<Rightarrow> c | None \<Rightarrow> map Some [0, 0, 0, 0]) (c_index s),
                    g_linkColors := map (\<lambda>(c, (eid, e, a, b)). link_color c e) (zip lcs ls)\<rparr>\<rparr>)"

section \<open>Timers and frames\<close>

definition topo_fires :: "cosmos \<Rightarrow> cosmos" where
  "topo_fires s =
     (case c_topoDue s of
        None \<Rightarrow> s
      | Some t \<Rightarrow> if c_now s < t then s
                  else let s = s\<lparr>c_topoDue := None\<rparr> in if c_dirty s then cosmos_rebuild s else s)"

definition style_fires :: "cosmos \<Rightarrow> cosmos" where
  "style_fires s =
     (case c_styleDue s of
        None \<Rightarrow> s
      | Some t \<Rightarrow> if c_now s < t then s
                  else let s = s\<lparr>c_styleDue := None\<rparr>
                       in if c_styleDirty s \<and> \<not> c_dirty s then pushColorsOnly s else s)"

definition labels_fire :: "cosmos \<Rightarrow> cosmos" where
  "labels_fire s =
     (if list_ex (\<lambda>t. t \<le> c_now s) (c_labelDue s)
      then updateLabels (s\<lparr>c_labelDue := filter (\<lambda>t. \<not> t \<le> c_now s) (c_labelDue s)\<rparr>) else s)"

definition cosmos_redraw :: "cosmos \<Rightarrow> cosmos" where
  "cosmos_redraw s =
     (if c_destroyed s \<or> \<not> c_builtOnce s \<or> c_redrawQueued s then s else s\<lparr>c_redrawQueued := True\<rparr>)"

definition redraw_frame :: "cosmos \<Rightarrow> cosmos" where
  "redraw_frame s =
     (if \<not> c_redrawQueued s then s
      else
        let s = s\<lparr>c_redrawQueued := False\<rparr>
        in if c_destroyed s then s
           else
             let (moved, s) = (if c_posDirty s then pushPositions (s\<lparr>c_posDirty := False\<rparr>) else (False, s))
             in if \<not> moved \<and> (c_overlayNeedsPaint s \<or> c_camMoved s)
                then paint_overlay (s\<lparr>c_camMoved := False, c_overlayNeedsPaint := False\<rparr>) else s)"

definition cosmos_markSceneDirty :: "string option \<Rightarrow> cosmos \<Rightarrow> cosmos" where
  "cosmos_markSceneDirty kind s =
     (let s = (if kind = Some ''nodes'' \<or> kind = Some ''all'' \<or> kind = None
               then s\<lparr>c_posDirty := True\<rparr> else s);
          s = (if kind = Some ''edges'' \<or> kind = Some ''all''
               then s\<lparr>c_styleDirty := True,
                      c_styleDue := (case c_styleDue s of None \<Rightarrow> Some (c_now s + 50) | Some t \<Rightarrow> Some t)\<rparr>
               else s)
      in cosmos_redraw s)"

definition theme_changed :: "bool \<Rightarrow> cosmos \<Rightarrow> cosmos" where
  "theme_changed light s = cosmos_redraw (s\<lparr>c_light := light, c_styleDirty := True\<rparr>)"

section \<open>Camera calls\<close>

definition cosmos_fit :: "real option \<Rightarrow> cosmos \<Rightarrow> cosmos" where
  "cosmos_fit duration s =
     (let dur = (case duration of None \<Rightarrow> 0 | Some d \<Rightarrow> if d = 0 then 400 else d);
          s = cosmos_call (FitView dur) s
      in s\<lparr>c_labelDue := c_labelDue s @ [c_now s + dur + 20]\<rparr>)"

definition set_focused :: "nat option \<Rightarrow> cosmos \<Rightarrow> cosmos" where
  "set_focused i s = s\<lparr>c_gpu := (c_gpu s)\<lparr>g_focused := i\<rparr>\<rparr>"

definition cosmos_selectNodes :: "string list \<Rightarrow> cosmos \<Rightarrow> cosmos" where
  "cosmos_selectNodes ids s =
     (case ids of
        [] \<Rightarrow> set_focused None (s\<lparr>c_selected := None\<rparr>)
      | k # _ \<Rightarrow> set_focused (idToIndex s k) (s\<lparr>c_selected := Some k\<rparr>))"

definition cosmos_focus :: "string \<Rightarrow> real option \<Rightarrow> real \<Rightarrow> cosmos \<Rightarrow> cosmos" where
  "cosmos_focus k duration scale s =
     (case idToIndex s k of
        None \<Rightarrow> s
      | Some i \<Rightarrow>
          let dur = (case duration of None \<Rightarrow> 500 | Some d \<Rightarrow> if d = 0 then 500 else d);
              s = cosmos_selectNodes [k] (cosmos_call (ZoomToPoint i dur scale) s)
          in s\<lparr>c_labelDue := c_labelDue s @ [c_now s + dur + 20]\<rparr>)"

text \<open>A position is not looked at.\<close>

definition cosmos_moveTo :: "(real \<times> real) option \<Rightarrow> real option \<Rightarrow> bool \<Rightarrow> cosmos \<Rightarrow> cosmos" where
  "cosmos_moveTo position scale animated s =
     (case scale of None \<Rightarrow> s | Some z \<Rightarrow> cosmos_call (SetZoomLevel z (if animated then 300 else 0)) s)"

definition cosmos_setSize :: "real \<times> real \<Rightarrow> cosmos \<Rightarrow> cosmos" where
  "cosmos_setSize view s = updateLabels (s\<lparr>c_view := view\<rparr>)"

text \<open>The library's own zoom: its start, and each step with the new projection.\<close>

definition zoom_started :: "bool \<Rightarrow> cosmos \<Rightarrow> cosmos" where
  "zoom_started userDriven s =
     cosmos_emit CDragStart (if userDriven then s\<lparr>c_userMoved := True\<rparr> else s)"

definition cosmos_zoomed ::
    "real \<Rightarrow> (real \<times> real \<Rightarrow> real \<times> real) \<Rightarrow> (real \<times> real \<Rightarrow> real \<times> real) \<Rightarrow> cosmos \<Rightarrow> cosmos" where
  "cosmos_zoomed zoom toScreen toSpace s =
     (let s = cosmos_redraw (s\<lparr>c_zoom := zoom, c_toScreen := toScreen, c_toSpace := toSpace,
                              c_camMoved := True, c_overlayNeedsPaint := True\<rparr>)
      in cosmos_emit (CZoom (cosmos_getScale s)) s)"

section \<open>Rectangle selection\<close>

definition applyRectSelection :: "string list \<Rightarrow> cosmos \<Rightarrow> cosmos" where
  "applyRectSelection ids s =
     (let inside = (\<lambda>k. ids = [] \<or> k \<in> set ids);
          s = s\<lparr>c_rectSelection := Some ids,
                c_nodes := map (\<lambda>(k, b). (k, b\<lparr>pb_opacity := (if inside k then 1 else 12 / 100)\<rparr>)) (c_nodes s),
                c_edges := map (\<lambda>(k, e). (k, e\<lparr>lb_opacity :=
                   (if ids = [] \<or> lb_from e \<in> set ids \<and> lb_to e \<in> set ids then 1 else 6 / 100)\<rparr>)) (c_edges s)\<rparr>;
          s = cosmos_redraw (s\<lparr>c_styleDirty := True\<rparr>)
      in s\<lparr>c_badge := (if ids = [] then None
              else Some (show_nat (length ids) @ '' host'' @ (if length ids = 1 then [] else ''s'')
                         @ '' selected''))\<rparr>)"

definition clearRectSelection :: "cosmos \<Rightarrow> cosmos" where
  "clearRectSelection s =
     (case c_rectSelection s of
        None \<Rightarrow> s
      | Some ids \<Rightarrow> if ids = [] then s else (applyRectSelection [] s)\<lparr>c_rectSelection := None\<rparr>)"

definition rect_down :: "bool \<Rightarrow> nat \<Rightarrow> real \<times> real \<Rightarrow> cosmos \<Rightarrow> cosmos" where
  "rect_down shift button p s =
     (if \<not> shift \<or> button \<noteq> 0 then s else s\<lparr>c_rectStart := Some p, c_rectEl := Some (p, (0, 0))\<rparr>)"

definition rect_corners :: "real \<times> real \<Rightarrow> real \<times> real \<Rightarrow> (real \<times> real) \<times> (real \<times> real)" where
  "rect_corners p q = ((min (fst p) (fst q), min (snd p) (snd q)), (max (fst p) (fst q), max (snd p) (snd q)))"

definition rect_move :: "real \<times> real \<Rightarrow> cosmos \<Rightarrow> cosmos" where
  "rect_move q s =
     (case (c_rectStart s, c_rectEl s) of
        (Some p, Some r) \<Rightarrow>
          let ((x0, y0), (x1, y1)) = rect_corners p q
          in s\<lparr>c_rectEl := Some ((x0, y0), (x1 - x0, y1 - y0))\<rparr>
      | _ \<Rightarrow> s)"

text \<open>\<open>inRect\<close> is what the library finds; indices without an id, and empty ids, are dropped.\<close>

definition rect_up :: "((real \<times> real) \<times> (real \<times> real) \<Rightarrow> nat list) \<Rightarrow> real \<times> real \<Rightarrow> cosmos \<Rightarrow> cosmos" where
  "rect_up inRect q s =
     (case c_rectStart s of
        None \<Rightarrow> s
      | Some p \<Rightarrow>
          let s = s\<lparr>c_rectStart := None, c_rectEl := None\<rparr>;
              ((x0, y0), (x1, y1)) = rect_corners p q
          in if x1 - x0 < 4 \<and> y1 - y0 < 4 then s
             else applyRectSelection
                    (filter (\<lambda>k. k \<noteq> []) (List.map_filter
                       (\<lambda>i. if i < length (c_index s) then Some (c_index s ! i) else None)
                       (inRect ((x0, y0), (x1, y1))))) s)"

section \<open>Pointer events of the library\<close>

definition id_at :: "cosmos \<Rightarrow> nat option \<Rightarrow> string option" where
  "id_at s i =
     (case i of None \<Rightarrow> None | Some n \<Rightarrow> if n < length (c_index s) then Some (c_index s ! n) else None)"

definition onCosmosClick :: "nat option \<Rightarrow> (real \<times> real) option \<Rightarrow> cosmos \<Rightarrow> cosmos" where
  "onCosmosClick i where_at s =
     (let s = clearRectSelection s; k = id_at s i; p = (case where_at of Some q \<Rightarrow> q | None \<Rightarrow> (0, 0));
          s = s\<lparr>c_selected := (if k = Some [] then None else k)\<rparr>;
          s = set_focused i s;
          s = paint_overlay (s\<lparr>c_overlayNeedsPaint := True\<rparr>)
      in cosmos_emit (CClick (case k of Some n \<Rightarrow> [n] | None \<Rightarrow> [])
                             (case k of Some n \<Rightarrow> cosmos_getConnectedEdges s n | None \<Rightarrow> [])
                             p (cosmos_DOMtoCanvas s p)) s)"

definition hovered_is :: "cosmos \<Rightarrow> string option" where
  "hovered_is s = (if c_hovered s = Some [] then None else c_hovered s)"

definition onCosmosHover :: "nat \<Rightarrow> cosmos \<Rightarrow> cosmos" where
  "onCosmosHover i s =
     (case id_at s (Some i) of
        None \<Rightarrow> s
      | Some k \<Rightarrow>
          let s = (case hovered_is s of
                     Some h \<Rightarrow> if h \<noteq> k then cosmos_emit (CBlur h) s else s | None \<Rightarrow> s);
              s = paintPlanetFX (updateLabels (s\<lparr>c_hovered := Some k\<rparr>))
          in cosmos_emit (CHover k) s)"

definition onCosmosBlur :: "cosmos \<Rightarrow> cosmos" where
  "onCosmosBlur s =
     (case hovered_is s of
        None \<Rightarrow> s
      | Some h \<Rightarrow> paintPlanetFX (updateLabels ((cosmos_emit (CBlur h) s)\<lparr>c_hovered := None\<rparr>)))"

section \<open>Flow particles\<close>

fun take_trails :: "cosmos \<Rightarrow> nat \<Rightarrow> particle list \<Rightarrow> trail list" where
  "take_trails s room [] = []"
| "take_trails s room (f # fs) =
     (if room = 0 then []
      else if map_of (c_nodes s) (pt_from f) = None \<or> map_of (c_nodes s) (pt_to f) = None
      then take_trails s room fs
      else \<lparr> tr_from = pt_from f, tr_to = pt_to f, tr_color = or_else (pt_color f) ''#7fd3ff'',
             tr_progress = 0, tr_speed = (if pt_speed f = 0 then 25 / 1000 else pt_speed f) \<rparr>
           # take_trails s (room - 1) fs)"

definition cosmos_spawnParticles :: "particle list \<Rightarrow> cosmos \<Rightarrow> cosmos" where
  "cosmos_spawnParticles flows s =
     (if c_destroyed s \<or> c_rawMode s then s
      else s\<lparr>c_particles := keep_newest COSMOS_MAX_PARTICLES (c_particles s @ take_trails s 8 flows),
             c_particleRaf := True\<rparr>)"

definition trail_alive :: "cosmos \<Rightarrow> trail \<Rightarrow> bool" where
  "trail_alive s p =
     (tr_progress p < 1 \<and> map_of (c_nodes s) (tr_from p) \<noteq> None \<and> map_of (c_nodes s) (tr_to p) \<noteq> None)"

definition particle_frame :: "cosmos \<Rightarrow> cosmos" where
  "particle_frame s =
     (if \<not> c_particleRaf s then s
      else
        let s = s\<lparr>c_particleRaf := False\<rparr>
        in if c_destroyed s then s
           else
             let alive = filter (trail_alive s)
                           (map (\<lambda>p. p\<lparr>tr_progress := tr_progress p + tr_speed p\<rparr>) (c_particles s))
             in s\<lparr>c_particles := alive, c_particleRaf := (alive \<noteq> [])\<rparr>)"

section \<open>Raw topology\<close>

definition leading_number :: "string \<Rightarrow> (string \<times> string) option" where
  "leading_number x =
     (let ds = takeWhile is_digit x
      in case dropWhile is_digit x of
           c # rest \<Rightarrow> if ds \<noteq> [] \<and> c = CHR ''.'' then Some (ds, rest) else None
         | [] \<Rightarrow> None)"

definition subnetKey :: "string \<Rightarrow> string" where
  "subnetKey k =
     (case leading_number k of
        None \<Rightarrow> ''other''
      | Some (a, r) \<Rightarrow>
          (case leading_number r of
             None \<Rightarrow> ''other''
           | Some (b, r) \<Rightarrow>
               (case leading_number r of
                  None \<Rightarrow> a @ ''.'' @ b
                | Some (c, _) \<Rightarrow> a @ ''.'' @ b @ ''.'' @ c)))"

record raw_frame =
  rf_ids :: "string list"
  rf_tiers :: "nat list"
  rf_flags :: "nat list"
  rf_links :: "(nat \<times> nat) list"
  rf_protoIdx :: "nat list"

definition members_of :: "string list \<Rightarrow> string \<Rightarrow> nat list" where
  "members_of ids key = filter (\<lambda>i. subnetKey (ids ! i) = key) [0..<length ids]"

definition system_keys :: "string list \<Rightarrow> string list" where
  "system_keys ids = sort (remdups (map subnetKey ids))"

definition star_at :: "string \<Rightarrow> nat \<Rightarrow> real \<times> real" where
  "star_at key si =
     (let ring = real (si div 12); slot = real (si mod 12); j = idJitter key;
          a = slot / 12 * pi * 2 + fst j;
          r = SPACE * (12 / 100) + ring * SPACE * (8 / 100) + \<bar>snd j\<bar> * 40
      in (CENTER + cos a * r, CENTER + sin a * r))"

definition place_member :: "cosmos \<Rightarrow> real \<times> real \<Rightarrow> nat \<Rightarrow> string \<Rightarrow> real \<times> real" where
  "place_member s star rank k =
     (case idToIndex s k of
        Some i \<Rightarrow> if i < length (c_positions s) then c_positions s ! i
                  else if rank = 0 then star
                  else (fst star + cos (fst (idJitter k) * pi * 2) * (25 + real rank * 18),
                        snd star + sin (fst (idJitter k) * pi * 2) * (25 + real rank * 18))
      | None \<Rightarrow> if rank = 0 then star
                else (fst star + cos (fst (idJitter k) * pi * 2) * (25 + real rank * 18),
                      snd star + sin (fst (idJitter k) * pi * 2) * (25 + real rank * 18)))"

definition TIER :: "rgba list" where
  "TIER = map (map Some) [[45 / 100, 58 / 100, 72 / 100, 85 / 100], [30 / 100, 65 / 100, 90 / 100, 1],
     [18 / 100, 75 / 100, 62 / 100, 1], [95 / 100, 72 / 100, 25 / 100, 1], [92 / 100, 33 / 100, 28 / 100, 1]]"

definition raw_size :: "raw_frame \<Rightarrow> nat \<Rightarrow> real" where
  "raw_size f i = (if odd (rf_flags f ! i) then 5 else 6 + real (rf_tiers f ! i) * 3)"

text \<open>All placements, system after system: the index, and its place.\<close>

definition placements :: "raw_frame \<Rightarrow> cosmos \<Rightarrow> (nat \<times> (real \<times> real)) list" where
  "placements f s =
     concat (map (\<lambda>(key, si).
         map (\<lambda>(i, rank). (i, place_member s (star_at key si) rank (rf_ids f ! i)))
           (zip (members_of (rf_ids f) key) [0..<length (rf_ids f)]))
       (zip (system_keys (rf_ids f)) [0..<length (rf_ids f)]))"

definition raw_body :: "raw_frame \<Rightarrow> nat \<times> (real \<times> real) \<Rightarrow> (string \<times> planet_body) list \<Rightarrow> (string \<times> planet_body) list" where
  "raw_body f ip bodies =
     (let (i, p) = ip; k = rf_ids f ! i;
          b = (case map_of bodies k of Some b \<Rightarrow> b | None \<Rightarrow> new_planet)
      in AList.update k (b\<lparr>pb_pos := fromCosmos p, pb_size := raw_size f i, pb_label := k, pb_hostname := k\<rparr>) bodies)"

fun parse_each :: "string option list \<Rightarrow> color_cache \<Rightarrow> rgba list \<times> color_cache" where
  "parse_each [] cache = ([], cache)"
| "parse_each (c # cs) cache =
     (let (x, cache) = parseRendererColor c (Some default_rgba) cache; (xs, cache) = parse_each cs cache
      in (x # xs, cache))"

text \<open>\<open>protos\<close>: the colours of the protocol table.\<close>

definition setRawTopology :: "raw_frame \<Rightarrow> string option list \<Rightarrow> cosmos \<Rightarrow> cosmos" where
  "setRawTopology f protos s =
     (if c_destroyed s then s
      else
        let ps = placements f s; n = length (rf_ids f);
            pos = map (\<lambda>i. case map_of ps i of Some p \<Rightarrow> p | None \<Rightarrow> (0, 0)) [0..<n];
            (lcs, cache) = parse_each (map (\<lambda>i. if i < length protos then protos ! i else None) (rf_protoIdx f))
                             (c_cache s);
            s = s\<lparr>c_rawMode := True, c_index := rf_ids f, c_positions := pos, c_cache := cache,
                  c_nodes := fold (raw_body f) ps (c_nodes s),
                  c_gpu := (c_gpu s)\<lparr>g_pos := pos,
                    g_colors := map (\<lambda>i. TIER ! min (rf_tiers f ! i) 4) [0..<n],
                    g_sizes := map (raw_size f) [0..<n],
                    g_shapes := map (\<lambda>i. if odd (rf_flags f ! i) then 1 else 0) [0..<n],
                    g_links := rf_links f,
                    g_linkColors := map (\<lambda>c. with_alpha c (28 / 100)) lcs\<rparr>\<rparr>;
            s = (if \<not> c_builtOnce s \<and> 0 < n then cosmos_call (FitView 600) (s\<lparr>c_builtOnce := True\<rparr>) else s)
        in updateLabels s)"

section \<open>Beginning and end\<close>

text \<open>The constructor, over DataSets that may hold items already.\<close>

definition cosmos_blank ::
    "(string \<times> node_item) list \<Rightarrow> (string \<times> edge_item) list \<Rightarrow> cosmos \<Rightarrow> cosmos" where
  "cosmos_blank nodesData edgesData lib =
     lib\<lparr>c_nodesData := nodesData, c_edgesData := edgesData, c_nodes := [], c_edges := [],
         c_rawMode := False, c_destroyed := False, c_selected := None, c_hovered := None,
         c_index := [], c_positions := [], c_dirty := False, c_styleDirty := False,
         c_posDirty := False, c_builtOnce := False, c_userMoved := False, c_adjacency := [],
         c_particles := [], c_particleRaf := False, c_topoDue := None, c_styleDue := None,
         c_labelDue := [], c_redrawQueued := False, c_camMoved := False,
         c_overlayNeedsPaint := False, c_labels := [], c_edgeLabels := [], c_glow := [],
         c_rectStart := None, c_rectEl := None, c_rectSelection := None, c_badge := None,
         c_events := [], c_calls := [],
         c_gpu := \<lparr> g_pos = [], g_colors = [], g_sizes = [], g_shapes = [], g_links = [],
                    g_linkColors = [], g_linkWidths = [], g_focused = None \<rparr>\<rparr>"

definition cosmos_new ::
    "(string \<times> node_item) list \<Rightarrow> (string \<times> edge_item) list \<Rightarrow> cosmos \<Rightarrow> cosmos" where
  "cosmos_new nodesData edgesData lib =
     cosmos_rebuild (fold cosmos_syncEdge (map snd edgesData)
       (fold cosmos_syncNode (map snd nodesData) (cosmos_blank nodesData edgesData lib)))"

definition cosmos_destroy :: "cosmos \<Rightarrow> cosmos" where
  "cosmos_destroy s =
     s\<lparr>c_destroyed := True, c_topoDue := None, c_styleDue := None, c_particleRaf := False\<rparr>"

end
