(* ===== verification/Spec2Isabelle.thy ===== *)
theory Spec2Isabelle
  imports Sockets SearchSpec SearchWorker Colors HitTest Cockpit Cosmos
begin

text \<open>
  Etherchimp captures packets, builds a graph of the hosts and the traffic between them, and streams it
  to a browser.  This library models the browser client, \<^verbatim>\<open>src/static\<close>: \<^verbatim>\<open>app.js\<close> (the page),
  \<^verbatim>\<open>glrenderer.js\<close> (the default renderer), \<^verbatim>\<open>cosmosrenderer.js\<close> (the explorer's), \<^verbatim>\<open>search-worker.js\<close> and \<^verbatim>\<open>colorutil.js\<close>.

  \<^bold>\<open>How the parts interact.\<close>  The server sends topology messages, position frames and counters on a
  WebSocket.  \<^verbatim>\<open>ws.onmessage\<close> decodes them; topology goes through a throttle to \<^verbatim>\<open>updateGraph\<close>, which
  updates two DataSets, the meta maps beside them and the caches of what was last drawn; the DataSets
  notify the renderer, which keeps a mirror of them.  Positions are eased towards their targets frame by
  frame.  The user's actions (filters, expansion, focus, the timeline, replay, the search) send control
  messages back, ask the HTTP interface, and change the page.

  \<^bold>\<open>Theories and the code they model.\<close>
  \<^item> \<^verbatim>\<open>Prelude\<close>: strings, rounding, insertion-ordered sets and maps (locales \<open>name_set\<close>, \<open>keyed_store\<close>).
  \<^item> \<^verbatim>\<open>NetOptions\<close>: \<^verbatim>\<open>getPerformanceTier\<close>, \<^verbatim>\<open>getNetworkOptions\<close>.
  \<^item> \<^verbatim>\<open>World\<close>: the page, the storage, the clock, and the log of effects.
  \<^item> \<^verbatim>\<open>Colors\<close>: \<^verbatim>\<open>colorutil.js\<close> with its cache.  \<^verbatim>\<open>SearchWorker\<close>: \<^verbatim>\<open>search-worker.js\<close>.
  \<^item> \<^verbatim>\<open>Format\<close>, \<^verbatim>\<open>GraphData\<close>, \<^verbatim>\<open>Html\<close>, \<^verbatim>\<open>PacketData\<close>: text helpers, items, labels, colours,
    signatures, markup, packets and base64.
  \<^item> \<^verbatim>\<open>Catalog\<close>: the protocol catalog, legend and filters.  \<^verbatim>\<open>Packets\<close>: polling, cache, table, inspector.
  \<^item> \<^verbatim>\<open>Renderer\<close>: class \<^verbatim>\<open>GLNetwork\<close> without the GPU: mirror, sizes, camera, particles, queries.
    \<^verbatim>\<open>HitTest\<close>: its pointer input, spatial hash and edge distance.
  \<^item> \<^verbatim>\<open>Cosmos\<close>: class \<^verbatim>\<open>CosmosNetwork\<close> over its drawing library, a state of its own.
  \<^item> \<^verbatim>\<open>GraphState\<close>, \<^verbatim>\<open>GraphSync\<close>, \<^verbatim>\<open>Freshness\<close>, \<^verbatim>\<open>Throttle\<close>: DataSets, easing, focus, flow
    particles; \<^verbatim>\<open>updateGraph\<close>; why a node may be skipped; \<^verbatim>\<open>throttledUpdateGraph\<close> (locale \<open>coalescing\<close>).
  \<^item> \<^verbatim>\<open>Wire\<close>: \<^verbatim>\<open>ws.onmessage\<close>, position and raw topology frames byte by byte, counter frames.
  \<^item> \<^verbatim>\<open>Details\<close>: expansion and focus of subnets, overrides, the details panel, tooltips.
  \<^item> \<^verbatim>\<open>Session\<close>, \<^verbatim>\<open>Sockets\<close>: connecting, resynchronising, timeline, replay (locale \<open>seq_guard\<close>).
  \<^item> \<^verbatim>\<open>Streams\<close>: the stream list and its detail window.  \<^verbatim>\<open>Search\<close>, \<^verbatim>\<open>SearchSpec\<close>: the search box.
  \<^item> \<^verbatim>\<open>Game\<close>: the game mode: planets on hashed orbits, elevators, packet beams and bursts.
    \<^verbatim>\<open>Warp\<close>: flights to a planet, the selection, the screens.  \<^verbatim>\<open>Cockpit\<close>: steering, locking, the
    terminals, entering and leaving the mode.

  \<^bold>\<open>State.\<close>  Each layer extends the record of the layer below with the variables of its part of the
  code: \<open>world\<close>, \<open>cstate\<close> (catalog), \<open>pstate\<close> (packets), \<open>gstate\<close> (graph), \<open>wstate\<close> (wire),
  \<open>dstate\<close> (details), \<open>sstate\<close> (session), \<open>ustate\<close> (streams), \<open>qstate\<close> (search), \<open>gmstate\<close> (game mode).  An operation
  takes the record with an arbitrary extension and returns it updated, so an operation of a lower layer is
  one of every layer above.  Requests, timers, control messages and renderer calls are appended to the log
  of the world; the reply to a request and the run of a timer are operations of their own, so that they
  may come in any order.

  \<^bold>\<open>What the lemmas show.\<close>  A topology message leaves the DataSets, the mirror and the meta maps in
  agreement, draws every node as the message says, and the chunks of a snapshot make up the snapshot;
  binary frames are read as the server writes them, and a frame that is cut short is applied up to its
  last whole entry; throttles neither lose the last update nor leave it waiting without a timer; replies
  that have been overtaken are ignored where the code has a guard, and shown where it has none; the loops
  end; windows stay within reach; hit tests find what a full search would.

  \<^bold>\<open>Bounds.\<close>  \<open>details_turn\<close> is a \<^verbatim>\<open>partial_function (option)\<close>: \<^verbatim>\<open>showNodeDetails\<close> and the promise it
  awaits may call each other without end (\<open>hover_then_click_hangs\<close>), and end otherwise
  (\<open>details_settle\<close>).  Playing the timeline ends within 359 ticks, the poll for a hidden host within 21,
  the poll for a settled layout within 41.  In the game mode a burst ends within 68 frames, a beam is dark
  within 98, a ship left alone stands still within 460, and a screen types its text in 2001 calls at most.

  \<^bold>\<open>Conventions.\<close>  Strings are lists of bytes; a character of the source outside that range is written as
  the bytes of its encoding.  Coordinates and measures are reals; where a rounded double reaches a printed
  digit or an index the rounding is written out.  Dictionaries and JavaScript maps are association lists
  with unique keys in insertion order.  White space between the tags of a template literal is left out.
  Results of the browser (locale formatting, layout rectangles, random numbers) are fields of the state or
  arguments.

  \<^bold>\<open>Not modelled.\<close>  The GPU side of the renderer (buffers, shaders, the text atlas) and the drawing on
  canvases compute no value the client reads back.  The drawing library under \<^verbatim>\<open>cosmosrenderer.js\<close>
  is a parameter of \<open>Cosmos\<close>; the layers above see a renderer of another kind than the default
  one as the same record with another \<open>rn_kind\<close>, so \<open>Cosmos\<close> stands beside them and takes the DataSet
  operations itself.  Of the game mode the scenery (stars, nebulae, the asteroid belt, the meshes of
  planets and of the cockpit) and the drawing of its panels are left out; what moves, counts, selects or
  ends is modelled.  Of the page, the opening and closing of menus, the buttons for theme and layout,
  and the ride of the mascot along the links are left out.
  The vendored libraries (\<^verbatim>\<open>vis-network\<close>, \<^verbatim>\<open>three.js\<close>, \<^verbatim>\<open>cosmos\<close>) and the server, which is written in Go, are
  outside; of the server only the encoders of the binary frames are written down, as the specification of
  the round trips.
\<close>

end
